theory Spec2Isabelle
  imports Main "HOL-Library.Sublist" "HOL-Library.Word" "HOL-Library.Char_ord"
    "HOL-Library.List_Lexorder"
begin

section \<open>JavaScript strings and values\<close>

text \<open>
  Strings are byte strings (\<open>char list\<close>); a character outside ASCII stands for its
  UTF-8 bytes. Case mapping and whitespace are the ASCII ones: \<open>toLowerCase\<close> maps
  \<open>A\<close>..\<open>Z\<close> and leaves every other byte alone, \<open>trim\<close> removes space, tab,
  line feed, vertical tab, form feed and carriage return.
\<close>

definition upper_chars :: string where
  "upper_chars = ''ABCDEFGHIJKLMNOPQRSTUVWXYZ''"

definition lower_chars :: string where
  "lower_chars = ''abcdefghijklmnopqrstuvwxyz''"

definition digit_chars :: string where
  "digit_chars = ''0123456789''"

definition toLowerCase_char :: "char \<Rightarrow> char" where
  "toLowerCase_char c =
     (case map_of (zip upper_chars lower_chars) c of Some d \<Rightarrow> d | None \<Rightarrow> c)"

definition toUpperCase_char :: "char \<Rightarrow> char" where
  "toUpperCase_char c =
     (case map_of (zip lower_chars upper_chars) c of Some d \<Rightarrow> d | None \<Rightarrow> c)"

definition toLowerCase :: "string \<Rightarrow> string" where
  "toLowerCase s = map toLowerCase_char s"

definition toUpperCase :: "string \<Rightarrow> string" where
  "toUpperCase s = map toUpperCase_char s"

definition is_whitespace :: "char \<Rightarrow> bool" where
  "is_whitespace c = (c \<in> set [CHR '' '', CHR 0x09, CHR 0x0A, CHR 0x0B, CHR 0x0C, CHR 0x0D])"

definition trim :: "string \<Rightarrow> string" where
  "trim s = rev (dropWhile is_whitespace (rev (dropWhile is_whitespace s)))"

text \<open>\<open>s.includes(pat)\<close> and \<open>s.startsWith(pat)\<close>.\<close>

fun js_includes :: "string \<Rightarrow> string \<Rightarrow> bool" where
  "js_includes [] pat = (pat = [])"
| "js_includes (c # cs) pat = (prefix pat (c # cs) \<or> js_includes cs pat)"

definition startsWith :: "string \<Rightarrow> string \<Rightarrow> bool" where
  "startsWith s pat = prefix pat s"

text \<open>
  \<open>s.length\<close> and \<open>s.substring(0, n)\<close> count UTF-16 code units: a character of one
  to three bytes is one unit, a character of four bytes is two. A cut between the two
  units of a character leaves a lone surrogate, which is written out as U+FFFD when the
  string is encoded again.
\<close>

definition continuation_byte :: "char \<Rightarrow> bool" where
  "continuation_byte c = (0x80 \<le> (of_char c :: nat) \<and> (of_char c :: nat) < 0xC0)"

definition four_byte_lead :: "char \<Rightarrow> bool" where
  "four_byte_lead c = (0xF0 \<le> (of_char c :: nat))"

definition utf16_length :: "string \<Rightarrow> nat" where
  "utf16_length s =
     length (filter (\<lambda>c. \<not> continuation_byte c) s) + length (filter four_byte_lead s)"

fun substring0 :: "nat \<Rightarrow> string \<Rightarrow> string" where
  "substring0 n [] = []"
| "substring0 n (c # cs) =
     (if continuation_byte c then c # substring0 n cs
      else if four_byte_lead c then
        (if 2 \<le> n then c # substring0 (n - 2) cs
         else if n = 1 then [CHR 0xEF, CHR 0xBF, CHR 0xBD]
         else [])
      else if 1 \<le> n then c # substring0 (n - 1) cs
      else [])"

text \<open>\<open>s.split(sep)\<close> for a one-character separator: never the empty list.\<close>

fun split_on :: "char \<Rightarrow> string \<Rightarrow> string list" where
  "split_on sep [] = [[]]"
| "split_on sep (c # cs) =
     (if c = sep then [] # split_on sep cs
      else (case split_on sep cs of
              [] \<Rightarrow> [[c]]
            | p # ps \<Rightarrow> (c # p) # ps))"

text \<open>\<open>parts.join(sep)\<close>.\<close>

fun join :: "string \<Rightarrow> string list \<Rightarrow> string" where
  "join sep [] = []"
| "join sep [p] = p"
| "join sep (p # q # ps) = p @ sep @ join sep (q # ps)"

text \<open>Decimal rendering of a number, as template literals and \<open>String(n)\<close> do.\<close>

fun show_nat :: "nat \<Rightarrow> string" where
  "show_nat n =
     (if n < 10 then [digit_chars ! n]
      else show_nat (n div 10) @ [digit_chars ! (n mod 10)])"

declare show_nat.simps [simp del]

definition show_int :: "int \<Rightarrow> string" where
  "show_int i = (if i < 0 then CHR ''-'' # show_nat (nat (- i)) else show_nat (nat i))"

text \<open>
  The values a JSON field of an extraction result holds. A field that is absent
  (\<open>undefined\<close>) is \<open>None\<close> in the object, a map from field names.
\<close>

datatype jv = JNull | JBool bool | JNum int | JStr string

type_synonym js_object = "string \<rightharpoonup> jv"

fun truthy :: "jv \<Rightarrow> bool" where
  "truthy JNull = False"
| "truthy (JBool b) = b"
| "truthy (JNum n) = (n \<noteq> 0)"
| "truthy (JStr s) = (s \<noteq> [])"

text \<open>\<open>a || b\<close> where \<open>a\<close> is a field that may be absent.\<close>

definition js_or :: "jv option \<Rightarrow> jv \<Rightarrow> jv" where
  "js_or a b = (case a of None \<Rightarrow> b | Some v \<Rightarrow> if truthy v then v else b)"

text \<open>\<open>a || {}\<close> where \<open>a\<close> is an object that may be absent.\<close>

definition object_or_empty :: "js_object option \<Rightarrow> js_object" where
  "object_or_empty a = (case a of None \<Rightarrow> Map.empty | Some d \<Rightarrow> d)"

text \<open>\<open>a || b\<close> on optional strings: the empty string is falsy.\<close>

definition str_or :: "string option \<Rightarrow> string option \<Rightarrow> string option" where
  "str_or a b = (case a of None \<Rightarrow> b | Some s \<Rightarrow> if s = [] then b else Some s)"

definition str_or_default :: "string option \<Rightarrow> string \<Rightarrow> string" where
  "str_or_default a d = (case a of None \<Rightarrow> d | Some s \<Rightarrow> if s = [] then d else s)"

definition falsy_str :: "string option \<Rightarrow> bool" where
  "falsy_str a = (case a of None \<Rightarrow> True | Some s \<Rightarrow> s = [])"

text \<open>
  A value inside a template literal. A number is an integer here and prints as its
  digits; the source's numbers are doubles.
\<close>

fun to_str :: "jv \<Rightarrow> string" where
  "to_str JNull = ''null''"
| "to_str (JBool b) = (if b then ''true'' else ''false'')"
| "to_str (JNum n) = show_int n"
| "to_str (JStr s) = s"

text \<open>What a \<open>catch\<close> receives: an \<open>Error\<close> with its message, or any other value.\<close>

datatype exn = Error string | TypeError string | Thrown

text \<open>\<open>error instanceof Error ? error.message : fallback\<close>.\<close>

fun message_or :: "exn \<Rightarrow> string \<Rightarrow> string" where
  "message_or (Error m) d = m"
| "message_or (TypeError m) d = m"
| "message_or Thrown d = d"

subsection \<open>decodeURIComponent\<close>

text \<open>
  The escapes of a string are read first: \<open>%\<close> followed by two hexadecimal digits is a
  byte, any other \<open>%\<close> is malformed. The bytes of the escapes must then form well-formed
  UTF-8 (the lead byte fixes how many continuation bytes follow and the range of each);
  otherwise the function throws \<open>URIError\<close>, which is \<open>None\<close> here.
\<close>

datatype uri_token = Lit char | Esc nat | Malformed

definition hex_digit_val :: "char \<Rightarrow> nat option" where
  "hex_digit_val c =
     map_of (zip ''0123456789abcdefABCDEF''
       [0, 1, 2, 3, 4, 5, 6, 7, 8, 9, 10, 11, 12, 13, 14, 15, 10, 11, 12, 13, 14, 15]) c"

fun uri_tokens :: "string \<Rightarrow> uri_token list" where
  "uri_tokens [] = []"
| "uri_tokens (c # cs) =
     (if c \<noteq> CHR ''%'' then Lit c # uri_tokens cs
      else (case cs of
              h1 # h2 # rest \<Rightarrow>
                (case (hex_digit_val h1, hex_digit_val h2) of
                   (Some a, Some b) \<Rightarrow> Esc (16 * a + b) # uri_tokens rest
                 | _ \<Rightarrow> [Malformed])
            | _ \<Rightarrow> [Malformed]))"

text \<open>The ranges of the continuation bytes a lead byte asks for.\<close>

definition utf8_tail :: "nat \<Rightarrow> (nat \<times> nat) list option" where
  "utf8_tail b =
     (if 0xC2 \<le> b \<and> b \<le> 0xDF then Some [(0x80, 0xBF)]
      else if b = 0xE0 then Some [(0xA0, 0xBF), (0x80, 0xBF)]
      else if b = 0xED then Some [(0x80, 0x9F), (0x80, 0xBF)]
      else if 0xE1 \<le> b \<and> b \<le> 0xEF then Some [(0x80, 0xBF), (0x80, 0xBF)]
      else if b = 0xF0 then Some [(0x90, 0xBF), (0x80, 0xBF), (0x80, 0xBF)]
      else if 0xF1 \<le> b \<and> b \<le> 0xF3 then Some [(0x80, 0xBF), (0x80, 0xBF), (0x80, 0xBF)]
      else if b = 0xF4 then Some [(0x80, 0x8F), (0x80, 0xBF), (0x80, 0xBF)]
      else None)"

fun decode_tokens :: "(nat \<times> nat) list \<Rightarrow> uri_token list \<Rightarrow> string option" where
  "decode_tokens [] [] = Some []"
| "decode_tokens (r # rs) [] = None"
| "decode_tokens pend (Malformed # ts) = None"
| "decode_tokens [] (Lit c # ts) = map_option ((#) c) (decode_tokens [] ts)"
| "decode_tokens (r # rs) (Lit c # ts) = None"
| "decode_tokens [] (Esc b # ts) =
     (if b < 0x80 then map_option ((#) (char_of b)) (decode_tokens [] ts)
      else (case utf8_tail b of
              None \<Rightarrow> None
            | Some rs \<Rightarrow> map_option ((#) (char_of b)) (decode_tokens rs ts)))"
| "decode_tokens ((lo, hi) # rs) (Esc b # ts) =
     (if lo \<le> b \<and> b \<le> hi then map_option ((#) (char_of b)) (decode_tokens rs ts)
      else None)"

definition decodeURIComponent :: "string \<Rightarrow> string option" where
  "decodeURIComponent s = decode_tokens [] (uri_tokens s)"

section \<open>URL processor\<close>

subsection \<open>normalizeUrl\<close>

text \<open>\<open>replace(/^https?:\/\//, "")\<close> and \<open>replace(/^www\./, "")\<close>.\<close>

definition strip_scheme :: "string \<Rightarrow> string" where
  "strip_scheme s =
     (if prefix ''https://'' s then drop 8 s
      else if prefix ''http://'' s then drop 7 s
      else s)"

definition strip_www :: "string \<Rightarrow> string" where
  "strip_www s = (if prefix ''www.'' s then drop 4 s else s)"

text \<open>
  The body of the \<open>try\<close> block: \<open>None\<close> when it throws (a malformed escape, or a
  result that is empty or has no dot).
\<close>

definition normalizeUrl_try :: "string \<Rightarrow> string option" where
  "normalizeUrl_try input =
     (case decodeURIComponent input of
        None \<Rightarrow> None
      | Some d0 \<Rightarrow>
          (let d1 = strip_scheme d0;
               d2 = strip_www d1;
               d3 = hd (split_on CHR ''/'' d2);
               d4 = hd (split_on CHR '':'' d3);
               decoded = trim (toLowerCase d4)
           in if decoded = [] \<or> \<not> js_includes decoded ''.'' then None else Some decoded))"

definition normalizeUrl :: "string \<Rightarrow> string" where
  "normalizeUrl input =
     (if input = [] then []
      else (case normalizeUrl_try input of
              Some decoded \<Rightarrow> decoded
            | None \<Rightarrow> trim (toLowerCase (strip_www (strip_scheme input)))))"

section \<open>The platform\<close>

text \<open>
  What the code takes from its runtime and from the services it calls, as parameters:
  the URL parser (\<open>new URL(u)\<close>, giving host name and path name, \<open>None\<close> when it
  throws), the rendering of a time as an ISO string, \<open>JSON.stringify\<close> on a list of
  strings, and the outcomes of the bucket's operations: \<open>put\<close> may throw, \<open>delete\<close>
  may fail, \<open>list\<close> may throw an \<open>Error\<close> (\<open>list_error\<close> gives its message for a
  prefix) and returns at most \<open>list_limit\<close> objects. \<open>head\<close> does not throw here.
  Times are milliseconds, as \<open>Date.now()\<close> gives them.

  \<open>db_update_error table status\<close> is the outcome of an \<open>update\<close> of a database table
  whose result the code does not look at, by the table and the status value the update
  writes: when it is true the update fails and the table stays as it was.
\<close>

record platform =
  url_parse :: "string \<Rightarrow> (string \<times> string) option"
  toISOString :: "nat \<Rightarrow> string"
  json_stringify :: "string list \<Rightarrow> string"
  put_error :: "string \<Rightarrow> exn option"
  delete_error :: "string \<Rightarrow> bool"
  list_error :: "string \<Rightarrow> string option"
  list_limit :: nat
  db_update_error :: "string \<Rightarrow> string \<Rightarrow> bool"

section \<open>R2 bucket\<close>

record r2_object =
  o_body :: string
  o_size :: nat
  o_customMetadata :: "(string \<times> string) list"

type_synonym r2_bucket = "(string \<times> r2_object) list"

definition r2_head :: "r2_bucket \<Rightarrow> string \<Rightarrow> r2_object option" where
  "r2_head bucket key = map_of bucket key"

fun r2_put :: "r2_bucket \<Rightarrow> string \<Rightarrow> r2_object \<Rightarrow> r2_bucket" where
  "r2_put [] key obj = [(key, obj)]"
| "r2_put ((k, v) # bucket) key obj =
     (if k = key then (key, obj) # bucket else (k, v) # r2_put bucket key obj)"

definition r2_delete :: "r2_bucket \<Rightarrow> string \<Rightarrow> r2_bucket" where
  "r2_delete bucket key = filter (\<lambda>kv. fst kv \<noteq> key) bucket"

text \<open>
  \<open>bucket.list({ prefix })\<close>: the objects whose key begins with the prefix, in the
  order of their keys (the bytes of the UTF-8 encoding), at most \<open>list_limit\<close> of them;
  \<open>r2_objects\<close> is the listing when the call returns.
\<close>

definition r2_objects :: "platform \<Rightarrow> r2_bucket \<Rightarrow> string \<Rightarrow> (string \<times> r2_object) list" where
  "r2_objects P bucket pfx =
     take (list_limit P) (sort_key fst (filter (\<lambda>kv. prefix pfx (fst kv)) bucket))"

definition r2_list ::
  "platform \<Rightarrow> r2_bucket \<Rightarrow> string \<Rightarrow> exn + (string \<times> r2_object) list" where
  "r2_list P bucket pfx =
     (case list_error P pfx of
        Some msg \<Rightarrow> Inl (Error msg)
      | None \<Rightarrow> Inr (r2_objects P bucket pfx))"

text \<open>An exception inside a template literal: \<open>Error.prototype.toString\<close>.\<close>

fun exn_string :: "exn \<Rightarrow> string" where
  "exn_string (Error m) = (if m = [] then ''Error'' else ''Error: '' @ m)"
| "exn_string (TypeError m) = (if m = [] then ''TypeError'' else ''TypeError: '' @ m)"
| "exn_string Thrown = ''[object Object]''"

section \<open>R2 content uploader\<close>

record content_item =
  ci_url :: string
  ci_title :: string
  ci_content :: string
  ci_processed_content :: "string option"
  ci_contentType :: "string option"
  ci_images :: "string list option"

record upload_options =
  opt_overwrite :: "bool option"
  opt_generateMetadata :: "bool option"
  opt_skipSupabaseStorage :: "bool option"

record upload_request =
  rq_brandId :: string
  rq_domain :: string
  rq_content :: "content_item list option"
  rq_options :: "upload_options option"

record upload_result =
  r_url :: string
  r_r2Key :: string
  r_success :: bool
  r_size :: "nat option"
  r_error :: "string option"

record upload_summary =
  total :: nat
  successful :: nat
  failed :: nat
  totalSize :: nat

record upload_response =
  rs_success :: bool
  rs_brandId :: string
  rs_domain :: string
  rs_results :: "upload_result list"
  rs_summary :: upload_summary

text \<open>\<open>options?.overwrite\<close> as a condition.\<close>

definition options_overwrite :: "upload_options option \<Rightarrow> bool" where
  "options_overwrite options =
     (case options of
        None \<Rightarrow> False
      | Some opts \<Rightarrow> (case opt_overwrite opts of None \<Rightarrow> False | Some b \<Rightarrow> b))"

definition getBrandR2Prefix :: "string \<Rightarrow> string" where
  "getBrandR2Prefix domain =
     (let normalizedDomain = toLowerCase (strip_www (strip_scheme domain))
      in ''brands/'' @ normalizedDomain)"

definition categorizeContent :: "string \<Rightarrow> string list \<Rightarrow> string" where
  "categorizeContent url pathSegments =
     (let path = toLowerCase (join ''/'' pathSegments) in
      if js_includes path ''product'' \<or> js_includes path ''model'' \<or> js_includes path ''car''
        then ''products''
      else if js_includes path ''news'' \<or> js_includes path ''blog'' \<or> js_includes path ''article''
        then ''news''
      else if js_includes path ''about'' \<or> js_includes path ''company'' \<or> js_includes path ''history''
        then ''about''
      else if js_includes path ''service'' \<or> js_includes path ''support''
              \<or> js_includes path ''maintenance''
        then ''services''
      else if js_includes path ''contact'' \<or> js_includes path ''location''
              \<or> js_includes path ''dealer''
        then ''contact''
      else if js_includes path ''gallery'' \<or> js_includes path ''image'' \<or> js_includes path ''media''
        then ''media''
      else ''pages'')"

text \<open>
  \<open>filename.replace(/\.[^/.]+$/, "")\<close>: the text from the last dot on is removed when
  at least one character follows that dot and none of them is a slash.
\<close>

definition remove_extension :: "string \<Rightarrow> string" where
  "remove_extension filename =
     (let r = rev filename;
          ext = takeWhile (\<lambda>c. c \<noteq> CHR ''.'') r
      in if length ext < length r \<and> ext \<noteq> [] \<and> CHR ''/'' \<notin> set ext
         then rev (drop (Suc (length ext)) r)
         else filename)"

text \<open>
  The three replacements that sanitize a file name: every character outside
  \<open>[a-zA-Z0-9\-_]\<close> becomes a dash, a run of dashes becomes one dash, one leading and
  one trailing dash are removed.
\<close>

definition filename_char :: "char \<Rightarrow> bool" where
  "filename_char c = (c \<in> set (lower_chars @ upper_chars @ digit_chars @ ''-_''))"

fun collapse_dashes :: "string \<Rightarrow> string" where
  "collapse_dashes (a # b # cs) =
     (if a = CHR ''-'' \<and> b = CHR ''-'' then collapse_dashes (b # cs)
      else a # collapse_dashes (b # cs))"
| "collapse_dashes cs = cs"

definition strip_edge_dashes :: "string \<Rightarrow> string" where
  "strip_edge_dashes s =
     (let s1 = (case s of c # cs \<Rightarrow> if c = CHR ''-'' then cs else s | [] \<Rightarrow> [])
      in if s1 \<noteq> [] \<and> last s1 = CHR ''-'' then butlast s1 else s1)"

definition sanitize_filename :: "string \<Rightarrow> string" where
  "sanitize_filename filename =
     strip_edge_dashes
       (collapse_dashes (map (\<lambda>c. if filename_char c then c else CHR ''-'') filename))"

text \<open>
  The key of a page. \<open>t\<close> is the reading of \<open>Date.now()\<close> when the key is made; it is
  part of the key on both paths.
\<close>

definition generateR2Key :: "platform \<Rightarrow> nat \<Rightarrow> string \<Rightarrow> string \<Rightarrow> nat \<Rightarrow> string" where
  "generateR2Key P t brandPrefix url index =
     (case url_parse P url of
        None \<Rightarrow>
          brandPrefix @ ''/content/pages/page-'' @ show_nat index @ ''-'' @ show_nat t @ ''.md''
      | Some (hostname, pathname) \<Rightarrow>
          (let pathSegments = filter (\<lambda>s. s \<noteq> []) (split_on CHR ''/'' pathname);
               filename0 = (if length pathSegments > 0 then last pathSegments else ''index'');
               filename1 = remove_extension filename0;
               filename2 = (if filename1 = [] then ''page-'' @ show_nat index else filename1);
               filename = sanitize_filename filename2;
               contentType = categorizeContent url pathSegments;
               timestamp = t
           in brandPrefix @ ''/content/'' @ contentType @ ''/'' @ filename @ ''-''
                @ show_nat timestamp @ ''.md''))"

definition nl :: string where
  "nl = [CHR 0x0A]"

definition formatAsMarkdown :: "platform \<Rightarrow> nat \<Rightarrow> content_item \<Rightarrow> nat \<Rightarrow> string" where
  "formatAsMarkdown P t contentItem index =
     (let timestamp = toISOString P t;
          images = (case ci_images contentItem of None \<Rightarrow> [] | Some imgs \<Rightarrow> imgs);
          title = (if ci_title contentItem = [] then ''Untitled'' else ci_title contentItem);
          contentType = str_or_default (ci_contentType contentItem) ''page'';
          imageSection =
            (if length images > 0
             then nl @ ''## Product Images'' @ nl
                  @ join nl (map (\<lambda>(i, img). ''![Product Image '' @ show_nat (i + 1) @ ''](''
                                                @ img @ '')'')
                               (zip [0..<length images] images))
                  @ nl
             else []);
          body = (case str_or (ci_processed_content contentItem) (Some (ci_content contentItem)) of
                    None \<Rightarrow> ''No content available''
                  | Some s \<Rightarrow> if s = [] then ''No content available'' else s)
      in join nl
           [''---'',
            ''title: '' @ title,
            ''url: '' @ ci_url contentItem,
            ''extracted_at: '' @ timestamp,
            ''content_type: '' @ contentType,
            ''index: '' @ show_nat index,
            ''images: '' @ json_stringify P images,
            ''---'',
            '''',
            ''# '' @ title,
            '''',
            ''**Source URL:** ['' @ ci_url contentItem @ '']('' @ ci_url contentItem @ '')'',
            ''**Extracted:** '' @ timestamp,
            ''**Content Type:** '' @ contentType,
            (if length images > 0 then ''**Images Found:** '' @ show_nat (length images) else []),
            imageSection,
            ''## Content'',
            '''',
            body,
            '''',
            ''---'',
            '''',
            ''*Content extracted and processed by Tedix Brand Pipeline*'',
            ''*Stored with multitenancy isolation in R2*'',
            ''''])"

text \<open>
  One upload, in two parts. The first part runs to the existence check: it makes the key
  and, without \<open>overwrite\<close>, looks for an object at it. In the second part an object
  that was found is reported as a success with its stored size and nothing is written;
  otherwise the page is formatted and put. A \<open>put\<close> that throws is caught and reported
  as a failure with an empty key.
\<close>

definition upload_check ::
  "platform \<Rightarrow> nat \<Rightarrow> r2_bucket \<Rightarrow> string \<Rightarrow> content_item \<Rightarrow> nat \<Rightarrow> upload_options option
     \<Rightarrow> string \<times> r2_object option" where
  "upload_check P t bucket brandPrefix contentItem index options =
     (let r2Key = generateR2Key P t brandPrefix (ci_url contentItem) index;
          existing = (if \<not> options_overwrite options then r2_head bucket r2Key else None)
      in (r2Key, existing))"

definition upload_write ::
  "platform \<Rightarrow> nat \<Rightarrow> r2_bucket \<Rightarrow> string \<Rightarrow> content_item \<Rightarrow> nat
     \<Rightarrow> string \<times> r2_object option \<Rightarrow> upload_result \<times> r2_bucket" where
  "upload_write P t bucket brandPrefix contentItem index checked =
     (let r2Key = fst checked; existing = snd checked
      in case existing of
           Some obj \<Rightarrow>
             (\<lparr>r_url = ci_url contentItem, r_r2Key = r2Key, r_success = True,
               r_size = Some (o_size obj), r_error = None\<rparr>, bucket)
         | None \<Rightarrow>
             (let markdownContent = formatAsMarkdown P t contentItem index;
                  contentBuffer = markdownContent;
                  metadata =
                    [(''original-url'', ci_url contentItem),
                     (''content-type'', str_or_default (ci_contentType contentItem) ''page''),
                     (''uploaded-at'', toISOString P t),
                     (''brand-prefix'', brandPrefix)]
                    @ (if ci_title contentItem \<noteq> [] then [(''title'', ci_title contentItem)]
                       else [])
              in case put_error P r2Key of
                   Some e \<Rightarrow>
                     (\<lparr>r_url = ci_url contentItem, r_r2Key = [], r_success = False,
                       r_size = None, r_error = Some (message_or e ''Upload failed'')\<rparr>, bucket)
                 | None \<Rightarrow>
                     (\<lparr>r_url = ci_url contentItem, r_r2Key = r2Key, r_success = True,
                       r_size = Some (length contentBuffer), r_error = None\<rparr>,
                      r2_put bucket r2Key
                        \<lparr>o_body = contentBuffer, o_size = length contentBuffer,
                         o_customMetadata = metadata\<rparr>)))"

text \<open>\<open>uploadSingleContent\<close>, called on its own: the check sees the bucket it writes to.\<close>

definition uploadSingleContent ::
  "platform \<Rightarrow> nat \<Rightarrow> r2_bucket \<Rightarrow> string \<Rightarrow> content_item \<Rightarrow> nat \<Rightarrow> upload_options option
     \<Rightarrow> upload_result \<times> r2_bucket" where
  "uploadSingleContent P t bucket brandPrefix contentItem index options =
     upload_write P t bucket brandPrefix contentItem index
       (upload_check P t bucket brandPrefix contentItem index options)"

text \<open>
  The uploads of one batch, item \<open>i + batchIndex\<close> at the time \<open>clock (i + batchIndex)\<close>.
  The source starts them together and joins them with \<open>allSettled\<close>: each upload runs to
  its existence check before any of them goes on, so every check sees the bucket as it
  was when the batch started (\<open>seen\<close>); the second parts then run in index order.
\<close>

fun upload_batch_from ::
  "platform \<Rightarrow> (nat \<Rightarrow> nat) \<Rightarrow> string \<Rightarrow> upload_options option \<Rightarrow> r2_bucket \<Rightarrow> nat
     \<Rightarrow> content_item list \<Rightarrow> r2_bucket \<Rightarrow> upload_result list \<times> r2_bucket" where
  "upload_batch_from P clock brandPrefix options seen globalIndex [] bucket = ([], bucket)"
| "upload_batch_from P clock brandPrefix options seen globalIndex (contentItem # batch) bucket =
     (let (result, bucket1) =
            upload_write P (clock globalIndex) bucket brandPrefix contentItem globalIndex
              (upload_check P (clock globalIndex) seen brandPrefix contentItem globalIndex
                 options);
          (results, bucket2) =
            upload_batch_from P clock brandPrefix options seen (Suc globalIndex) batch bucket1
      in (result # results, bucket2))"

definition upload_batch ::
  "platform \<Rightarrow> (nat \<Rightarrow> nat) \<Rightarrow> string \<Rightarrow> upload_options option \<Rightarrow> nat \<Rightarrow> content_item list
     \<Rightarrow> r2_bucket \<Rightarrow> upload_result list \<times> r2_bucket" where
  "upload_batch P clock brandPrefix options globalIndex batch bucket =
     upload_batch_from P clock brandPrefix options bucket globalIndex batch bucket"

text \<open>The body of \<open>batchResults.forEach\<close>: one entry of \<open>results\<close> per item.\<close>

definition record_result :: "content_item \<times> upload_result \<Rightarrow> upload_response \<Rightarrow> upload_response" where
  "record_result ir response =
     (let contentItem = fst ir; result = snd ir in
      if r_success result then
        response\<lparr>rs_results := rs_results response @ [result],
                 rs_summary := (rs_summary response)
                   \<lparr>successful := successful (rs_summary response) + 1,
                    totalSize := totalSize (rs_summary response)
                                 + (case r_size result of None \<Rightarrow> 0 | Some n \<Rightarrow> n)\<rparr>\<rparr>
      else
        response\<lparr>rs_results := rs_results response
                   @ [\<lparr>r_url = ci_url contentItem, r_r2Key = [], r_success = False,
                       r_size = None,
                       r_error = Some (str_or_default (r_error result) ''Unknown error'')\<rparr>],
                 rs_summary := (rs_summary response)
                   \<lparr>failed := failed (rs_summary response) + 1\<rparr>\<rparr>)"

definition BATCH_SIZE :: nat where
  "BATCH_SIZE = 5"

function upload_loop ::
  "platform \<Rightarrow> (nat \<Rightarrow> nat) \<Rightarrow> string \<Rightarrow> upload_options option \<Rightarrow> content_item list \<Rightarrow> nat
     \<Rightarrow> upload_response \<times> r2_bucket \<Rightarrow> upload_response \<times> r2_bucket" where
  "upload_loop P clock brandPrefix options content i (response, bucket) =
     (if i < length content then
        (let batch = take BATCH_SIZE (drop i content);
             (batchResults, bucket1) = upload_batch P clock brandPrefix options i batch bucket;
             response1 = fold record_result (zip batch batchResults) response
         in upload_loop P clock brandPrefix options content (i + BATCH_SIZE) (response1, bucket1))
      else (response, bucket))"
  by pat_completeness auto
termination
  by (relation "measure (\<lambda>(P, clock, brandPrefix, options, content, i, s). length content - i)")
     (auto simp: BATCH_SIZE_def)

declare upload_loop.simps [simp del]

text \<open>
  \<open>uploadBrandContent\<close>. The response is built first, and \<open>request.content.length\<close>
  is read while building it: without a content list that read throws.
\<close>

definition uploadBrandContent ::
  "platform \<Rightarrow> (nat \<Rightarrow> nat) \<Rightarrow> r2_bucket \<Rightarrow> upload_request
     \<Rightarrow> exn + upload_response \<times> r2_bucket" where
  "uploadBrandContent P clock bucket request =
     (case rq_content request of
        None \<Rightarrow> Inl (TypeError ''Cannot read properties of undefined (reading length)'')
      | Some content \<Rightarrow>
          (let response =
                 \<lparr>rs_success = False, rs_brandId = rq_brandId request,
                  rs_domain = rq_domain request, rs_results = [],
                  rs_summary = \<lparr>total = length content, successful = 0, failed = 0,
                                totalSize = 0\<rparr>\<rparr>
           in if length content = 0 then Inr (response, bucket)
              else
                (let brandPrefix = getBrandR2Prefix (rq_domain request);
                     (response1, bucket1) =
                       upload_loop P clock brandPrefix (rq_options request) content 0
                         (response, bucket)
                 in Inr (response1\<lparr>rs_success := successful (rs_summary response1) > 0\<rparr>,
                         bucket1))))"

text \<open>
  Listing and deleting a brand's content. Beside the bucket, the deleting functions
  return the groups of deletes they started, each group joined before the next starts.
  An exception of \<open>list\<close> is not caught by these functions.
\<close>

definition listBrandContent ::
  "platform \<Rightarrow> r2_bucket \<Rightarrow> string \<Rightarrow> string option
     \<Rightarrow> exn + (string \<times> r2_object) list" where
  "listBrandContent P bucket domain pfx =
     (let brandPrefix = getBrandR2Prefix domain;
          listPrefix = (if falsy_str pfx then brandPrefix @ ''/''
                        else brandPrefix @ ''/'' @ the pfx)
      in r2_list P bucket listPrefix)"

text \<open>Best-effort deletes of one group: a delete that fails leaves its object.\<close>

definition delete_group :: "platform \<Rightarrow> string list \<Rightarrow> r2_bucket \<Rightarrow> r2_bucket" where
  "delete_group P keys bucket =
     fold (\<lambda>key b. if delete_error P key then b else r2_delete b key) keys bucket"

function delete_loop ::
  "platform \<Rightarrow> string list \<Rightarrow> nat \<Rightarrow> r2_bucket \<times> string list list
     \<Rightarrow> r2_bucket \<times> string list list" where
  "delete_loop P keys i (bucket, groups) =
     (if i < length keys then
        (let batch = take 100 (drop i keys)
         in delete_loop P keys (i + 100) (delete_group P batch bucket, groups @ [batch]))
      else (bucket, groups))"
  by pat_completeness auto
termination
  by (relation "measure (\<lambda>(P, keys, i, s). length keys - i)") auto

declare delete_loop.simps [simp del]

definition deleteBrandContent ::
  "platform \<Rightarrow> r2_bucket \<Rightarrow> string \<Rightarrow> string option
     \<Rightarrow> exn + r2_bucket \<times> string list list" where
  "deleteBrandContent P bucket domain pfx =
     (case listBrandContent P bucket domain pfx of
        Inl e \<Rightarrow> Inl e
      | Inr objects \<Rightarrow>
          if length objects = 0 then Inr (bucket, [])
          else Inr (delete_loop P (map fst objects) 0 (bucket, [])))"

section \<open>Webhook signature verification\<close>





record verification =
  isValid :: bool
  body :: string


section \<open>The database\<close>

text \<open>
  The three tables the pipeline reads and writes, as lists of rows, and the bucket.
  \<open>url_status_writes\<close> is a history variable: every write the code issues to
  \<open>brand_urls\<close> appends the status value it writes, whether the write is applied or
  fails.
\<close>

record brand_row =
  b_id :: string
  b_owner_id :: "string option"
  b_primary_domain :: string
  b_name :: jv
  b_description :: jv
  b_logo_url :: jv
  b_metadata :: js_object
  b_crawl_status :: string
  b_is_public :: bool
  b_created_at :: nat
  b_updated_at :: string

record mapping_row =
  m_id :: string
  m_brand_id :: string
  m_domain :: string
  m_status :: string
  m_progress_percentage :: nat
  m_current_step :: string
  m_error_message :: "string option"
  m_started_at :: "string option"
  m_completed_at :: "string option"
  m_updated_at :: "string option"
  m_urls_discovered :: nat
  m_company_info_count :: nat
  m_blog_count :: nat
  m_docs_count :: nat
  m_ecommerce_count :: nat
  m_total_urls :: nat

record url_row =
  u_brand_id :: string
  u_mapping_id :: string
  u_url :: string
  u_title :: "string option"
  u_description :: "string option"
  u_category :: string
  u_priority :: nat
  u_status :: string
  u_scraped_at :: "string option"
  u_image_count :: nat
  u_content_size :: nat
  u_uploading_started_at :: "string option"
  u_uploaded_at :: "string option"
  u_r2_key :: "string option"
  u_error_message :: "string option"

record world =
  brands :: "brand_row list"
  mappings :: "mapping_row list"
  brand_urls :: "url_row list"
  r2 :: r2_bucket
  url_status_writes :: "string list"

text \<open>
  \<open>from("brand_urls").update({status, ...}).eq(...)\<close>: every update of this table sets
  the status. The code awaits the update and does not look at its result, so an update
  that fails leaves the rows as they were and the code goes on.
\<close>

definition update_brand_urls ::
  "platform \<Rightarrow> (url_row \<Rightarrow> bool) \<Rightarrow> string \<Rightarrow> (url_row \<Rightarrow> url_row) \<Rightarrow> world \<Rightarrow> world" where
  "update_brand_urls P matches status others w =
     (let w1 = w\<lparr>url_status_writes := url_status_writes w @ [status]\<rparr>
      in if db_update_error P ''brand_urls'' status then w1
         else w1\<lparr>brand_urls :=
                   map (\<lambda>r. if matches r then (others r)\<lparr>u_status := status\<rparr> else r)
                     (brand_urls w)\<rparr>)"

text \<open>
  \<open>from("playground_url_mappings").update({status, ...}).eq("id", mappingId)\<close>: every
  update of this table sets the status too, and its result is not looked at either.
\<close>

definition update_mapping ::
  "platform \<Rightarrow> string \<Rightarrow> string \<Rightarrow> (mapping_row \<Rightarrow> mapping_row) \<Rightarrow> world \<Rightarrow> world" where
  "update_mapping P mappingId status others w =
     (if db_update_error P ''playground_url_mappings'' status then w
      else w\<lparr>mappings :=
               map (\<lambda>m. if m_id m = mappingId then (others m)\<lparr>m_status := status\<rparr> else m)
                 (mappings w)\<rparr>)"

text \<open>The payload of an update of a brand after its extraction, and its application.\<close>

record brand_update =
  bu_name :: jv
  bu_description :: jv
  bu_logo_url :: jv
  bu_metadata :: js_object
  bu_crawl_status :: string
  bu_updated_at :: string

definition apply_brand_update :: "brand_update \<Rightarrow> brand_row \<Rightarrow> brand_row" where
  "apply_brand_update u b =
     b\<lparr>b_name := bu_name u, b_description := bu_description u, b_logo_url := bu_logo_url u,
       b_metadata := bu_metadata u, b_crawl_status := bu_crawl_status u,
       b_updated_at := bu_updated_at u\<rparr>"

definition update_brands :: "(brand_row \<Rightarrow> bool) \<Rightarrow> (brand_row \<Rightarrow> brand_row) \<Rightarrow> world \<Rightarrow> world" where
  "update_brands matches change w =
     w\<lparr>brands := map (\<lambda>b. if matches b then change b else b) (brands w)\<rparr>"

text \<open>
  \<open>domain.split(".")[0].charAt(0).toUpperCase() + domain.split(".")[0].slice(1)\<close>,
  the name made from a domain.
\<close>

definition capitalized_label :: "string \<Rightarrow> string" where
  "capitalized_label domain =
     (let label = hd (split_on CHR ''.'' domain)
      in toUpperCase (take 1 label) @ drop 1 label)"

section \<open>Webhook handler\<close>

record event_metadata =
  em_brandId :: "string option"
  em_domain :: "string option"
  em_mappingId :: "string option"
  em_jobType :: "string option"

text \<open>
  An element of \<open>event.data\<close>, with the fields the handlers read: of a page its
  \<open>metadata.sourceURL\<close>, \<open>metadata.url\<close>, \<open>metadata.title\<close>, \<open>markdown\<close> and
  \<open>images\<close>, of an extraction its \<open>data\<close>.
\<close>

record data_item =
  d_sourceURL :: "string option"
  d_url :: "string option"
  d_title :: "string option"
  d_markdown :: "string option"
  d_images :: "string list option"
  d_data :: "js_object option"

record webhook_event =
  ev_success :: bool
  ev_type :: string
  ev_id :: string
  ev_data :: "data_item list option"
  ev_metadata :: event_metadata
  ev_error :: "string option"

definition handleJobStarted :: "platform \<Rightarrow> webhook_event \<Rightarrow> world \<Rightarrow> nat \<times> world" where
  "handleJobStarted P event w =
     (let mappingId = em_mappingId (ev_metadata event) in
      if \<not> falsy_str mappingId then
        (200, update_mapping P (the mappingId) ''scraping_content''
                (\<lambda>m. m\<lparr>m_progress_percentage := 50,
                        m_current_step := ''Firecrawl job started ('' @ ev_id event @ '')''\<rparr>) w)
      else (200, w))"

text \<open>\<open>categorizeContentType\<close> of the handler's module.\<close>

definition categorizeContentType :: "platform \<Rightarrow> string \<Rightarrow> string" where
  "categorizeContentType P url =
     (case url_parse P url of
        None \<Rightarrow> ''pages''
      | Some (hostname, pathname) \<Rightarrow>
          (let path = toLowerCase pathname in
           if js_includes path ''/blog'' \<or> js_includes path ''/news'' then ''blog''
           else if js_includes path ''/docs'' \<or> js_includes path ''/documentation'' then ''docs''
           else if js_includes path ''/about'' \<or> js_includes path ''/company'' then ''about''
           else if js_includes path ''/product'' \<or> js_includes path ''/shop'' then ''product''
           else if path = ''/'' \<or> path = ''/home'' then ''landing''
           else ''other''))"

text \<open>
  \<open>uploadPageToR2\<close>: the row is marked \<open>uploading\<close>, the page is uploaded with
  \<open>overwrite\<close>, and the row is marked \<open>uploaded\<close> or \<open>failed\<close>. An exception of
  the upload is caught and leaves the row as it is. The URL is the one
  \<open>handlePageScraped\<close> has found, which is not empty.
\<close>

definition uploadPageToR2 ::
  "platform \<Rightarrow> nat \<Rightarrow> data_item \<Rightarrow> string \<Rightarrow> string \<Rightarrow> string \<Rightarrow> world \<Rightarrow> world" where
  "uploadPageToR2 P now page url brandId domain w =
     (let w1 = update_brand_urls P (\<lambda>r. u_brand_id r = brandId \<and> u_url r = url) ''uploading''
                 (\<lambda>r. r\<lparr>u_uploading_started_at := Some (toISOString P now)\<rparr>) w;
          request =
            \<lparr>rq_brandId = brandId, rq_domain = domain,
             rq_content = Some
               [\<lparr>ci_url = url,
                 ci_title = str_or_default (d_title page) ''Untitled'',
                 ci_content = str_or_default (d_markdown page) [],
                 ci_processed_content =
                   Some (str_or_default (map_option (substring0 5000) (d_markdown page)) []),
                 ci_contentType = Some (categorizeContentType P url),
                 ci_images = Some (case d_images page of None \<Rightarrow> [] | Some imgs \<Rightarrow> imgs)\<rparr>],
             rq_options = Some \<lparr>opt_overwrite = Some True, opt_generateMetadata = Some True,
                                opt_skipSupabaseStorage = None\<rparr>\<rparr>
      in case uploadBrandContent P (\<lambda>i. now) (r2 w1) request of
           Inl e \<Rightarrow> w1
         | Inr (uploadResult, bucket1) \<Rightarrow>
             (let w2 = w1\<lparr>r2 := bucket1\<rparr> in
              case rs_results uploadResult of
                first # rest \<Rightarrow>
                  if rs_success uploadResult \<and> r_success first then
                    update_brand_urls P (\<lambda>r. u_brand_id r = brandId \<and> u_url r = url) ''uploaded''
                      (\<lambda>r. r\<lparr>u_uploaded_at := Some (toISOString P now),
                              u_r2_key := Some (r_r2Key first),
                              u_content_size := (case r_size first of None \<Rightarrow> 0 | Some n \<Rightarrow> n)\<rparr>)
                      w2
                  else
                    update_brand_urls P (\<lambda>r. u_brand_id r = brandId \<and> u_url r = url) ''failed''
                      (\<lambda>r. r\<lparr>u_error_message :=
                                Some (str_or_default (r_error first) ''R2 upload failed'')\<rparr>)
                      w2
              | [] \<Rightarrow>
                  update_brand_urls P (\<lambda>r. u_brand_id r = brandId \<and> u_url r = url) ''failed''
                    (\<lambda>r. r\<lparr>u_error_message := Some ''R2 upload failed''\<rparr>) w2))"

definition handlePageScraped :: "platform \<Rightarrow> nat \<Rightarrow> webhook_event \<Rightarrow> world \<Rightarrow> nat \<times> world" where
  "handlePageScraped P now event w =
     (let brandId = str_or_default (em_brandId (ev_metadata event)) [] in
      case ev_data event of
        None \<Rightarrow> (200, w)
      | Some [] \<Rightarrow> (200, w)
      | Some (page # rest) \<Rightarrow>
          (let url = str_or_default (str_or (d_sourceURL page) (d_url page)) [] in
           if url = [] then (200, w)
           else
             (let w1 = update_brand_urls P (\<lambda>r. u_brand_id r = brandId \<and> u_url r = url) ''scraped''
                         (\<lambda>r. r\<lparr>u_scraped_at := Some (toISOString P now),
                                 u_image_count :=
                                   length (case d_images page of None \<Rightarrow> [] | Some imgs \<Rightarrow> imgs),
                                 u_content_size :=
                                   (case d_markdown page of None \<Rightarrow> 0
                                    | Some md \<Rightarrow> utf16_length md)\<rparr>)
                         w;
                  w2 = uploadPageToR2 P now page url brandId
                         (str_or_default (em_domain (ev_metadata event)) []) w1
              in (200, w2))))"

text \<open>The check mark of the completion message, in UTF-8.\<close>

definition check_mark :: string where
  "check_mark = [CHR 0xE2, CHR 0x9C, CHR 0x85]"

definition handleJobCompleted :: "platform \<Rightarrow> nat \<Rightarrow> webhook_event \<Rightarrow> world \<Rightarrow> nat \<times> world" where
  "handleJobCompleted P now event w =
     (let brandId = str_or_default (em_brandId (ev_metadata event)) [];
          mappingId = em_mappingId (ev_metadata event);
          urlStats = map u_status (filter (\<lambda>r. u_brand_id r = brandId) (brand_urls w));
          uploaded = length (filter (\<lambda>s. s = ''uploaded'') urlStats);
          failedCount = length (filter (\<lambda>s. s = ''failed'') urlStats)
      in if \<not> falsy_str mappingId then
           (200, update_mapping P (the mappingId) ''completed''
                   (\<lambda>m. m\<lparr>m_progress_percentage := 100,
                           m_current_step := check_mark @ '' '' @ show_nat uploaded
                              @ '' pages uploaded to AI Search! ('' @ show_nat failedCount
                              @ '' failed)'',
                           m_completed_at := Some (toISOString P now)\<rparr>) w)
         else (200, w))"

text \<open>The object the handler passes to \<open>update\<close> when an extraction has completed.\<close>

definition webhook_extract_update :: "platform \<Rightarrow> nat \<Rightarrow> js_object \<Rightarrow> string \<Rightarrow> brand_update" where
  "webhook_extract_update P now extractedData domain =
     (let brandName = js_or (extractedData ''company_name'') (JStr (capitalized_label domain))
      in \<lparr>bu_name = brandName,
          bu_description =
            js_or (extractedData ''description'')
              (JStr (''Official website and services from '' @ to_str brandName @ ''.'')),
          bu_logo_url =
            js_or (extractedData ''logo_url'') (JStr (''https://logo.clearbit.com/'' @ domain)),
          bu_metadata =
            extractedData
              (''industry'' \<mapsto> js_or (extractedData ''industry'') (JStr ''Various''),
               ''worker_processed'' \<mapsto> JBool True,
               ''playground_scan'' \<mapsto> JBool True,
               ''extractCompletedAt'' \<mapsto> JStr (toISOString P now)),
          bu_crawl_status = ''processing'',
          bu_updated_at = toISOString P now\<rparr>)"

definition handleExtractCompleted :: "platform \<Rightarrow> nat \<Rightarrow> webhook_event \<Rightarrow> world \<Rightarrow> nat \<times> world" where
  "handleExtractCompleted P now event w =
     (let domain = str_or_default (em_domain (ev_metadata event)) [];
          jobType = em_jobType (ev_metadata event)
      in case ev_data event of
           Some (first # rest) \<Rightarrow>
             if jobType = Some ''brandExtraction'' then
               (let extractedData = object_or_empty (d_data first)
                in if db_update_error P ''brands'' ''processing'' then (200, w)
                   else
                     (200, update_brands
                             (\<lambda>b. b_primary_domain b = domain \<and> b_is_public b
                                    \<and> b_owner_id b = None)
                             (apply_brand_update
                                (webhook_extract_update P now extractedData domain))
                             w))
             else (200, w)
         | _ \<Rightarrow> (200, w))"

definition handleJobFailed :: "platform \<Rightarrow> nat \<Rightarrow> webhook_event \<Rightarrow> world \<Rightarrow> nat \<times> world" where
  "handleJobFailed P now event w =
     (let brandId = str_or_default (em_brandId (ev_metadata event)) [];
          mappingId = em_mappingId (ev_metadata event);
          w1 = (if \<not> falsy_str mappingId then
                  update_mapping P (the mappingId) ''failed''
                    (\<lambda>m. m\<lparr>m_error_message :=
                              Some (str_or_default (ev_error event) ''Firecrawl job failed''),
                            m_completed_at := Some (toISOString P now)\<rparr>) w
                else w)
      in (200, update_brand_urls P
                 (\<lambda>r. u_brand_id r = brandId \<and> u_status r \<in> set [''discovered'', ''scraping''])
                 ''failed''
                 (\<lambda>r. r\<lparr>u_error_message := Some (str_or_default (ev_error event) ''Job failed'')\<rparr>)
                 w1))"

text \<open>
  The entry point: the response status and the world after the event. No handler of
  this model throws, so the status 500 of the \<open>catch\<close> is not returned.
\<close>

definition handleFirecrawlWebhook :: "platform \<Rightarrow> nat \<Rightarrow> webhook_event \<Rightarrow> world \<Rightarrow> nat \<times> world" where
  "handleFirecrawlWebhook P now event w =
     (if falsy_str (em_brandId (ev_metadata event)) \<or> falsy_str (em_domain (ev_metadata event))
      then (200, w)
      else if ev_type event = ''crawl.started'' \<or> ev_type event = ''batch_scrape.started''
        then handleJobStarted P event w
      else if ev_type event = ''crawl.page'' \<or> ev_type event = ''batch_scrape.page''
        then handlePageScraped P now event w
      else if ev_type event = ''crawl.completed'' \<or> ev_type event = ''batch_scrape.completed''
        then handleJobCompleted P now event w
      else if ev_type event = ''extract.completed''
        then handleExtractCompleted P now event w
      else if ev_type event = ''crawl.failed'' \<or> ev_type event = ''batch_scrape.failed''
              \<or> ev_type event = ''extract.failed''
        then handleJobFailed P now event w
      else (200, w))"

section \<open>Categorizing and selecting URLs\<close>

record link =
  l_url :: string
  l_title :: "string option"
  l_description :: "string option"

record scored_link = link +
  l_priority :: nat

record categorized_urls =
  cat_company :: "scored_link list"
  cat_blog :: "scored_link list"
  cat_docs :: "scored_link list"
  cat_ecommerce :: "scored_link list"
  cat_other :: "scored_link list"

record category_patterns =
  subdomains :: "string list"
  paths :: "string list"
  titles :: "string list"

definition patterns :: "(string \<times> category_patterns) list" where
  "patterns =
     [(''company'',
       \<lparr>subdomains = [''www'', ''main'', ''corporate''],
        paths = [''about'', ''company'', ''team'', ''careers'', ''contact'', ''investors'',
                 ''leadership'', ''mission'', ''values''],
        titles = [''about us'', ''our team'', ''careers'', ''contact us'', ''leadership'',
                  ''company'']\<rparr>),
      (''blog'',
       \<lparr>subdomains = [''blog'', ''news'', ''media'', ''press'', ''stories''],
        paths = [''blog'', ''news'', ''articles'', ''updates'', ''press'', ''media'', ''stories'',
                 ''insights'', ''newsroom''],
        titles = [''blog'', ''news'', ''article'', ''press'', ''update'', ''story'']\<rparr>),
      (''docs'',
       \<lparr>subdomains = [''docs'', ''help'', ''support'', ''api'', ''developer'', ''dev''],
        paths = [''docs'', ''documentation'', ''help'', ''support'', ''guide'', ''api'',
                 ''reference'', ''tutorial'', ''manual''],
        titles = [''documentation'', ''help'', ''guide'', ''api'', ''reference'', ''tutorial'']\<rparr>),
      (''ecommerce'',
       \<lparr>subdomains = [''shop'', ''store'', ''buy'', ''checkout'', ''cart''],
        paths = [''shop'', ''store'', ''buy'', ''cart'', ''checkout'', ''products'', ''catalog'',
                 ''marketplace'', ''order''],
        titles = [''shop'', ''store'', ''buy'', ''product'', ''catalog'', ''marketplace'']\<rparr>)]"

definition category_score ::
  "string \<Rightarrow> category_patterns \<Rightarrow> string \<Rightarrow> string \<Rightarrow> string \<Rightarrow> nat" where
  "category_score categoryName categoryPatterns hostname pathname title =
     (if list_ex (\<lambda>subdomain. startsWith hostname (subdomain @ ''.'')
                              \<or> js_includes hostname (subdomain @ ''.''))
           (subdomains categoryPatterns) then 100 else 0)
     + (if list_ex (\<lambda>path. js_includes pathname (''/'' @ path) \<or> js_includes pathname path)
             (paths categoryPatterns) then 50 else 0)
     + (if list_ex (\<lambda>keyword. js_includes title keyword) (titles categoryPatterns)
        then 25 else 0)
     + (if categoryName = ''company'' \<and> (pathname = ''/'' \<or> pathname = ''/home'')
        then 30 else 0)"

text \<open>The category of one link and its priority; a URL that does not parse is \<open>other\<close>.\<close>

definition categorize_link :: "platform \<Rightarrow> link \<Rightarrow> string \<times> nat" where
  "categorize_link P lnk =
     (case url_parse P (l_url lnk) of
        None \<Rightarrow> (''other'', 0)
      | Some (host, path) \<Rightarrow>
          (let hostname = toLowerCase host;
               pathname = toLowerCase path;
               title = toLowerCase (str_or_default (l_title lnk) [])
           in fold (\<lambda>(categoryName, categoryPatterns) (category, priority).
                      let categoryScore =
                            category_score categoryName categoryPatterns hostname pathname title
                      in if categoryScore > priority then (categoryName, categoryScore)
                         else (category, priority))
                patterns (''other'', 0)))"

definition with_priority :: "link \<Rightarrow> nat \<Rightarrow> scored_link" where
  "with_priority lnk p =
     \<lparr>l_url = l_url lnk, l_title = l_title lnk, l_description = l_description lnk,
      l_priority = p\<rparr>"

definition push_link :: "string \<Rightarrow> scored_link \<Rightarrow> categorized_urls \<Rightarrow> categorized_urls" where
  "push_link category sl categories =
     (if category = ''company'' then categories\<lparr>cat_company := cat_company categories @ [sl]\<rparr>
      else if category = ''blog'' then categories\<lparr>cat_blog := cat_blog categories @ [sl]\<rparr>
      else if category = ''docs'' then categories\<lparr>cat_docs := cat_docs categories @ [sl]\<rparr>
      else if category = ''ecommerce''
        then categories\<lparr>cat_ecommerce := cat_ecommerce categories @ [sl]\<rparr>
      else categories\<lparr>cat_other := cat_other categories @ [sl]\<rparr>)"

definition categorizeUrls :: "platform \<Rightarrow> link list \<Rightarrow> categorized_urls" where
  "categorizeUrls P links =
     fold (\<lambda>lnk categories.
             let (category, priority) = categorize_link P lnk
             in push_link category (with_priority lnk priority) categories)
       links
       \<lparr>cat_company = [], cat_blog = [], cat_docs = [], cat_ecommerce = [], cat_other = []\<rparr>"

text \<open>
  \<open>selectTopUrls\<close>: the sort with \<open>b.priority - a.priority\<close> is a stable sort by
  descending priority.
\<close>

definition selectTopUrls :: "categorized_urls \<Rightarrow> nat \<Rightarrow> scored_link list" where
  "selectTopUrls categorized maxPerCategory =
     concat (map (\<lambda>urls. take maxPerCategory (sort_key (\<lambda>a. - int (l_priority a)) urls))
               [cat_company categorized, cat_ecommerce categorized, cat_docs categorized,
                cat_blog categorized, cat_other categorized])"

section \<open>Starting the jobs\<close>

text \<open>
  The scraping service, by the outcomes of its calls: each either throws or returns.
  \<open>startExtract\<close> returns \<open>success\<close> and an \<open>id\<close>, \<open>map\<close> its \<open>links\<close>,
  \<open>startBatchScrape\<close> an \<open>id\<close> and an \<open>error\<close>, \<open>getExtractStatus\<close> a
  \<open>status\<close> and the \<open>data\<close>.
\<close>

record firecrawl =
  fc_startExtract :: "exn + bool \<times> string option"
  fc_map :: "exn + link list option"
  fc_startBatchScrape :: "exn + string option \<times> string option"
  fc_getExtractStatus :: "jv \<Rightarrow> exn + string \<times> js_object option"

text \<open>
  The outcomes of the database calls whose result the code looks at, and the identifiers
  the database gives to new rows: the update of the brand reports an error or returns
  no row (\<open>brand_update_error\<close>), the insert of the brand reports an error, which the
  code throws (\<open>brand_insert_error\<close>), or returns neither an error nor a row
  (\<open>brand_insert_empty\<close>), the upsert of the progress row or of the URL rows reports
  an error.
\<close>

record supabase_faults =
  brand_update_error :: bool
  brand_insert_error :: "exn option"
  brand_insert_empty :: bool
  mapping_upsert_error :: bool
  url_upsert_error :: bool
  new_brand_id :: string
  new_mapping_id :: string

definition startAsyncBrandExtraction :: "firecrawl \<Rightarrow> string \<Rightarrow> string option" where
  "startAsyncBrandExtraction F domain =
     (case fc_startExtract F of
        Inl e \<Rightarrow> None
      | Inr (success, jobId) \<Rightarrow> if \<not> success then None else jobId)"

record async_job_config =
  cfg_brandId :: string
  cfg_domain :: string
  cfg_mappingId :: string
  cfg_webhookUrl :: string

record async_result =
  ar_mapJobId :: "string option"
  ar_batchJobId :: "string option"
  ar_error :: "string option"

text \<open>The upsert of the discovered URLs, on conflict of \<open>(brand_id, url)\<close>.\<close>

definition upsert_url :: "url_row \<Rightarrow> url_row list \<Rightarrow> url_row list" where
  "upsert_url rec rows =
     (if list_ex (\<lambda>r. u_brand_id r = u_brand_id rec \<and> u_url r = u_url rec) rows
      then map (\<lambda>r. if u_brand_id r = u_brand_id rec \<and> u_url r = u_url rec
                     then r\<lparr>u_mapping_id := u_mapping_id rec, u_title := u_title rec,
                            u_description := u_description rec, u_category := u_category rec,
                            u_priority := u_priority rec, u_status := u_status rec\<rparr>
                     else r) rows
      else rows @ [rec])"

definition url_records :: "async_job_config \<Rightarrow> string \<Rightarrow> scored_link list \<Rightarrow> url_row list" where
  "url_records config category urls =
     map (\<lambda>lnk. \<lparr>u_brand_id = cfg_brandId config, u_mapping_id = cfg_mappingId config,
                  u_url = l_url lnk,
                  u_title = str_or (l_title lnk) None,
                  u_description = str_or (l_description lnk) None,
                  u_category = category, u_priority = l_priority lnk,
                  u_status = ''discovered'', u_scraped_at = None, u_image_count = 0,
                  u_content_size = 0, u_uploading_started_at = None, u_uploaded_at = None,
                  u_r2_key = None, u_error_message = None\<rparr>) urls"

definition storeDiscoveredUrls ::
  "platform \<Rightarrow> supabase_faults \<Rightarrow> link list \<Rightarrow> async_job_config \<Rightarrow> world \<Rightarrow> world" where
  "storeDiscoveredUrls P D links config w =
     (let categorizedUrls = categorizeUrls P links;
          urlRecords =
            url_records config ''company'' (cat_company categorizedUrls)
            @ url_records config ''blog'' (cat_blog categorizedUrls)
            @ url_records config ''docs'' (cat_docs categorizedUrls)
            @ url_records config ''ecommerce'' (cat_ecommerce categorizedUrls)
            @ url_records config ''other'' (cat_other categorizedUrls);
          w1 = (if length urlRecords > 0 \<and> \<not> url_upsert_error D
                then w\<lparr>brand_urls := fold upsert_url urlRecords (brand_urls w),
                       url_status_writes := url_status_writes w @ [''discovered'']\<rparr>
                else w)
      in update_mapping P (cfg_mappingId config) ''mapping_urls''
           (\<lambda>m. m\<lparr>m_progress_percentage := 40,
                   m_current_step := ''Discovered '' @ show_nat (length links)
                      @ '' URLs, starting async scraping...'',
                   m_urls_discovered := length links,
                   m_company_info_count := length (cat_company categorizedUrls),
                   m_blog_count := length (cat_blog categorizedUrls),
                   m_docs_count := length (cat_docs categorizedUrls),
                   m_ecommerce_count := length (cat_ecommerce categorizedUrls),
                   m_total_urls := length links\<rparr>) w1)"

definition startAsyncBrandPipeline ::
  "platform \<Rightarrow> firecrawl \<Rightarrow> supabase_faults \<Rightarrow> async_job_config \<Rightarrow> world
     \<Rightarrow> async_result \<times> world" where
  "startAsyncBrandPipeline P F D config w =
     (case fc_map F of
        Inl e \<Rightarrow>
          (\<lparr>ar_mapJobId = None, ar_batchJobId = None,
            ar_error = Some (message_or e ''Failed to start async pipeline'')\<rparr>, w)
      | Inr mapLinks \<Rightarrow>
          (case mapLinks of
             None \<Rightarrow>
               (\<lparr>ar_mapJobId = None, ar_batchJobId = None,
                 ar_error = Some ''No URLs discovered during mapping''\<rparr>, w)
           | Some [] \<Rightarrow>
               (\<lparr>ar_mapJobId = None, ar_batchJobId = None,
                 ar_error = Some ''No URLs discovered during mapping''\<rparr>, w)
           | Some (l # ls) \<Rightarrow>
               (let links = l # ls;
                    w1 = storeDiscoveredUrls P D links config w;
                    categorizedUrls = categorizeUrls P links;
                    selectedUrls = selectTopUrls categorizedUrls 8
                in case fc_startBatchScrape F of
                     Inl e \<Rightarrow>
                       (\<lparr>ar_mapJobId = None, ar_batchJobId = None,
                         ar_error = Some (message_or e ''Failed to start async pipeline'')\<rparr>, w1)
                   | Inr (jobId, jobError) \<Rightarrow>
                       if falsy_str jobId then
                         (\<lparr>ar_mapJobId = None, ar_batchJobId = None,
                           ar_error = Some (''BatchScrape failed: ''
                              @ str_or_default jobError ''No job ID returned'')\<rparr>, w1)
                       else
                         (\<lparr>ar_mapJobId = None, ar_batchJobId = jobId, ar_error = None\<rparr>, w1))))"

section \<open>Pipeline orchestrator\<close>

text \<open>
  The response of the orchestrator, without its \<open>scrapingResult\<close> (the placeholder
  name, description, logo and industry, which the brand row carries as well).
\<close>

record discovery_result =
  dr_success :: bool
  dr_brand :: "brand_row option"
  dr_mapping :: "mapping_row option"
  dr_extractJobId :: "string option"
  dr_error :: "string option"
  dr_details :: "string option"

definition failure :: "string \<Rightarrow> discovery_result" where
  "failure msg =
     \<lparr>dr_success = False, dr_brand = None, dr_mapping = None, dr_extractJobId = None,
      dr_error = Some msg, dr_details = None\<rparr>"

text \<open>The response of the \<open>catch\<close> block.\<close>

definition caught :: "exn \<Rightarrow> discovery_result" where
  "caught e =
     (let errorMessage =
            (case e of
               Thrown \<Rightarrow> ''Brand discovery pipeline failed''
             | _ \<Rightarrow>
                 (let m = message_or e [] in
                  if js_includes m ''PGRST116''
                    then ''Database record not found - created new brand instead''
                  else if js_includes m ''extract''
                    then ''Failed to extract brand information from website''
                  else m))
      in \<lparr>dr_success = False, dr_brand = None, dr_mapping = None, dr_extractJobId = None,
          dr_error = Some errorMessage, dr_details = Some (message_or e ''Unknown error'')\<rparr>)"

text \<open>The most recent public brand without owner of a domain.\<close>

definition find_existing_brand :: "string \<Rightarrow> world \<Rightarrow> brand_row option" where
  "find_existing_brand domain w =
     (case sort_key (\<lambda>b. - int (b_created_at b))
             (filter (\<lambda>b. b_primary_domain b = domain \<and> b_is_public b \<and> b_owner_id b = None)
                (brands w)) of
        [] \<Rightarrow> None
      | b # bs \<Rightarrow> Some b)"

definition placeholder_metadata :: "string \<Rightarrow> string \<Rightarrow> js_object" where
  "placeholder_metadata domain extractJobId =
     [''name'' \<mapsto> JStr (capitalized_label domain),
      ''description'' \<mapsto> JStr (''Extracting brand information from '' @ domain @ ''...''),
      ''logo_url'' \<mapsto> JStr (''https://logo.clearbit.com/'' @ domain),
      ''industry'' \<mapsto> JStr ''Analyzing...'',
      ''extractJobId'' \<mapsto> JStr extractJobId,
      ''worker_processed'' \<mapsto> JBool True,
      ''playground_scan'' \<mapsto> JBool True]"

definition placeholder_update :: "platform \<Rightarrow> nat \<Rightarrow> string \<Rightarrow> string \<Rightarrow> brand_update" where
  "placeholder_update P now domain extractJobId =
     \<lparr>bu_name = JStr (capitalized_label domain),
      bu_description = JStr (''Extracting brand information from '' @ domain @ ''...''),
      bu_logo_url = JStr (''https://logo.clearbit.com/'' @ domain),
      bu_metadata = placeholder_metadata domain extractJobId,
      bu_crawl_status = ''extracting'',
      bu_updated_at = toISOString P now\<rparr>"

text \<open>The upsert of the progress row, on conflict of \<open>(brand_id, domain)\<close>.\<close>

definition upsert_mapping ::
  "platform \<Rightarrow> supabase_faults \<Rightarrow> nat \<Rightarrow> string \<Rightarrow> string \<Rightarrow> world \<Rightarrow> mapping_row option \<times> world" where
  "upsert_mapping P D now brandId domain w =
     (let written = (\<lambda>m. m\<lparr>m_status := ''processing'', m_progress_percentage := 30,
                           m_current_step := ''Worker processing - Discovering URLs...'',
                           m_started_at := Some (toISOString P now),
                           m_updated_at := Some (toISOString P now)\<rparr>);
          fresh = \<lparr>m_id = new_mapping_id D, m_brand_id = brandId, m_domain = domain,
                   m_status = [], m_progress_percentage = 0, m_current_step = [],
                   m_error_message = None, m_started_at = None, m_completed_at = None,
                   m_updated_at = None, m_urls_discovered = 0, m_company_info_count = 0,
                   m_blog_count = 0, m_docs_count = 0, m_ecommerce_count = 0,
                   m_total_urls = 0\<rparr>
      in case find (\<lambda>m. m_brand_id m = brandId \<and> m_domain m = domain) (mappings w) of
           Some m \<Rightarrow>
             (Some (written m),
              w\<lparr>mappings := map (\<lambda>m'. if m_brand_id m' = brandId \<and> m_domain m' = domain
                                      then written m' else m') (mappings w)\<rparr>)
         | None \<Rightarrow> (Some (written fresh), w\<lparr>mappings := mappings w @ [written fresh]\<rparr>))"

text \<open>
  Steps 1 to 3 of the source's comments: the extraction job, the brand row, the progress
  row. \<open>Inl\<close> is the response of an early \<open>return\<close> or of the \<open>catch\<close> block.
  An update that fails leaves no brand, and the brand is then inserted; an insert that
  reports an error throws, and an insert that returns no row leads to the early
  \<open>return\<close> after it.
\<close>

definition discovery_setup ::
  "platform \<Rightarrow> firecrawl \<Rightarrow> supabase_faults \<Rightarrow> nat \<Rightarrow> string \<Rightarrow> world
     \<Rightarrow> (discovery_result + string \<times> brand_row \<times> mapping_row option) \<times> world" where
  "discovery_setup P F D now domain w =
     (case startAsyncBrandExtraction F domain of
        None \<Rightarrow> (Inl (failure ''Failed to start brand extraction''), w)
      | Some extractJobId \<Rightarrow>
          if extractJobId = [] then (Inl (failure ''Failed to start brand extraction''), w)
          else
            (let existingBrand = find_existing_brand domain w;
                 updated =
                   (case existingBrand of
                      None \<Rightarrow> (None, w)
                    | Some existing \<Rightarrow>
                        if brand_update_error D then (None, w)
                        else
                          (let b' = apply_brand_update
                                      (placeholder_update P now domain extractJobId) existing
                           in (Some b',
                               update_brands (\<lambda>b. b_id b = b_id existing)
                                 (apply_brand_update
                                    (placeholder_update P now domain extractJobId)) w)));
                 created =
                   (case fst updated of
                      Some b \<Rightarrow> Inr (b, snd updated)
                    | None \<Rightarrow>
                        (case brand_insert_error D of
                           Some e \<Rightarrow> Inl (caught e)
                         | None \<Rightarrow>
                             if brand_insert_empty D
                             then Inl (failure ''Failed to create/update brand record'')
                             else
                               (let newBrand =
                                      apply_brand_update
                                        (placeholder_update P now domain extractJobId)
                                        \<lparr>b_id = new_brand_id D, b_owner_id = None,
                                         b_primary_domain = domain, b_name = JNull,
                                         b_description = JNull, b_logo_url = JNull,
                                         b_metadata = Map.empty, b_crawl_status = [],
                                         b_is_public = True, b_created_at = now,
                                         b_updated_at = []\<rparr>
                                in Inr (newBrand,
                                        (snd updated)\<lparr>brands :=
                                          brands (snd updated) @ [newBrand]\<rparr>))))
             in case created of
                  Inl response \<Rightarrow> (Inl response, snd updated)
                | Inr (brand, w1) \<Rightarrow>
                    if mapping_upsert_error D
                    then (Inl (failure ''Failed to create progress tracking''), w1)
                    else
                      (let (mapping, w2) = upsert_mapping P D now (b_id brand) domain w1
                       in (Inr (extractJobId, brand, mapping), w2))))"

text \<open>
  \<open>processUnifiedBrandDiscovery\<close>: after the setup, step 4 starts the map and
  batch-scrape pipeline when the progress row has an id; \<open>base_url\<close> is \<open>env.URL\<close>.
\<close>

definition processUnifiedBrandDiscovery ::
  "platform \<Rightarrow> firecrawl \<Rightarrow> supabase_faults \<Rightarrow> string \<Rightarrow> nat \<Rightarrow> string \<Rightarrow> world
     \<Rightarrow> discovery_result \<times> world" where
  "processUnifiedBrandDiscovery P F D base_url now domain w =
     (case discovery_setup P F D now domain w of
        (Inl response, w1) \<Rightarrow> (response, w1)
      | (Inr (extractJobId, brand, mapping), w1) \<Rightarrow>
          (let w3 =
                 (case mapping of
                    None \<Rightarrow> w1
                  | Some m \<Rightarrow>
                      if m_id m = [] then w1
                      else
                        (let webhookUrl = base_url @ ''/webhook/firecrawl'';
                             (asyncResult, w2) =
                               startAsyncBrandPipeline P F D
                                 \<lparr>cfg_brandId = b_id brand, cfg_domain = domain,
                                  cfg_mappingId = m_id m, cfg_webhookUrl = webhookUrl\<rparr> w1
                         in case ar_error asyncResult of
                              Some err \<Rightarrow>
                                if err = [] then w2
                                else update_mapping P (m_id m) ''failed''
                                       (\<lambda>r. r\<lparr>m_error_message := Some err\<rparr>) w2
                            | None \<Rightarrow> w2))
           in (\<lparr>dr_success = True, dr_brand = Some brand, dr_mapping = mapping,
                dr_extractJobId = Some extractJobId, dr_error = None, dr_details = None\<rparr>,
               w3)))"

section \<open>Cron reconciler\<close>

text \<open>The object the reconciler passes to \<open>update\<close> when an extraction has completed.\<close>

definition cron_extract_update :: "platform \<Rightarrow> nat \<Rightarrow> js_object \<Rightarrow> string \<Rightarrow> brand_update" where
  "cron_extract_update P now extractedData domain =
     (let brandName = js_or (extractedData ''company_name'') (JStr (capitalized_label domain))
      in \<lparr>bu_name = brandName,
          bu_description =
            js_or (extractedData ''description'')
              (JStr (''Official website and services from '' @ to_str brandName @ ''.'')),
          bu_logo_url =
            js_or (extractedData ''logo_url'') (JStr (''https://logo.clearbit.com/'' @ domain)),
          bu_metadata =
            extractedData
              (''industry'' \<mapsto> js_or (extractedData ''industry'') (JStr ''Technology''),
               ''extractCompletedAt'' \<mapsto> JStr (toISOString P now),
               ''cronProcessed'' \<mapsto> JBool True),
          bu_crawl_status = ''processing'',
          bu_updated_at = toISOString P now\<rparr>)"

text \<open>The body of the loop over the pending brands.\<close>

definition process_pending_brand :: "platform \<Rightarrow> firecrawl \<Rightarrow> nat \<Rightarrow> brand_row \<Rightarrow> world \<Rightarrow> world" where
  "process_pending_brand P F now brand w =
     (let domain = b_primary_domain brand in
      case b_metadata brand ''extractJobId'' of
        None \<Rightarrow> w
      | Some extractJobId \<Rightarrow>
          if \<not> truthy extractJobId then w
          else
            (case fc_getExtractStatus F extractJobId of
               Inl e \<Rightarrow> w
             | Inr (status, statusData) \<Rightarrow>
                 if status = ''completed'' then
                   (let extractedData = object_or_empty statusData
                    in if db_update_error P ''brands'' ''processing'' then w
                       else update_brands (\<lambda>b. b_id b = b_id brand)
                              (apply_brand_update
                                 (cron_extract_update P now extractedData domain)) w)
                 else if status = ''failed'' then
                   (if db_update_error P ''brands'' ''failed'' then w
                    else update_brands (\<lambda>b. b_id b = b_id brand)
                           (\<lambda>b. b\<lparr>b_crawl_status := ''failed'',
                                  b_updated_at := toISOString P now\<rparr>) w)
                 else w))"

definition processPendingExtractJobs :: "platform \<Rightarrow> firecrawl \<Rightarrow> nat \<Rightarrow> world \<Rightarrow> world" where
  "processPendingExtractJobs P F now w =
     (let pendingBrands =
            take 10
              (sort_key b_created_at
                 (filter (\<lambda>b. b_crawl_status b = ''extracting''
                               \<and> b_metadata b ''extractJobId'' \<noteq> None)
                    (brands w)))
      in fold (process_pending_brand P F now) pendingBrands w)"

section \<open>Bucket cleanup\<close>

record cleanup_summary =
  totalBrandFolders :: nat
  deleted :: nat
  kept :: nat
  errors_count :: nat

text \<open>The body of the response; a field the response does not have is \<open>None\<close>.\<close>

record cleanup_response =
  cr_status :: nat
  cr_success :: bool
  cr_message :: "string option"
  cr_brandsKept :: "string list option"
  cr_deletedFolders :: "string list option"
  cr_errors :: "string list option"
  cr_summary :: "cleanup_summary option"
  cr_error :: "string option"
  cr_details :: "string option"

text \<open>
  The brand folders of the listed objects, as the \<open>Set\<close> collects them:
  \<open>add_brand_folder\<close> is the body of the loop over the objects.
\<close>

definition add_brand_folder :: "string \<times> r2_object \<Rightarrow> string list \<Rightarrow> string list" where
  "add_brand_folder obj folders =
     (let pathParts = split_on CHR ''/'' (fst obj)
      in if length pathParts \<ge> 2 \<and> hd pathParts = ''brands''
            \<and> hd (tl pathParts) \<notin> set folders
         then folders @ [hd (tl pathParts)] else folders)"

definition brand_folders :: "(string \<times> r2_object) list \<Rightarrow> string list" where
  "brand_folders objects = fold add_brand_folder objects []"

text \<open>
  What the loop over the folders changes: the bucket, \<open>deletedFolders\<close>, \<open>errors\<close>,
  and the groups of deletes started so far.
\<close>

record cleanup_state =
  cs_bucket :: r2_bucket
  cs_deletedFolders :: "string list"
  cs_errors :: "string list"
  cs_groups :: "string list list"

text \<open>
  One round of the loop over the folders: a folder outside the keep-list is listed and
  all its objects are deleted in one group, each delete with its own \<open>catch\<close>. When
  listing the folder throws, the \<open>catch\<close> of the round records an error and the loop
  goes on.
\<close>

definition cleanup_folder ::
  "platform \<Rightarrow> string list \<Rightarrow> string \<Rightarrow> cleanup_state \<Rightarrow> cleanup_state" where
  "cleanup_folder P brandsToKeep brandFolder st =
     (if brandFolder \<notin> set brandsToKeep then
        (case r2_list P (cs_bucket st) (''brands/'' @ brandFolder @ ''/'') of
           Inl e \<Rightarrow>
             st\<lparr>cs_errors := cs_errors st
                    @ [''Failed to delete brand folder '' @ brandFolder @ '': '' @ exn_string e]\<rparr>
         | Inr brandObjects \<Rightarrow>
             if length brandObjects > 0
             then st\<lparr>cs_bucket := delete_group P (map fst brandObjects) (cs_bucket st),
                     cs_deletedFolders := cs_deletedFolders st @ [brandFolder],
                     cs_groups := cs_groups st @ [map fst brandObjects]\<rparr>
             else st)
      else st)"

text \<open>\<open>cleanupRequest.brandsToKeep || ["nosana.io", "mastra"]\<close>; an empty list is truthy.\<close>

definition brands_to_keep :: "string list option \<Rightarrow> string list" where
  "brands_to_keep requested =
     (case requested of None \<Rightarrow> [''nosana.io'', ''mastra''] | Some k \<Rightarrow> k)"

text \<open>
  \<open>handleR2Cleanup\<close>, given the \<open>brandsToKeep\<close> of the request (\<open>None\<close> when the
  field is missing): the response, the bucket, and the groups of deletes it started.
  When the first listing throws, the outer \<open>catch\<close> answers with status 500.
\<close>

definition handleR2Cleanup ::
  "platform \<Rightarrow> string list option \<Rightarrow> r2_bucket
     \<Rightarrow> cleanup_response \<times> r2_bucket \<times> string list list" where
  "handleR2Cleanup P requested bucket =
     (let brandsToKeep = brands_to_keep requested
      in case r2_list P bucket ''brands/'' of
           Inl e \<Rightarrow>
             (\<lparr>cr_status = 500, cr_success = False, cr_message = None, cr_brandsKept = None,
               cr_deletedFolders = None, cr_errors = None, cr_summary = None,
               cr_error = Some ''Cleanup failed'',
               cr_details = Some (message_or e ''Unknown error'')\<rparr>,
              bucket, [])
         | Inr listResult \<Rightarrow>
             if length listResult = 0 then
               (\<lparr>cr_status = 200, cr_success = True,
                 cr_message = Some ''No objects found in bucket'', cr_brandsKept = None,
                 cr_deletedFolders = Some [], cr_errors = Some [], cr_summary = None,
                 cr_error = None, cr_details = None\<rparr>,
                bucket, [])
             else
               (let brandFolders = brand_folders listResult;
                    st = fold (cleanup_folder P brandsToKeep) brandFolders
                           \<lparr>cs_bucket = bucket, cs_deletedFolders = [], cs_errors = [],
                            cs_groups = []\<rparr>
                in (\<lparr>cr_status = 200, cr_success = True,
                      cr_message = Some ''Cleanup completed successfully'',
                      cr_brandsKept = Some brandsToKeep,
                      cr_deletedFolders = Some (cs_deletedFolders st),
                      cr_errors = Some (cs_errors st),
                      cr_summary = Some
                        \<lparr>totalBrandFolders = length brandFolders,
                         deleted = length (cs_deletedFolders st),
                         kept = length (filter (\<lambda>brand. brand \<in> set brandFolders)
                                          brandsToKeep),
                         errors_count = length (cs_errors st)\<rparr>,
                      cr_error = None, cr_details = None\<rparr>,
                    cs_bucket st, cs_groups st)))"

section \<open>Notions used by the properties\<close>

text \<open>The size a result counts for, and the tally a response keeps of its results.\<close>

definition result_size :: "upload_result \<Rightarrow> nat" where
  "result_size r = (case r_size r of None \<Rightarrow> 0 | Some n \<Rightarrow> n)"

definition tally_ok :: "upload_response \<Rightarrow> bool" where
  "tally_ok response =
     (successful (rs_summary response) = length (filter r_success (rs_results response)) \<and>
      failed (rs_summary response) = length (filter (\<lambda>r. \<not> r_success r) (rs_results response)) \<and>
      totalSize (rs_summary response)
        = sum_list (map result_size (filter r_success (rs_results response))))"

text \<open>
  A platform and two pages of one URL for the concrete runs: one URL parses, times
  render as a number, no bucket operation and no database update fails.
\<close>

definition sample_item :: content_item where
  "sample_item =
     \<lparr>ci_url = ''https://x.com/a'', ci_title = ''A'', ci_content = ''hello'',
      ci_processed_content = None, ci_contentType = None, ci_images = None\<rparr>"

definition second_item :: content_item where
  "second_item = sample_item\<lparr>ci_content := ''bye''\<rparr>"

definition test_platform :: platform where
  "test_platform =
     \<lparr>url_parse = (\<lambda>u. if u = ''https://x.com/a'' then Some (''x.com'', ''/a'') else None),
      toISOString = (\<lambda>t. ''T'' @ show_nat t),
      json_stringify = (\<lambda>xs. ''['' @ join '','' (map (\<lambda>x. CHR 0x22 # x @ [CHR 0x22]) xs) @ '']''),
      put_error = (\<lambda>key. None),
      delete_error = (\<lambda>key. False),
      list_error = (\<lambda>pfx. None),
      list_limit = 1000,
      db_update_error = (\<lambda>table status. False)\<rparr>"

text \<open>
  The statuses of a URL row in the data model.
\<close>

definition brand_url_statuses :: "string list" where
  "brand_url_statuses = [''discovered'', ''scraping'', ''uploading'', ''uploaded'', ''failed'']"

definition statuses_ok :: "world \<Rightarrow> bool" where
  "statuses_ok w = list_all (\<lambda>r. u_status r \<in> set brand_url_statuses) (brand_urls w)"

text \<open>
  The weaker state in the middle of a page event: a row is in the set of the data model
  or it is marked \<open>scraped\<close>; and the same with the rows that may be marked
  \<open>scraped\<close> named by a predicate.
\<close>

definition statuses_ok_or_scraped :: "world \<Rightarrow> bool" where
  "statuses_ok_or_scraped w =
     list_all (\<lambda>r. u_status r \<in> set (''scraped'' # brand_url_statuses)) (brand_urls w)"

definition statuses_ok_but :: "(url_row \<Rightarrow> bool) \<Rightarrow> world \<Rightarrow> bool" where
  "statuses_ok_but matches w =
     list_all (\<lambda>r. u_status r \<in> set brand_url_statuses
                    \<or> (matches r \<and> u_status r = ''scraped'')) (brand_urls w)"

text \<open>
  A platform where the update of \<open>brand_urls\<close> that writes \<open>scraped\<close> is applied and
  every later update of that table fails.
\<close>

definition later_updates_fail :: platform where
  "later_updates_fail =
     test_platform\<lparr>db_update_error :=
       (\<lambda>table status. table = ''brand_urls'' \<and> status \<noteq> ''scraped'')\<rparr>"

text \<open>
  Concrete data for the runs below: a database after the discovery of one URL, events
  of a job for it, databases and services for an extraction and for a discovery.
\<close>

definition discovered_world :: world where
  "discovered_world =
     \<lparr>brands = [],
      mappings =
        [\<lparr>m_id = ''m1'', m_brand_id = ''b1'', m_domain = ''x.com'', m_status = ''mapping_urls'',
          m_progress_percentage = 40, m_current_step = ''Discovered 1 URLs, starting async scraping...'',
          m_error_message = None, m_started_at = Some ''T1'', m_completed_at = None,
          m_updated_at = Some ''T1'', m_urls_discovered = 1, m_company_info_count = 0,
          m_blog_count = 0, m_docs_count = 0, m_ecommerce_count = 0, m_total_urls = 1\<rparr>],
      brand_urls =
        [\<lparr>u_brand_id = ''b1'', u_mapping_id = ''m1'', u_url = ''https://x.com/a'',
          u_title = None, u_description = None, u_category = ''other'', u_priority = 0,
          u_status = ''discovered'', u_scraped_at = None, u_image_count = 0, u_content_size = 0,
          u_uploading_started_at = None, u_uploaded_at = None, u_r2_key = None,
          u_error_message = None\<rparr>],
      r2 = [], url_status_writes = []\<rparr>"

definition event_of_type :: "string \<Rightarrow> webhook_event" where
  "event_of_type ty =
     \<lparr>ev_success = True, ev_type = ty, ev_id = ''job2'',
      ev_data = Some [\<lparr>d_sourceURL = Some ''https://x.com/a'', d_url = None, d_title = Some ''A'',
                       d_markdown = Some ''hello'', d_images = None, d_data = None\<rparr>],
      ev_metadata = \<lparr>em_brandId = Some ''b1'', em_domain = Some ''x.com'',
                     em_mappingId = Some ''m1'', em_jobType = None\<rparr>,
      ev_error = None\<rparr>"

definition extracting_world :: world where
  "extracting_world =
     \<lparr>brands =
        [\<lparr>b_id = ''b1'', b_owner_id = None, b_primary_domain = ''acme.com'',
          b_name = JStr ''Acme'', b_description = JStr ''Extracting brand information from acme.com...'',
          b_logo_url = JStr ''https://logo.clearbit.com/acme.com'',
          b_metadata = placeholder_metadata ''acme.com'' ''job1'',
          b_crawl_status = ''extracting'', b_is_public = True, b_created_at = 1,
          b_updated_at = ''T1''\<rparr>],
      mappings = [], brand_urls = [], r2 = [], url_status_writes = []\<rparr>"

definition extract_completed_event :: webhook_event where
  "extract_completed_event =
     \<lparr>ev_success = True, ev_type = ''extract.completed'', ev_id = ''job1'',
      ev_data = Some [\<lparr>d_sourceURL = None, d_url = None, d_title = None, d_markdown = None,
                       d_images = None, d_data = Some Map.empty\<rparr>],
      ev_metadata = \<lparr>em_brandId = Some ''b1'', em_domain = Some ''acme.com'',
                     em_mappingId = None, em_jobType = Some ''brandExtraction''\<rparr>,
      ev_error = None\<rparr>"

definition completed_firecrawl :: firecrawl where
  "completed_firecrawl =
     \<lparr>fc_startExtract = Inr (True, Some ''job1''),
      fc_map = Inr None,
      fc_startBatchScrape = Inr (None, None),
      fc_getExtractStatus = (\<lambda>jobId. Inr (''completed'', Some Map.empty))\<rparr>"

text \<open>
  Delivery order of the events of a job: no started event after a completed event.
\<close>

definition started_event :: "webhook_event \<Rightarrow> bool" where
  "started_event e = (ev_type e = ''crawl.started'' \<or> ev_type e = ''batch_scrape.started'')"

definition completed_event :: "webhook_event \<Rightarrow> bool" where
  "completed_event e = (ev_type e = ''crawl.completed'' \<or> ev_type e = ''batch_scrape.completed'')"

fun in_pipeline_order :: "webhook_event list \<Rightarrow> bool" where
  "in_pipeline_order [] = True"
| "in_pipeline_order (e # es) =
     ((if completed_event e then list_all (\<lambda>e'. \<not> started_event e') es else True)
      \<and> in_pipeline_order es)"

text \<open>
  From one state to the next, the rows of the mappings are the same and the progress of
  the mapping \<open>mid\<close> has not decreased.
\<close>

definition keeps_progress :: "string \<Rightarrow> world \<Rightarrow> world \<Rightarrow> bool" where
  "keeps_progress mid w w' =
     list_all2 (\<lambda>m m'. m_id m' = m_id m
                  \<and> (if m_id m = mid then m_progress_percentage m \<le> m_progress_percentage m'
                     else True))
       (mappings w) (mappings w')"

fun progress_never_decreases ::
  "platform \<Rightarrow> nat \<Rightarrow> string \<Rightarrow> webhook_event list \<Rightarrow> world \<Rightarrow> bool" where
  "progress_never_decreases P now mid [] w = True"
| "progress_never_decreases P now mid (e # es) w =
     (keeps_progress mid w (snd (handleFirecrawlWebhook P now e w))
      \<and> progress_never_decreases P now mid es (snd (handleFirecrawlWebhook P now e w)))"

definition progress_below :: "nat \<Rightarrow> string \<Rightarrow> world \<Rightarrow> bool" where
  "progress_below n mid w =
     list_all (\<lambda>m. if m_id m = mid then m_progress_percentage m \<le> n else True) (mappings w)"

definition step_rel :: "webhook_event \<Rightarrow> mapping_row \<Rightarrow> mapping_row \<Rightarrow> bool" where
  "step_rel e m m' =
     (m_id m' = m_id m
      \<and> (m_progress_percentage m' = m_progress_percentage m
         \<or> (started_event e \<and> m_progress_percentage m' = 50)
         \<or> (completed_event e \<and> m_progress_percentage m' = 100)))"

definition progress_in :: "nat list \<Rightarrow> string \<Rightarrow> world \<Rightarrow> bool" where
  "progress_in values mid w =
     list_all (\<lambda>m. if m_id m = mid then m_progress_percentage m \<in> set values else True)
       (mappings w)"

definition empty_world :: world where
  "empty_world = \<lparr>brands = [], mappings = [], brand_urls = [], r2 = [], url_status_writes = []\<rparr>"

definition no_faults :: supabase_faults where
  "no_faults =
     \<lparr>brand_update_error = False, brand_insert_error = None, brand_insert_empty = False,
      mapping_upsert_error = False,
      url_upsert_error = False, new_brand_id = ''b1'', new_mapping_id = ''m1''\<rparr>"

definition one_link_firecrawl :: firecrawl where
  "one_link_firecrawl =
     \<lparr>fc_startExtract = Inr (True, Some ''job1''),
      fc_map = Inr (Some [\<lparr>l_url = ''https://x.com/a'', l_title = Some ''A'',
                           l_description = None\<rparr>]),
      fc_startBatchScrape = Inr (Some ''job2'', None),
      fc_getExtractStatus = (\<lambda>jobId. Inr (''processing'', None))\<rparr>"

text \<open>
  A database whose upsert of the progress row reports an error, and a scraping service
  whose map operation throws an \<open>Error\<close> with an empty message.
\<close>

definition upsert_fails :: supabase_faults where
  "upsert_fails = no_faults\<lparr>mapping_upsert_error := True\<rparr>"

definition map_throws_empty :: firecrawl where
  "map_throws_empty =
     \<lparr>fc_startExtract = Inr (True, Some ''job1''),
      fc_map = Inl (Error []),
      fc_startBatchScrape = Inr (None, None),
      fc_getExtractStatus = (\<lambda>jobId. Inr (''processing'', None))\<rparr>"

definition no_links_firecrawl :: firecrawl where
  "no_links_firecrawl =
     \<lparr>fc_startExtract = Inr (True, Some ''job1''),
      fc_map = Inr None,
      fc_startBatchScrape = Inr (None, None),
      fc_getExtractStatus = (\<lambda>jobId. Inr (''processing'', None))\<rparr>"


text \<open>
  A bucket of \<open>n\<close> pages of one brand.
\<close>

definition pages_bucket :: "nat \<Rightarrow> r2_bucket" where
  "pages_bucket n =
     map (\<lambda>i. (''brands/x.com/content/pages/p'' @ show_nat i @ ''.md'',
                \<lparr>o_body = [], o_size = 0, o_customMetadata = []\<rparr>)) [0..<n]"

text \<open>
  A key under the folder of a brand, and the folder the cleanup reads off a key.
\<close>

definition under_folder :: "string \<Rightarrow> string \<Rightarrow> bool" where
  "under_folder d key = prefix (''brands/'' @ d @ ''/'') key"

definition folder_of :: "string \<Rightarrow> string option" where
  "folder_of key =
     (let pathParts = split_on CHR ''/'' key
      in if length pathParts \<ge> 2 \<and> hd pathParts = ''brands'' then Some (hd (tl pathParts))
         else None)"

text \<open>
  A group of deletes of one folder.
\<close>

definition folder_group :: "string \<Rightarrow> string list \<Rightarrow> bool" where
  "folder_group f g = (g \<noteq> [] \<and> list_all (under_folder f) g)"

section \<open>Properties\<close>

subsection \<open>normalizeUrl\<close>

lemma split_on_not_Nil: "split_on sep s \<noteq> []"
  by (induction s) (auto split: list.splits)

lemma hd_split_on: "hd (split_on sep s) = takeWhile (\<lambda>c. c \<noteq> sep) s"
  by (induction s) (auto simp: split_on_not_Nil split: list.splits)

lemma uri_tokens_no_percent: "CHR ''%'' \<notin> set s \<Longrightarrow> uri_tokens s = map Lit s"
  by (induction s) auto

lemma decode_tokens_Lit: "decode_tokens [] (map Lit s) = Some s"
  by (induction s) auto

lemma decodeURIComponent_no_percent:
  "CHR ''%'' \<notin> set s \<Longrightarrow> decodeURIComponent s = Some s"
  by (simp add: decodeURIComponent_def uri_tokens_no_percent decode_tokens_Lit)

lemma toLowerCase_char_idem: "toLowerCase_char (toLowerCase_char c) = toLowerCase_char c"
  by (simp add: toLowerCase_char_def upper_chars_def lower_chars_def)

lemma toLowerCase_idem: "toLowerCase (toLowerCase s) = toLowerCase s"
  by (simp add: toLowerCase_def toLowerCase_char_idem)

lemma set_trim: "set (trim s) \<subseteq> set s"
proof -
  have "set (trim s) = set (dropWhile is_whitespace (rev (dropWhile is_whitespace s)))"
    by (simp add: trim_def)
  also have "\<dots> \<subseteq> set (rev (dropWhile is_whitespace s))"
    by (rule set_dropWhileD[THEN subsetI]) 
  also have "\<dots> \<subseteq> set s"
    using set_dropWhileD by fastforce
  finally show ?thesis .
qed

lemma toLowerCase_fixed: "\<forall>c \<in> set s. toLowerCase_char c = c \<Longrightarrow> toLowerCase s = s"
  by (simp add: toLowerCase_def map_idI)

lemma toLowerCase_trim_lower: "toLowerCase (trim (toLowerCase s)) = trim (toLowerCase s)"
proof (rule toLowerCase_fixed, rule ballI)
  fix c assume "c \<in> set (trim (toLowerCase s))"
  then have "c \<in> set (toLowerCase s)" using set_trim by blast
  then show "toLowerCase_char c = c"
    by (auto simp: toLowerCase_def toLowerCase_char_idem)
qed

lemma dropWhile_id: "xs = [] \<or> \<not> P (hd xs) \<Longrightarrow> dropWhile P xs = xs"
  by (cases xs) auto

lemma trim_trim: "trim (trim s) = trim s"
proof -
  define a where "a = dropWhile is_whitespace s"
  define b where "b = dropWhile is_whitespace (rev a)"
  have t: "trim s = rev b" by (simp add: trim_def a_def b_def)
  have a_hd: "a = [] \<or> \<not> is_whitespace (hd a)"
    unfolding a_def by (metis hd_dropWhile)
  have b_hd: "b = [] \<or> \<not> is_whitespace (hd b)"
    unfolding b_def by (metis hd_dropWhile)
  show ?thesis
  proof (cases "b = []")
    case True
    then have e: "trim s = []" by (simp add: t)
    have "trim [] = []" by (simp add: trim_def)
    then show ?thesis by (simp add: e)
  next
    case False
    then have "rev a \<noteq> []" unfolding b_def by auto
    then have an: "a \<noteq> []" by simp
    obtain ps where "rev a = ps @ b" unfolding b_def
      by (metis takeWhile_dropWhile_id)
    then have "last b = last (rev a)" using False by simp
    then have lb: "last b = hd a" using an by (simp add: last_rev)
    have "hd (rev b) = last b" using False by (simp add: hd_rev)
    then have "\<not> is_whitespace (hd (rev b))" using lb a_hd an by simp
    then have d1: "dropWhile is_whitespace (rev b) = rev b" by (simp add: dropWhile_id)
    have "\<not> is_whitespace (hd b)" using b_hd False by simp
    then have d2: "dropWhile is_whitespace b = b" by (simp add: dropWhile_id)
    have "trim (rev b) = rev b" unfolding trim_def d1 by (simp add: d2)
    then show ?thesis by (simp add: t)
  qed
qed

lemma normalizeUrl_shape: "\<exists>z. normalizeUrl x = trim (toLowerCase z)"
proof (cases "x = []")
  case True
  have "normalizeUrl x = trim (toLowerCase [])" using True by (simp add: normalizeUrl_def trim_def toLowerCase_def)
  then show ?thesis by blast
next
  case False
  then show ?thesis
    by (auto simp: normalizeUrl_def normalizeUrl_try_def Let_def split: option.splits if_splits)
qed

lemma js_includes_dot: "js_includes s ''.'' = (CHR ''.'' \<in> set s)"
  by (induction s) auto

lemma takeWhile_id: "c \<notin> set s \<Longrightarrow> takeWhile (\<lambda>x. x \<noteq> c) s = s"
  by (induction s) auto

lemma strip_scheme_id: "CHR ''/'' \<notin> set s \<Longrightarrow> strip_scheme s = s"
  by (auto simp: strip_scheme_def prefix_def)

text \<open>
  Claim C6, as amended. \<open>normalizeUrl\<close> is idempotent on every input whose normalized
  form is clean: when \<open>normalizeUrl x\<close> contains no \<open>%\<close>, \<open>/\<close> or \<open>:\<close> and does
  not begin with \<open>www.\<close>, normalizing it again returns it unchanged.
\<close>

theorem normalizeUrl_idempotent_on_clean:
  assumes "CHR ''%'' \<notin> set (normalizeUrl x)"
      and "CHR ''/'' \<notin> set (normalizeUrl x)"
      and "CHR '':'' \<notin> set (normalizeUrl x)"
      and "\<not> prefix ''www.'' (normalizeUrl x)"
  shows "normalizeUrl (normalizeUrl x) = normalizeUrl x"
proof -
  define y where "y = normalizeUrl x"
  obtain z where z: "y = trim (toLowerCase z)" unfolding y_def using normalizeUrl_shape by blast
  have low: "toLowerCase y = y" unfolding z by (rule toLowerCase_trim_lower)
  have tr: "trim y = y" unfolding z by (rule trim_trim)
  have dec: "decodeURIComponent y = Some y"
    using assms(1) unfolding y_def by (rule decodeURIComponent_no_percent)
  have s1: "strip_scheme y = y" using assms(2) unfolding y_def by (rule strip_scheme_id)
  have s2: "strip_www y = y" using assms(4) unfolding y_def by (simp add: strip_www_def)
  have s3: "hd (split_on CHR ''/'' y) = y"
    using assms(2) unfolding y_def by (simp add: hd_split_on takeWhile_id)
  have s4: "hd (split_on CHR '':'' y) = y"
    using assms(3) unfolding y_def by (simp add: hd_split_on takeWhile_id)
  have "normalizeUrl y = y"
    by (simp add: normalizeUrl_def normalizeUrl_try_def dec s1 s2 s3 s4 low tr Let_def)
  then show ?thesis unfolding y_def .
qed

text \<open>
  Claim C6 as stated fails: only one leading \<open>www.\<close> is removed per call, so the
  non-empty input \<open>www.www.a.com\<close> normalizes to \<open>www.a.com\<close>, which normalizes to
  \<open>a.com\<close>.
\<close>

theorem normalizeUrl_not_idempotent:
  "normalizeUrl ''www.www.a.com'' = ''www.a.com'' \<and>
   normalizeUrl (normalizeUrl ''www.www.a.com'') = ''a.com''"
  by (simp add: normalizeUrl_def normalizeUrl_try_def decodeURIComponent_def strip_scheme_def
      strip_www_def trim_def toLowerCase_def toLowerCase_char_def upper_chars_def lower_chars_def
      is_whitespace_def Let_def)

text \<open>The amended claim C6 at the input \<open>https://Example.com/about\<close>.\<close>

theorem normalizeUrl_idempotent_on_clean_witness:
  "normalizeUrl (normalizeUrl ''https://Example.com/about'') = normalizeUrl ''https://Example.com/about''
   \<and> normalizeUrl ''https://Example.com/about'' = ''example.com''"
proof -
  have v: "normalizeUrl ''https://Example.com/about'' = ''example.com''"
      by (simp add: normalizeUrl_def normalizeUrl_try_def decodeURIComponent_def strip_scheme_def
      strip_www_def trim_def toLowerCase_def toLowerCase_char_def upper_chars_def lower_chars_def
      is_whitespace_def Let_def)
  have "normalizeUrl (normalizeUrl ''https://Example.com/about'') = normalizeUrl ''https://Example.com/about''"
    by (rule normalizeUrl_idempotent_on_clean) (simp_all add: v)
  then show ?thesis using v by simp
qed


subsection \<open>R2 content uploader\<close>

lemma upload_batch_from_length:
  "upload_batch_from P clock brandPrefix options seen i batch bucket = (rs, b)
   \<Longrightarrow> length rs = length batch"
proof (induction batch arbitrary: i bucket rs b)
  case Nil
  then show ?case by simp
next
  case (Cons item batch)
  obtain r b1 where u: "upload_write P (clock i) bucket brandPrefix item i
      (upload_check P (clock i) seen brandPrefix item i options) = (r, b1)"
    by (cases "upload_write P (clock i) bucket brandPrefix item i
      (upload_check P (clock i) seen brandPrefix item i options)") auto
  obtain rs' b2 where v:
    "upload_batch_from P clock brandPrefix options seen (Suc i) batch b1 = (rs', b2)"
    by (cases "upload_batch_from P clock brandPrefix options seen (Suc i) batch b1") auto
  from Cons.prems u v have "rs = r # rs'" by simp
  moreover from Cons.IH[OF v] have "length rs' = length batch" .
  ultimately show ?case by simp
qed

lemma upload_batch_length:
  "upload_batch P clock brandPrefix options i batch bucket = (rs, b) \<Longrightarrow> length rs = length batch"
  unfolding upload_batch_def by (rule upload_batch_from_length)

lemma record_result_tally:
  "tally_ok response \<Longrightarrow> tally_ok (record_result ir response)"
  by (auto simp: tally_ok_def record_result_def Let_def result_size_def)

lemma record_result_length:
  "length (rs_results (record_result ir response)) = Suc (length (rs_results response))"
  by (simp add: record_result_def Let_def)

lemma record_result_total:
  "total (rs_summary (record_result ir response)) = total (rs_summary response)"
  by (simp add: record_result_def Let_def)

lemma fold_record_result:
  "tally_ok response \<Longrightarrow>
   tally_ok (fold record_result irs response) \<and>
   length (rs_results (fold record_result irs response)) = length (rs_results response) + length irs \<and>
   total (rs_summary (fold record_result irs response)) = total (rs_summary response)"
proof (induction irs arbitrary: response)
  case Nil
  then show ?case by simp
next
  case (Cons ir irs)
  from Cons.prems have "tally_ok (record_result ir response)" by (rule record_result_tally)
  from Cons.IH[OF this] show ?case
    by (simp add: record_result_length record_result_total)
qed

lemma upload_loop_tally:
  assumes "upload_loop P clock brandPrefix options content i (response, bucket) = (response', bucket')"
      and "tally_ok response"
      and "length (rs_results response) = min i (length content)"
  shows "tally_ok response' \<and> length (rs_results response') = length content
         \<and> total (rs_summary response') = total (rs_summary response)"
  using assms
proof (induction "length content - i" arbitrary: i response bucket rule: less_induct)
  case less
  show ?case
  proof (cases "i < length content")
    case False
    with less.prems show ?thesis by (simp add: upload_loop.simps)
  next
    case True
    define batch where "batch = take BATCH_SIZE (drop i content)"
    obtain batchResults bucket1 where ub:
      "upload_batch P clock brandPrefix options i batch bucket = (batchResults, bucket1)"
      by (cases "upload_batch P clock brandPrefix options i batch bucket") auto
    define response1 where "response1 = fold record_result (zip batch batchResults) response"
    have len: "length batchResults = length batch"
      using ub by (rule upload_batch_length)
    have f: "tally_ok response1 \<and>
             length (rs_results response1) = length (rs_results response) + length (zip batch batchResults) \<and>
             total (rs_summary response1) = total (rs_summary response)"
      unfolding response1_def using less.prems(2) by (rule fold_record_result)
    have lb: "length batch = min BATCH_SIZE (length content - i)"
      by (simp add: batch_def)
    have l1: "length (rs_results response1) = min (i + BATCH_SIZE) (length content)"
      using f len less.prems(3) True lb by auto
    have step: "upload_loop P clock brandPrefix options content (i + BATCH_SIZE) (response1, bucket1)
                = (response', bucket')"
      using less.prems(1) True ub
      by (simp add: upload_loop.simps[of P clock brandPrefix options content i] batch_def
            response1_def Let_def)
    have dec: "length content - (i + BATCH_SIZE) < length content - i"
      using True by (simp add: BATCH_SIZE_def)
    have "tally_ok response' \<and> length (rs_results response') = length content
         \<and> total (rs_summary response') = total (rs_summary response1)"
      using less.hyps[OF dec step _ l1] f by simp
    then show ?thesis using f by simp
  qed
qed

text \<open>
  Claim C9. With a content list of length \<open>n\<close>, \<open>uploadBrandContent\<close> returns, and its
  response has \<open>summary.total = n\<close>, one result per item, \<open>successful + failed = n\<close>,
  \<open>totalSize\<close> the sum of the sizes of the successful results, and \<open>success\<close> true
  exactly when \<open>successful > 0\<close>.
\<close>

theorem uploadBrandContent_summary:
  assumes "rq_content request = Some content"
  shows "\<exists>response bucket'.
           uploadBrandContent P clock bucket request = Inr (response, bucket') \<and>
           total (rs_summary response) = length content \<and>
           length (rs_results response) = length content \<and>
           successful (rs_summary response) + failed (rs_summary response) = length content \<and>
           totalSize (rs_summary response)
             = sum_list (map (\<lambda>r. case r_size r of None \<Rightarrow> 0 | Some n \<Rightarrow> n)
                          (filter r_success (rs_results response))) \<and>
           (rs_success response \<longleftrightarrow> successful (rs_summary response) > 0)"
proof (cases "content = []")
  case True
  then show ?thesis using assms by (simp add: uploadBrandContent_def)
next
  case False
  define response0 where "response0 =
     \<lparr>rs_success = False, rs_brandId = rq_brandId request,
                  rs_domain = rq_domain request, rs_results = [],
                  rs_summary = \<lparr>total = length content, successful = 0, failed = 0,
                                totalSize = 0\<rparr>\<rparr>"
  obtain response1 bucket1 where lp:
    "upload_loop P clock (getBrandR2Prefix (rq_domain request)) (rq_options request) content 0
       (response0, bucket) = (response1, bucket1)"
    by (cases "upload_loop P clock (getBrandR2Prefix (rq_domain request)) (rq_options request) content 0
       (response0, bucket)") auto
  have t0: "tally_ok response0" by (simp add: tally_ok_def response0_def)
  have l0: "length (rs_results response0) = min 0 (length content)" by (simp add: response0_def)
  have inv: "tally_ok response1 \<and> length (rs_results response1) = length content
         \<and> total (rs_summary response1) = total (rs_summary response0)"
    using lp t0 l0 by (rule upload_loop_tally)
  have res: "uploadBrandContent P clock bucket request
          = Inr (response1\<lparr>rs_success := successful (rs_summary response1) > 0\<rparr>, bucket1)"
    using assms False lp by (simp add: uploadBrandContent_def response0_def Let_def)
  have part: "length (filter r_success (rs_results response1))
            + length (filter (\<lambda>r. \<not> r_success r) (rs_results response1))
            = length (rs_results response1)"
    by (rule sum_length_filter_compl)
  have sz: "result_size = (\<lambda>r. case r_size r of None \<Rightarrow> 0 | Some n \<Rightarrow> n)"
    by (rule ext) (simp add: result_size_def)
  show ?thesis
    using inv part by (simp add: res tally_ok_def response0_def sz)
qed

text \<open>Claim C9 at a request with two pages.\<close>

theorem uploadBrandContent_summary_witness:
  "\<exists>response bucket'.
     uploadBrandContent test_platform (\<lambda>i. 1000) [] 
        \<lparr>rq_brandId = ''b1'', rq_domain = ''x.com'', rq_content = Some [sample_item, sample_item],
         rq_options = None\<rparr> = Inr (response, bucket') \<and>
     total (rs_summary response) = 2 \<and> length (rs_results response) = 2 \<and>
     successful (rs_summary response) + failed (rs_summary response) = 2"
  using uploadBrandContent_summary[of "\<lparr>rq_brandId = ''b1'', rq_domain = ''x.com'', rq_content = Some [sample_item, sample_item],
         rq_options = None\<rparr>" "[sample_item, sample_item]" test_platform "\<lambda>i. 1000" "[]"]
  by auto

text \<open>
  Claim C10. Without a content list the call throws, since the length of the list is read
  before the guard; and the call returns with an empty list of results exactly when the
  content list is present and empty.
\<close>

theorem uploadBrandContent_content_guard:
  "(rq_content request = None \<longrightarrow>
      (\<exists>m. uploadBrandContent P clock bucket request = Inl (TypeError m)))
   \<and> ((\<exists>response bucket'. uploadBrandContent P clock bucket request = Inr (response, bucket')
          \<and> rs_results response = [])
        \<longleftrightarrow> rq_content request = Some [])"
proof (cases "rq_content request")
  case None
  then show ?thesis by (simp add: uploadBrandContent_def)
next
  case (Some content)
  show ?thesis
  proof (cases "content = []")
    case True
    then show ?thesis using Some by (simp add: uploadBrandContent_def)
  next
    case False
    define response0 where "response0 =
     \<lparr>rs_success = False, rs_brandId = rq_brandId request,
                  rs_domain = rq_domain request, rs_results = [],
                  rs_summary = \<lparr>total = length content, successful = 0, failed = 0,
                                totalSize = 0\<rparr>\<rparr>"
    obtain response1 bucket1 where lp:
      "upload_loop P clock (getBrandR2Prefix (rq_domain request)) (rq_options request) content 0
        (response0, bucket) = (response1, bucket1)"
      by (cases "upload_loop P clock (getBrandR2Prefix (rq_domain request)) (rq_options request) content 0
       (response0, bucket)") auto
    have t0: "tally_ok response0" by (simp add: tally_ok_def response0_def)
    have l0: "length (rs_results response0) = min 0 (length content)" by (simp add: response0_def)
    have inv: "tally_ok response1 \<and> length (rs_results response1) = length content
         \<and> total (rs_summary response1) = total (rs_summary response0)"
      using lp t0 l0 by (rule upload_loop_tally)
    have res: "uploadBrandContent P clock bucket request
          = Inr (response1\<lparr>rs_success := successful (rs_summary response1) > 0\<rparr>, bucket1)"
      using Some False lp by (simp add: uploadBrandContent_def response0_def Let_def)
    have "rs_results response1 \<noteq> []" using inv False by auto
    then show ?thesis using Some False by (simp add: res)
  qed
qed

text \<open>Claim C10 at a request without content.\<close>

theorem uploadBrandContent_content_guard_witness:
  "\<exists>m. uploadBrandContent test_platform (\<lambda>i. 1000) []
          \<lparr>rq_brandId = ''b1'', rq_domain = ''x.com'', rq_content = None, rq_options = None\<rparr>
        = Inl (TypeError m)"
  using uploadBrandContent_content_guard[of
      "\<lparr>rq_brandId = ''b1'', rq_domain = ''x.com'', rq_content = None, rq_options = None\<rparr>"
      test_platform "\<lambda>i. 1000" "[]"]
  by simp


lemma show_nat_1000: "show_nat 1000 = ''1000''" by code_simp
lemma show_nat_1001: "show_nat 1001 = ''1001''" by code_simp
lemma show_nat_0: "show_nat 0 = ''0''" by code_simp

lemma key_1000: "generateR2Key test_platform 1000 ''brands/x.com'' ''https://x.com/a'' 0
  = ''brands/x.com/content/pages/a-1000.md''"
  by (simp add: generateR2Key_def test_platform_def show_nat_1000 remove_extension_def
     sanitize_filename_def strip_edge_dashes_def filename_char_def lower_chars_def upper_chars_def digit_chars_def
     categorizeContent_def toLowerCase_def toLowerCase_char_def Let_def)

lemma key_1001: "generateR2Key test_platform 1001 ''brands/x.com'' ''https://x.com/a'' 0
  = ''brands/x.com/content/pages/a-1001.md''"
  by (simp add: generateR2Key_def test_platform_def show_nat_1001 remove_extension_def
     sanitize_filename_def strip_edge_dashes_def filename_char_def lower_chars_def upper_chars_def digit_chars_def
     categorizeContent_def toLowerCase_def toLowerCase_char_def Let_def)

text \<open>
  Claim C2 at two successive uploads of the same page without \<open>overwrite\<close>, one
  millisecond apart: the key carries the time, so the second upload finds no object at
  its key and writes a second object.
\<close>

theorem second_upload_writes_again:
  "(let (r1, bucket1) = uploadSingleContent test_platform 1000 [] ''brands/x.com'' sample_item 0 None;
        (r2, bucket2) = uploadSingleContent test_platform 1001 bucket1 ''brands/x.com'' sample_item 0 None
    in r_success r1 \<and> r_success r2 \<and>
       map fst bucket1 = [''brands/x.com/content/pages/a-1000.md''] \<and>
       map fst bucket2 = [''brands/x.com/content/pages/a-1000.md'',
                          ''brands/x.com/content/pages/a-1001.md''])"
  by (simp add: uploadSingleContent_def upload_check_def upload_write_def key_1000 key_1001
      sample_item_def options_overwrite_def r2_head_def Let_def
      test_platform_def[THEN arg_cong, of put_error])

text \<open>
  Two pages of one URL in one batch, without \<open>overwrite\<close> and in the same millisecond:
  both checks find nothing, both pages are put at the same key, and the bucket holds the
  second.
\<close>

lemma batch_checks_before_writes:
  "(let (results, bucket1) =
          upload_batch test_platform (\<lambda>i. 1000) ''brands/x.com'' None 0
            [sample_item, second_item] []
    in map r_success results = [True, True]
       \<and> map fst bucket1 = [''brands/x.com/content/pages/a-1000.md'']
       \<and> map (\<lambda>kv. o_body (snd kv)) bucket1
           = [formatAsMarkdown test_platform 1000 second_item 1]
       \<and> map r_size results
           = [Some (length (formatAsMarkdown test_platform 1000 sample_item 0)),
              Some (length (formatAsMarkdown test_platform 1000 second_item 1))])"
proof -
  have k: "generateR2Key test_platform 1000 ''brands/x.com'' ''https://x.com/a'' (Suc 0)
      = ''brands/x.com/content/pages/a-1000.md''"
    by (simp add: generateR2Key_def test_platform_def show_nat_1000 remove_extension_def
     sanitize_filename_def strip_edge_dashes_def filename_char_def lower_chars_def upper_chars_def digit_chars_def
     categorizeContent_def toLowerCase_def toLowerCase_char_def Let_def)
  show ?thesis
    by (simp add: upload_batch_def upload_check_def upload_write_def key_1000 k
        sample_item_def second_item_def options_overwrite_def r2_head_def Let_def
        test_platform_def[THEN arg_cong, of put_error])
qed

subsection \<open>Webhook handler: statuses of the URL rows\<close>

lemma update_brand_urls_writes [simp]:
  "url_status_writes (update_brand_urls P m s f w) = url_status_writes w @ [s]"
  by (simp add: update_brand_urls_def Let_def)

lemma update_brand_urls_mappings [simp]:
  "mappings (update_brand_urls P m s f w) = mappings w"
  by (simp add: update_brand_urls_def Let_def)

lemma update_brand_urls_brands [simp]:
  "brands (update_brand_urls P m s f w) = brands w"
  by (simp add: update_brand_urls_def Let_def)

lemma update_mapping_urls [simp]:
  "brand_urls (update_mapping P i s g w) = brand_urls w"
  "url_status_writes (update_mapping P i s g w) = url_status_writes w"
  by (simp_all add: update_mapping_def)

lemma update_brands_urls [simp]:
  "brand_urls (update_brands m g w) = brand_urls w"
  "url_status_writes (update_brands m g w) = url_status_writes w"
  "mappings (update_brands m g w) = mappings w"
  by (simp_all add: update_brands_def)

text \<open>
  An update with a status of the set keeps the rows in the set; it keeps the weaker state
  when it matches the rows that may be marked \<open>scraped\<close>, and brings these rows back
  into the set when it is applied.
\<close>

lemma update_keeps_ok:
  assumes "s \<in> set brand_url_statuses" and "statuses_ok w"
  shows "statuses_ok (update_brand_urls P m s f w)"
  using assms by (auto simp: statuses_ok_def update_brand_urls_def Let_def list_all_iff)

lemma update_keeps_ok_but:
  assumes "s \<in> set brand_url_statuses" and "statuses_ok_but m w"
  shows "statuses_ok_but m (update_brand_urls P m s f w)"
  using assms by (auto simp: statuses_ok_but_def update_brand_urls_def Let_def list_all_iff)

lemma update_applied_ok:
  assumes "s \<in> set brand_url_statuses" and "statuses_ok_but m w"
      and "\<not> db_update_error P ''brand_urls'' s"
  shows "statuses_ok (update_brand_urls P m s f w)"
  using assms
  by (auto simp: statuses_ok_def statuses_ok_but_def update_brand_urls_def Let_def list_all_iff)

lemma scraped_update:
  assumes "statuses_ok w" and "\<And>r. m r \<Longrightarrow> m ((f r)\<lparr>u_status := ''scraped''\<rparr>)"
  shows "statuses_ok_but m (update_brand_urls P m ''scraped'' f w)"
    and "db_update_error P ''brand_urls'' ''scraped''
         \<Longrightarrow> statuses_ok (update_brand_urls P m ''scraped'' f w)"
  using assms
  by (auto simp: statuses_ok_def statuses_ok_but_def update_brand_urls_def Let_def list_all_iff)

lemma statuses_ok_r2 [simp]:
  "statuses_ok (w\<lparr>r2 := b\<rparr>) = statuses_ok w"
  "statuses_ok_but m (w\<lparr>r2 := b\<rparr>) = statuses_ok_but m w"
  by (simp_all add: statuses_ok_def statuses_ok_but_def)

lemma statuses_ok_weaken:
  "statuses_ok w \<Longrightarrow> statuses_ok_but m w"
  "statuses_ok_but m w \<Longrightarrow> statuses_ok_or_scraped w"
  by (auto simp: statuses_ok_def statuses_ok_but_def statuses_ok_or_scraped_def list_all_iff)

text \<open>The upload of a page is given a content list, so it returns.\<close>

lemma uploadBrandContent_returns:
  "rq_content request = Some content
   \<Longrightarrow> \<exists>response bucket1. uploadBrandContent P clock bucket request = Inr (response, bucket1)"
  by (simp add: uploadBrandContent_def Let_def split: prod.splits)

lemma uploadPageToR2_statuses:
  fixes brandId url
  defines "m \<equiv> (\<lambda>r. u_brand_id r = brandId \<and> u_url r = url)"
  assumes "statuses_ok_but m w"
  shows "statuses_ok_but m (uploadPageToR2 P now page url brandId domain w)"
    and "statuses_ok w \<or> \<not> db_update_error P ''brand_urls'' ''uploading''
           \<or> (\<not> db_update_error P ''brand_urls'' ''uploaded''
               \<and> \<not> db_update_error P ''brand_urls'' ''failed'')
         \<Longrightarrow> statuses_ok (uploadPageToR2 P now page url brandId domain w)"
    and "\<exists>new. url_status_writes (uploadPageToR2 P now page url brandId domain w)
                  = url_status_writes w @ new
                \<and> set new \<subseteq> set [''uploading'', ''uploaded'', ''failed'']"
proof -
  define w1 where "w1 = update_brand_urls P m ''uploading''
                 (\<lambda>r. r\<lparr>u_uploading_started_at := Some (toISOString P now)\<rparr>) w"
  define request where "request =
            \<lparr>rq_brandId = brandId, rq_domain = domain,
             rq_content = Some
               [\<lparr>ci_url = url,
                 ci_title = str_or_default (d_title page) ''Untitled'',
                 ci_content = str_or_default (d_markdown page) [],
                 ci_processed_content =
                   Some (str_or_default (map_option (substring0 5000) (d_markdown page)) []),
                 ci_contentType = Some (categorizeContentType P url),
                 ci_images = Some (case d_images page of None \<Rightarrow> [] | Some imgs \<Rightarrow> imgs)\<rparr>],
             rq_options = Some \<lparr>opt_overwrite = Some True, opt_generateMetadata = Some True,
                                opt_skipSupabaseStorage = None\<rparr>\<rparr>"
  have st: "''uploading'' \<in> set brand_url_statuses" "''uploaded'' \<in> set brand_url_statuses"
      "''failed'' \<in> set brand_url_statuses"
    by (simp_all add: brand_url_statuses_def)
  obtain uploadResult bucket1 where
    up: "uploadBrandContent P (\<lambda>i. now) (r2 w1) request = Inr (uploadResult, bucket1)"
    using uploadBrandContent_returns[of request _ P "\<lambda>i. now" "r2 w1"]
    by (auto simp: request_def)
  obtain s f where s: "s \<in> set [''uploaded'', ''failed'']"
    and r: "uploadPageToR2 P now page url brandId domain w
              = update_brand_urls P m s f (w1\<lparr>r2 := bucket1\<rparr>)"
  proof (cases "rs_results uploadResult")
    case Nil
    have "uploadPageToR2 P now page url brandId domain w
            = update_brand_urls P m ''failed''
                (\<lambda>r. r\<lparr>u_error_message := Some ''R2 upload failed''\<rparr>) (w1\<lparr>r2 := bucket1\<rparr>)"
      unfolding uploadPageToR2_def Let_def m_def[symmetric] w1_def[symmetric]
        request_def[symmetric] up
      using Nil by simp
    then show ?thesis using that[of "''failed''"] by simp
  next
    case (Cons first rest)
    show ?thesis
    proof (cases "rs_success uploadResult \<and> r_success first")
      case True
      have "uploadPageToR2 P now page url brandId domain w
            = update_brand_urls P m ''uploaded''
                (\<lambda>r. r\<lparr>u_uploaded_at := Some (toISOString P now),
                        u_r2_key := Some (r_r2Key first),
                        u_content_size := (case r_size first of None \<Rightarrow> 0 | Some n \<Rightarrow> n)\<rparr>)
                (w1\<lparr>r2 := bucket1\<rparr>)"
        unfolding uploadPageToR2_def Let_def m_def[symmetric] w1_def[symmetric]
          request_def[symmetric] up
        using Cons True by simp
      then show ?thesis using that[of "''uploaded''"] by simp
    next
      case False
      have "uploadPageToR2 P now page url brandId domain w
            = update_brand_urls P m ''failed''
                (\<lambda>r. r\<lparr>u_error_message :=
                          Some (str_or_default (r_error first) ''R2 upload failed'')\<rparr>)
                (w1\<lparr>r2 := bucket1\<rparr>)"
        unfolding uploadPageToR2_def Let_def m_def[symmetric] w1_def[symmetric]
          request_def[symmetric] up
        using Cons False by auto
      then show ?thesis using that[of "''failed''"] by simp
    qed
  qed
  have sS: "s \<in> set brand_url_statuses" using s st by auto
  have b1: "statuses_ok_but m w1"
    unfolding w1_def using st(1) assms(2) by (rule update_keeps_ok_but)
  show "statuses_ok_but m (uploadPageToR2 P now page url brandId domain w)"
    unfolding r using sS b1 by (intro update_keeps_ok_but) simp_all
  show "statuses_ok (uploadPageToR2 P now page url brandId domain w)"
    if cond: "statuses_ok w \<or> \<not> db_update_error P ''brand_urls'' ''uploading''
           \<or> (\<not> db_update_error P ''brand_urls'' ''uploaded''
               \<and> \<not> db_update_error P ''brand_urls'' ''failed'')"
  proof -
    have "s = ''uploaded'' \<or> s = ''failed''" using s by simp
    then consider (a) "statuses_ok w" | (b) "\<not> db_update_error P ''brand_urls'' ''uploading''"
      | (c) "\<not> db_update_error P ''brand_urls'' s"
      using cond by blast
    then show ?thesis
    proof cases
      case a
      then have "statuses_ok w1" unfolding w1_def using st(1) by (intro update_keeps_ok)
      then show ?thesis unfolding r using sS by (intro update_keeps_ok) simp_all
    next
      case b
      have "statuses_ok w1" unfolding w1_def using st(1) assms(2) b by (rule update_applied_ok)
      then show ?thesis unfolding r using sS by (intro update_keeps_ok) simp_all
    next
      case c
      show ?thesis unfolding r using sS b1 c by (intro update_applied_ok) simp_all
    qed
  qed
  have "url_status_writes (uploadPageToR2 P now page url brandId domain w)
          = url_status_writes w @ [''uploading'', s]"
    unfolding r by (simp add: w1_def)
  then show "\<exists>new. url_status_writes (uploadPageToR2 P now page url brandId domain w)
                  = url_status_writes w @ new
                \<and> set new \<subseteq> set [''uploading'', ''uploaded'', ''failed'']"
    using s by auto
qed

lemma handlePageScraped_statuses:
  assumes "statuses_ok w"
  shows "statuses_ok_or_scraped (snd (handlePageScraped P now event w))"
    and "db_update_error P ''brand_urls'' ''scraped''
           \<or> \<not> db_update_error P ''brand_urls'' ''uploading''
           \<or> (\<not> db_update_error P ''brand_urls'' ''uploaded''
               \<and> \<not> db_update_error P ''brand_urls'' ''failed'')
         \<Longrightarrow> statuses_ok (snd (handlePageScraped P now event w))"
    and "\<exists>new. url_status_writes (snd (handlePageScraped P now event w))
                  = url_status_writes w @ new
                \<and> set new \<subseteq> set [''scraped'', ''uploading'', ''uploaded'', ''failed'']"
proof -
  define brandId where "brandId = str_or_default (em_brandId (ev_metadata event)) []"
  consider (same) "snd (handlePageScraped P now event w) = w"
    | (page) page rest url where "ev_data event = Some (page # rest)"
        "url = str_or_default (str_or (d_sourceURL page) (d_url page)) []" "url \<noteq> []"
  proof (cases "ev_data event")
    case None
    then show ?thesis using same by (simp add: handlePageScraped_def)
  next
    case (Some pages)
    show ?thesis
    proof (cases pages)
      case Nil
      then show ?thesis using same Some by (simp add: handlePageScraped_def)
    next
      case (Cons p ps)
      show ?thesis
      proof (cases "str_or_default (str_or (d_sourceURL p) (d_url p)) [] = []")
        case True
        then show ?thesis using same Some Cons by (simp add: handlePageScraped_def Let_def)
      next
        case False
        then show ?thesis using page[of p ps] Some Cons by simp
      qed
    qed
  qed
  then have main: "statuses_ok_or_scraped (snd (handlePageScraped P now event w))
      \<and> (db_update_error P ''brand_urls'' ''scraped''
           \<or> \<not> db_update_error P ''brand_urls'' ''uploading''
           \<or> (\<not> db_update_error P ''brand_urls'' ''uploaded''
               \<and> \<not> db_update_error P ''brand_urls'' ''failed'')
         \<longrightarrow> statuses_ok (snd (handlePageScraped P now event w)))
      \<and> (\<exists>new. url_status_writes (snd (handlePageScraped P now event w))
                  = url_status_writes w @ new
                \<and> set new \<subseteq> set [''scraped'', ''uploading'', ''uploaded'', ''failed''])"
  proof cases
    case same
    show ?thesis
      unfolding same using assms statuses_ok_weaken by auto
  next
    case page
    define m :: "url_row \<Rightarrow> bool" where "m = (\<lambda>r. u_brand_id r = brandId \<and> u_url r = url)"
    define w1 where "w1 = update_brand_urls P m ''scraped''
                         (\<lambda>r. r\<lparr>u_scraped_at := Some (toISOString P now),
                                 u_image_count :=
                                   length (case d_images page of None \<Rightarrow> [] | Some imgs \<Rightarrow> imgs),
                                 u_content_size :=
                                   (case d_markdown page of None \<Rightarrow> 0
                                    | Some md \<Rightarrow> utf16_length md)\<rparr>)
                         w"
    have r: "snd (handlePageScraped P now event w)
              = uploadPageToR2 P now page url brandId
                  (str_or_default (em_domain (ev_metadata event)) []) w1"
      using page by (simp add: handlePageScraped_def Let_def brandId_def w1_def m_def)
    have b1: "statuses_ok_but (\<lambda>r. u_brand_id r = brandId \<and> u_url r = url) w1"
      unfolding w1_def m_def using assms by (rule scraped_update(1)) simp
    have wr: "url_status_writes w1 = url_status_writes w @ [''scraped'']"
      by (simp add: w1_def)
    note u = uploadPageToR2_statuses[OF b1, of P now page
        "str_or_default (em_domain (ev_metadata event)) []"]
    have 1: "statuses_ok_or_scraped (snd (handlePageScraped P now event w))"
      unfolding r using u(1) by (rule statuses_ok_weaken(2))
    have 2: "statuses_ok (snd (handlePageScraped P now event w))"
        if cond: "db_update_error P ''brand_urls'' ''scraped''
           \<or> \<not> db_update_error P ''brand_urls'' ''uploading''
           \<or> (\<not> db_update_error P ''brand_urls'' ''uploaded''
               \<and> \<not> db_update_error P ''brand_urls'' ''failed'')"
    proof -
      have "db_update_error P ''brand_urls'' ''scraped'' \<Longrightarrow> statuses_ok w1"
        unfolding w1_def m_def using assms by (rule scraped_update(2)) simp_all
      then show ?thesis unfolding r using cond by (intro u(2)) blast
    qed
    have 3: "\<exists>new. url_status_writes (snd (handlePageScraped P now event w))
                  = url_status_writes w @ new
                \<and> set new \<subseteq> set [''scraped'', ''uploading'', ''uploaded'', ''failed'']"
    proof -
      obtain new where "url_status_writes (snd (handlePageScraped P now event w))
            = url_status_writes w1 @ new"
          "set new \<subseteq> set [''uploading'', ''uploaded'', ''failed'']"
        unfolding r using u(3) by blast
      then have "url_status_writes (snd (handlePageScraped P now event w))
            = url_status_writes w @ (''scraped'' # new)
            \<and> set (''scraped'' # new) \<subseteq> set [''scraped'', ''uploading'', ''uploaded'', ''failed'']"
        using wr by auto
      then show ?thesis by blast
    qed
    from 1 2 3 show ?thesis by blast
  qed
  from main show "statuses_ok_or_scraped (snd (handlePageScraped P now event w))" by blast
  from main show "statuses_ok (snd (handlePageScraped P now event w))"
    if "db_update_error P ''brand_urls'' ''scraped''
           \<or> \<not> db_update_error P ''brand_urls'' ''uploading''
           \<or> (\<not> db_update_error P ''brand_urls'' ''uploaded''
               \<and> \<not> db_update_error P ''brand_urls'' ''failed'')"
    using that by blast
  from main show "\<exists>new. url_status_writes (snd (handlePageScraped P now event w))
                  = url_status_writes w @ new
                \<and> set new \<subseteq> set [''scraped'', ''uploading'', ''uploaded'', ''failed'']"
    by blast
qed

lemma handleJobFailed_statuses:
  assumes "statuses_ok w"
  shows "statuses_ok (snd (handleJobFailed P now event w))
         \<and> url_status_writes (snd (handleJobFailed P now event w)) = url_status_writes w @ [''failed'']"
proof -
  have "\<And>w' m f. brand_urls w' = brand_urls w \<Longrightarrow> statuses_ok (update_brand_urls P m ''failed'' f w')"
    by (rule update_keeps_ok) (use assms in \<open>auto simp: statuses_ok_def brand_url_statuses_def\<close>)
  then show ?thesis
    by (simp add: handleJobFailed_def Let_def)
qed

text \<open>
  Claim C1, as amended. Starting from URL rows whose status lies in the set of the data
  model, every status value the handler writes while it processes an event is
  \<open>scraped\<close>, \<open>uploading\<close>, \<open>uploaded\<close> or \<open>failed\<close>, and afterwards every row's
  status lies in the set or is \<open>scraped\<close>. The handler does not look at the result of
  its updates. Every row's status lies in the set again when the update that writes
  \<open>scraped\<close> has failed, or the update that writes \<open>uploading\<close> is applied, or the
  update after the upload (it writes \<open>uploaded\<close> or \<open>failed\<close>) is applied; so it does
  when no update fails.
\<close>

theorem webhook_statuses:
  assumes "statuses_ok w"
  shows "(\<exists>new. url_status_writes (snd (handleFirecrawlWebhook P now event w))
                     = url_status_writes w @ new
                   \<and> set new \<subseteq> set [''scraped'', ''uploading'', ''uploaded'', ''failed''])
         \<and> statuses_ok_or_scraped (snd (handleFirecrawlWebhook P now event w))
         \<and> (db_update_error P ''brand_urls'' ''scraped''
              \<or> \<not> db_update_error P ''brand_urls'' ''uploading''
              \<or> (\<not> db_update_error P ''brand_urls'' ''uploaded''
                  \<and> \<not> db_update_error P ''brand_urls'' ''failed'')
             \<longrightarrow> statuses_ok (snd (handleFirecrawlWebhook P now event w)))"
proof -
  define G where "G = (\<lambda>w'. (\<exists>new. url_status_writes w' = url_status_writes w @ new
                   \<and> set new \<subseteq> set [''scraped'', ''uploading'', ''uploaded'', ''failed''])
         \<and> statuses_ok_or_scraped w'
         \<and> (db_update_error P ''brand_urls'' ''scraped''
              \<or> \<not> db_update_error P ''brand_urls'' ''uploading''
              \<or> (\<not> db_update_error P ''brand_urls'' ''uploaded''
                  \<and> \<not> db_update_error P ''brand_urls'' ''failed'')
             \<longrightarrow> statuses_ok w'))"
  have other: "G w'"
    if "brand_urls w' = brand_urls w" "url_status_writes w' = url_status_writes w" for w'
    unfolding G_def
    using assms that by (simp add: statuses_ok_def statuses_ok_or_scraped_def list_all_iff)
  have st: "brand_urls (snd (handleJobStarted P event w)) = brand_urls w"
           "url_status_writes (snd (handleJobStarted P event w)) = url_status_writes w"
    by (simp_all add: handleJobStarted_def Let_def)
  have co: "brand_urls (snd (handleJobCompleted P now event w)) = brand_urls w"
           "url_status_writes (snd (handleJobCompleted P now event w)) = url_status_writes w"
    by (simp_all add: handleJobCompleted_def Let_def)
  have ex: "brand_urls (snd (handleExtractCompleted P now event w)) = brand_urls w"
           "url_status_writes (snd (handleExtractCompleted P now event w)) = url_status_writes w"
    by (simp_all add: handleExtractCompleted_def Let_def split: option.splits list.splits)
  have pg: "G (snd (handlePageScraped P now event w))"
    unfolding G_def using handlePageScraped_statuses[OF assms, of P now event] by blast
  have fl: "G (snd (handleJobFailed P now event w))"
    unfolding G_def
    using handleJobFailed_statuses[OF assms, of P now event] statuses_ok_weaken by auto
  have "G (snd (handleFirecrawlWebhook P now event w))"
    unfolding handleFirecrawlWebhook_def
    using other[OF st] other[OF co] other[OF ex] other[OF refl refl] pg fl
    by auto
  then show ?thesis unfolding G_def .
qed

lemma page_event_writes:
  "url_status_writes (snd (handleFirecrawlWebhook test_platform 1000
       (event_of_type ''batch_scrape.page'') discovered_world))
     = [''scraped'', ''uploading'', ''uploaded'']"
  by (simp add: handleFirecrawlWebhook_def handlePageScraped_def uploadPageToR2_def
      event_of_type_def discovered_world_def falsy_str_def str_or_def str_or_default_def Let_def
      uploadBrandContent_def upload_loop.simps BATCH_SIZE_def upload_batch_def
      upload_check_def upload_write_def
      options_overwrite_def record_result_def test_platform_def
      split: sum.splits prod.splits)

text \<open>
  Claim C1 as stated fails: for a page event on a discovered row the handler writes
  \<open>scraped\<close>, then \<open>uploading\<close>, then \<open>uploaded\<close>, and \<open>scraped\<close> is not a member
  of the set.
\<close>

theorem page_event_writes_scraped:
  "url_status_writes (snd (handleFirecrawlWebhook test_platform 1000
       (event_of_type ''batch_scrape.page'') discovered_world))
     = [''scraped'', ''uploading'', ''uploaded'']
   \<and> ''scraped'' \<notin> set brand_url_statuses"
  using page_event_writes by (simp add: brand_url_statuses_def)

text \<open>
  When the update that writes \<open>scraped\<close> is applied and the later updates fail, the row
  is left at \<open>scraped\<close>.
\<close>

lemma page_event_row_stays_scraped:
  "statuses_ok discovered_world
   \<and> map u_status (brand_urls (snd (handleFirecrawlWebhook later_updates_fail 1000
        (event_of_type ''batch_scrape.page'') discovered_world))) = [''scraped'']"
  by (simp add: handleFirecrawlWebhook_def handlePageScraped_def uploadPageToR2_def
      event_of_type_def discovered_world_def falsy_str_def str_or_def str_or_default_def Let_def
      uploadBrandContent_def upload_loop.simps BATCH_SIZE_def upload_batch_def
      upload_check_def upload_write_def
      options_overwrite_def record_result_def test_platform_def later_updates_fail_def
      update_brand_urls_def statuses_ok_def brand_url_statuses_def
      split: sum.splits prod.splits)

text \<open>
  The amended claim C1 at a page event on a world with one discovered row, where no
  update fails.
\<close>

theorem webhook_statuses_witness:
  "statuses_ok discovered_world
   \<and> statuses_ok (snd (handleFirecrawlWebhook test_platform 1000
        (event_of_type ''batch_scrape.page'') discovered_world))"
proof -
  have h: "statuses_ok discovered_world"
    by (simp add: statuses_ok_def discovered_world_def brand_url_statuses_def)
  have f: "\<not> db_update_error test_platform ''brand_urls'' ''uploading''"
    by (simp add: test_platform_def)
  from webhook_statuses[OF h, of test_platform 1000 "event_of_type ''batch_scrape.page''"] h f
  show ?thesis by blast
qed

subsection \<open>Extraction results: webhook and reconciler\<close>

text \<open>
  Claim C3 as stated fails: for the same brand and the same, empty, extraction result the
  webhook branch stores the industry \<open>Various\<close> and the reconciler stores
  \<open>Technology\<close>.
\<close>

theorem extract_paths_differ_on_industry:
  "b_metadata (hd (brands (snd (handleFirecrawlWebhook test_platform 1000
       extract_completed_event extracting_world)))) ''industry'' = Some (JStr ''Various'')
   \<and> b_metadata (hd (brands (processPendingExtractJobs test_platform completed_firecrawl 1000
       extracting_world))) ''industry'' = Some (JStr ''Technology'')"
proof -
  have a: "b_metadata (hd (brands (snd (handleFirecrawlWebhook test_platform 1000
       extract_completed_event extracting_world)))) ''industry'' = Some (JStr ''Various'')"
    by (simp add: handleFirecrawlWebhook_def handleExtractCompleted_def extract_completed_event_def
        extracting_world_def falsy_str_def str_or_default_def update_brands_def
        apply_brand_update_def webhook_extract_update_def js_or_def Let_def test_platform_def
        object_or_empty_def)
  have p: "filter (\<lambda>b. b_crawl_status b = ''extracting'' \<and> b_metadata b ''extractJobId'' \<noteq> None)
             (brands extracting_world) = brands extracting_world"
    by (simp add: extracting_world_def placeholder_metadata_def)
  have b: "b_metadata (hd (brands (processPendingExtractJobs test_platform completed_firecrawl 1000
       extracting_world))) ''industry'' = Some (JStr ''Technology'')"
    unfolding processPendingExtractJobs_def p
    by (simp add: extracting_world_def process_pending_brand_def placeholder_metadata_def
        completed_firecrawl_def update_brands_def apply_brand_update_def cron_extract_update_def
        js_or_def Let_def test_platform_def object_or_empty_def)
  from a b show ?thesis by simp
qed

text \<open>The two update objects, for the same extraction result and domain.\<close>

lemma extract_update_fields:
  "bu_name (webhook_extract_update P now_w extractedData domain)
     = bu_name (cron_extract_update P now_c extractedData domain)"
  "bu_description (webhook_extract_update P now_w extractedData domain)
     = bu_description (cron_extract_update P now_c extractedData domain)"
  "bu_logo_url (webhook_extract_update P now_w extractedData domain)
     = bu_logo_url (cron_extract_update P now_c extractedData domain)"
  "bu_crawl_status (webhook_extract_update P now_w extractedData domain) = ''processing''"
  "bu_crawl_status (cron_extract_update P now_c extractedData domain) = ''processing''"
  "bu_updated_at (webhook_extract_update P now_w extractedData domain) = toISOString P now_w"
  "bu_updated_at (cron_extract_update P now_c extractedData domain) = toISOString P now_c"
  by (simp_all add: webhook_extract_update_def cron_extract_update_def Let_def)

lemma extract_update_metadata:
  "k \<notin> set [''industry'', ''worker_processed'', ''playground_scan'', ''cronProcessed'',
              ''extractCompletedAt'']
   \<Longrightarrow> bu_metadata (webhook_extract_update P now_w extractedData domain) k
       = bu_metadata (cron_extract_update P now_c extractedData domain) k"
  "bu_metadata (webhook_extract_update P now_w extractedData domain) ''extractCompletedAt''
     = Some (JStr (toISOString P now_w))"
  "bu_metadata (cron_extract_update P now_c extractedData domain) ''extractCompletedAt''
     = Some (JStr (toISOString P now_c))"
  "extractedData ''industry'' = Some v \<Longrightarrow> truthy v
   \<Longrightarrow> bu_metadata (webhook_extract_update P now_w extractedData domain) ''industry''
       = bu_metadata (cron_extract_update P now_c extractedData domain) ''industry''"
  by (auto simp: webhook_extract_update_def cron_extract_update_def Let_def js_or_def)

text \<open>
  Claim C3, as amended. The same extraction result \<open>data\<close> reaches the webhook branch in
  an \<open>extract.completed\<close> event of the domain and the reconciler as the status of the
  job of a pending brand of that domain, and the updates of \<open>brands\<close> are applied. The
  webhook branch, running at \<open>now_w\<close>, updates every public brand row without owner of
  the domain; the reconciler, running at \<open>now_c\<close>, updates the rows with the id of the
  pending brand. The two update objects have the same name, description, logo URL and
  crawl status (\<open>processing\<close>), and their metadata agree on every key other than
  \<open>industry\<close>, the flags each path sets (\<open>worker_processed\<close>, \<open>playground_scan\<close>,
  \<open>cronProcessed\<close>) and \<open>extractCompletedAt\<close>; they agree on \<open>industry\<close> too when the
  extraction result has a truthy industry; \<open>extractCompletedAt\<close> and \<open>updated_at\<close> are
  each path's own reading of the clock.
\<close>

theorem extract_updates_agree:
  assumes "ev_type event = ''extract.completed''"
      and "em_jobType (ev_metadata event) = Some ''brandExtraction''"
      and "\<not> falsy_str (em_brandId (ev_metadata event))"
      and "em_domain (ev_metadata event) = Some domain" and "domain \<noteq> []"
      and "ev_data event = Some (first # rest)" and "d_data first = data"
      and "b_primary_domain brand = domain"
      and "b_metadata brand ''extractJobId'' = Some jobId" and "truthy jobId"
      and "fc_getExtractStatus F jobId = Inr (''completed'', data)"
      and "\<not> db_update_error P ''brands'' ''processing''"
  shows "brands (snd (handleFirecrawlWebhook P now_w event w))
           = map (\<lambda>b. if b_primary_domain b = domain \<and> b_is_public b \<and> b_owner_id b = None
                       then apply_brand_update
                              (webhook_extract_update P now_w (object_or_empty data) domain) b
                       else b) (brands w)
         \<and> brands (process_pending_brand P F now_c brand w)
           = map (\<lambda>b. if b_id b = b_id brand
                       then apply_brand_update
                              (cron_extract_update P now_c (object_or_empty data) domain) b
                       else b) (brands w)
         \<and> bu_name (webhook_extract_update P now_w (object_or_empty data) domain)
           = bu_name (cron_extract_update P now_c (object_or_empty data) domain)
         \<and> bu_description (webhook_extract_update P now_w (object_or_empty data) domain)
           = bu_description (cron_extract_update P now_c (object_or_empty data) domain)
         \<and> bu_logo_url (webhook_extract_update P now_w (object_or_empty data) domain)
           = bu_logo_url (cron_extract_update P now_c (object_or_empty data) domain)
         \<and> bu_crawl_status (webhook_extract_update P now_w (object_or_empty data) domain)
           = ''processing''
         \<and> bu_crawl_status (cron_extract_update P now_c (object_or_empty data) domain)
           = ''processing''
         \<and> (\<forall>k. k \<notin> set [''industry'', ''worker_processed'', ''playground_scan'',
                          ''cronProcessed'', ''extractCompletedAt'']
              \<longrightarrow> bu_metadata (webhook_extract_update P now_w (object_or_empty data) domain) k
                  = bu_metadata (cron_extract_update P now_c (object_or_empty data) domain) k)
         \<and> ((\<exists>v. object_or_empty data ''industry'' = Some v \<and> truthy v)
              \<longrightarrow> bu_metadata (webhook_extract_update P now_w (object_or_empty data) domain)
                    ''industry''
                  = bu_metadata (cron_extract_update P now_c (object_or_empty data) domain)
                      ''industry'')
         \<and> bu_metadata (webhook_extract_update P now_w (object_or_empty data) domain)
              ''extractCompletedAt'' = Some (JStr (toISOString P now_w))
         \<and> bu_metadata (cron_extract_update P now_c (object_or_empty data) domain)
              ''extractCompletedAt'' = Some (JStr (toISOString P now_c))
         \<and> bu_updated_at (webhook_extract_update P now_w (object_or_empty data) domain)
           = toISOString P now_w
         \<and> bu_updated_at (cron_extract_update P now_c (object_or_empty data) domain)
           = toISOString P now_c"
proof -
  have d: "\<not> falsy_str (em_domain (ev_metadata event))"
      "str_or_default (em_domain (ev_metadata event)) [] = domain"
    using assms(4,5) by (simp_all add: falsy_str_def str_or_default_def)
  have ty: "ev_type event \<noteq> ''crawl.started''" "ev_type event \<noteq> ''batch_scrape.started''"
      "ev_type event \<noteq> ''crawl.page''" "ev_type event \<noteq> ''batch_scrape.page''"
      "ev_type event \<noteq> ''crawl.completed''" "ev_type event \<noteq> ''batch_scrape.completed''"
    using assms(1) by simp_all
  have wh: "handleFirecrawlWebhook P now_w event w = handleExtractCompleted P now_w event w"
    using assms(1,3) d(1) ty by (simp add: handleFirecrawlWebhook_def)
  have 1: "brands (snd (handleFirecrawlWebhook P now_w event w))
           = map (\<lambda>b. if b_primary_domain b = domain \<and> b_is_public b \<and> b_owner_id b = None
                       then apply_brand_update
                              (webhook_extract_update P now_w (object_or_empty data) domain) b
                       else b) (brands w)"
    unfolding wh using assms(2,6,7,12) d(2)
    by (simp add: handleExtractCompleted_def Let_def update_brands_def)
  have 2: "brands (process_pending_brand P F now_c brand w)
           = map (\<lambda>b. if b_id b = b_id brand
                       then apply_brand_update
                              (cron_extract_update P now_c (object_or_empty data) domain) b
                       else b) (brands w)"
    using assms(8,9,10,11,12)
    by (simp add: process_pending_brand_def Let_def update_brands_def)
  show ?thesis
    using 1 2 by (auto simp: extract_update_fields extract_update_metadata)
qed

text \<open>
  The amended claim C3 at a pending brand whose extraction result is empty, with the
  webhook branch running a minute before the reconciler.
\<close>

theorem extract_updates_agree_witness:
  "map b_name (brands (snd (handleFirecrawlWebhook test_platform 1000 extract_completed_event
       extracting_world)))
     = map b_name (brands (process_pending_brand test_platform completed_firecrawl 61000
         (hd (brands extracting_world)) extracting_world))
   \<and> bu_updated_at (webhook_extract_update test_platform 1000 Map.empty ''acme.com'')
       = toISOString test_platform 1000
   \<and> bu_updated_at (cron_extract_update test_platform 61000 Map.empty ''acme.com'')
       = toISOString test_platform 61000"
proof -
  let ?brand = "hd (brands extracting_world)"
  let ?first = "\<lparr>d_sourceURL = None, d_url = None, d_title = None, d_markdown = None,
                       d_images = None, d_data = Some Map.empty\<rparr>"
  have h: "ev_type extract_completed_event = ''extract.completed''"
      "em_jobType (ev_metadata extract_completed_event) = Some ''brandExtraction''"
      "\<not> falsy_str (em_brandId (ev_metadata extract_completed_event))"
      "em_domain (ev_metadata extract_completed_event) = Some ''acme.com''"
      "''acme.com'' \<noteq> []"
      "ev_data extract_completed_event = Some (?first # [])"
      "d_data ?first = Some Map.empty"
    by (simp_all add: extract_completed_event_def falsy_str_def)
  have g: "b_primary_domain ?brand = ''acme.com''"
      "b_metadata ?brand ''extractJobId'' = Some (JStr ''job1'')" "truthy (JStr ''job1'')"
      "fc_getExtractStatus completed_firecrawl (JStr ''job1'') = Inr (''completed'', Some Map.empty)"
      "\<not> db_update_error test_platform ''brands'' ''processing''"
    by (simp_all add: extracting_world_def placeholder_metadata_def completed_firecrawl_def
        test_platform_def)
  note t = extract_updates_agree[OF h g, of 1000 extracting_world 61000]
  have e: "object_or_empty (Some Map.empty) = Map.empty" by (simp add: object_or_empty_def)
  note t1 = t[THEN conjunct1, unfolded e]
  note t2 = t[THEN conjunct2, THEN conjunct1, unfolded e]
  note t3 = t[THEN conjunct2, THEN conjunct2, THEN conjunct1, unfolded e]
  have n: "map b_name (brands (snd (handleFirecrawlWebhook test_platform 1000
              extract_completed_event extracting_world)))
     = map b_name (brands (process_pending_brand test_platform completed_firecrawl 61000
         ?brand extracting_world))"
    unfolding t1 t2 using t3 by (simp add: extracting_world_def apply_brand_update_def)
  show ?thesis using n by (simp add: extract_update_fields)
qed

subsection \<open>Progress of a discovery run\<close>

lemma update_mapping_rel:
  assumes "\<And>m. step_rel e m ((g m)\<lparr>m_status := s\<rparr>)"
  shows "list_all2 (step_rel e) (mappings w) (mappings (update_mapping P i s g w))"
  using assms by (auto simp: update_mapping_def list_all2_map2 step_rel_def intro!: list_all2_refl)

lemma same_mappings_rel:
  "mappings w' = mappings w \<Longrightarrow> list_all2 (step_rel e) (mappings w) (mappings w')"
  by (auto simp: step_rel_def intro!: list_all2_refl)

lemma uploadPageToR2_mappings [simp]:
  "mappings (uploadPageToR2 P now page url brandId domain w) = mappings w"
  by (simp add: uploadPageToR2_def Let_def split: sum.splits prod.splits list.splits)

lemma handlePageScraped_mappings:
  "mappings (snd (handlePageScraped P now event w)) = mappings w"
  by (simp add: handlePageScraped_def Let_def split: option.splits list.splits)

lemma handleExtractCompleted_mappings:
  "mappings (snd (handleExtractCompleted P now event w)) = mappings w"
  by (simp add: handleExtractCompleted_def Let_def split: option.splits list.splits)

lemma handleJobFailed_rel:
  "list_all2 (step_rel e) (mappings w) (mappings (snd (handleJobFailed P now event w)))"
proof (cases "falsy_str (em_mappingId (ev_metadata event))")
  case True
  then show ?thesis by (simp add: handleJobFailed_def Let_def same_mappings_rel)
next
  case False
  then show ?thesis
    by (simp add: handleJobFailed_def Let_def) (rule update_mapping_rel, simp add: step_rel_def)
qed

lemma handleJobStarted_rel:
  assumes "started_event e"
  shows "list_all2 (step_rel e) (mappings w) (mappings (snd (handleJobStarted P event w)))"
proof (cases "falsy_str (em_mappingId (ev_metadata event))")
  case True
  then show ?thesis by (simp add: handleJobStarted_def Let_def same_mappings_rel)
next
  case False
  then show ?thesis using assms
    by (simp add: handleJobStarted_def Let_def) (rule update_mapping_rel, simp add: step_rel_def)
qed

lemma handleJobCompleted_rel:
  assumes "completed_event e"
  shows "list_all2 (step_rel e) (mappings w) (mappings (snd (handleJobCompleted P now event w)))"
proof (cases "falsy_str (em_mappingId (ev_metadata event))")
  case True
  then show ?thesis by (simp add: handleJobCompleted_def Let_def same_mappings_rel)
next
  case False
  then show ?thesis using assms
    by (simp add: handleJobCompleted_def Let_def) (rule update_mapping_rel, simp add: step_rel_def)
qed

lemma webhook_step_rel:
  "list_all2 (step_rel e) (mappings w) (mappings (snd (handleFirecrawlWebhook P now e w)))"
proof -
  have pg: "list_all2 (step_rel e) (mappings w) (mappings (snd (handlePageScraped P now e w)))"
    by (rule same_mappings_rel) (rule handlePageScraped_mappings)
  have ex: "list_all2 (step_rel e) (mappings w) (mappings (snd (handleExtractCompleted P now e w)))"
    by (rule same_mappings_rel) (rule handleExtractCompleted_mappings)
  have sm: "list_all2 (step_rel e) (mappings w) (mappings w)"
    by (rule same_mappings_rel) simp
  show ?thesis
    unfolding handleFirecrawlWebhook_def
    using handleJobStarted_rel[where e=e and w=w and P=P and event=e]
      handleJobCompleted_rel[where e=e and w=w and P=P and now=now and event=e]
      handleJobFailed_rel[where e=e and w=w and P=P and now=now and event=e]
      pg ex sm
    by (auto simp: started_event_def completed_event_def)
qed

lemma not_both: "started_event e \<Longrightarrow> \<not> completed_event e"
  by (auto simp: started_event_def completed_event_def)

lemma progress_order_general:
  assumes "in_pipeline_order evs"
      and "progress_below 100 mid w"
      and "progress_below 50 mid w \<or> list_all (\<lambda>e. \<not> started_event e) evs"
  shows "progress_never_decreases P now mid evs w"
  using assms
proof (induction evs arbitrary: w)
  case Nil
  then show ?case by simp
next
  case (Cons e es)
  define w' where "w' = snd (handleFirecrawlWebhook P now e w)"
  have rel: "list_all2 (step_rel e) (mappings w) (mappings w')"
    unfolding w'_def by (rule webhook_step_rel)
  have st50: "started_event e \<Longrightarrow> progress_below 50 mid w"
    using Cons.prems(3) by auto
  have keep: "keeps_progress mid w w'"
    unfolding keeps_progress_def
  proof (rule list.rel_mono_strong[OF rel])
    fix m m' assume mm: "m \<in> set (mappings w)" "m' \<in> set (mappings w')" "step_rel e m m'"
    have b100: "m_id m = mid \<Longrightarrow> m_progress_percentage m \<le> 100"
      using Cons.prems(2) mm(1) by (auto simp: progress_below_def list_all_iff)
    have b50: "started_event e \<Longrightarrow> m_id m = mid \<Longrightarrow> m_progress_percentage m \<le> 50"
      using st50 mm(1) by (auto simp: progress_below_def list_all_iff)
    show "m_id m' = m_id m
                  \<and> (if m_id m = mid then m_progress_percentage m \<le> m_progress_percentage m'
                     else True)"
      using mm(3) b100 b50 by (auto simp: step_rel_def)
  qed
  have below100: "progress_below 100 mid w'"
    unfolding progress_below_def list_all_iff
  proof
    fix m' assume "m' \<in> set (mappings w')"
    then obtain m where m: "m \<in> set (mappings w)" "step_rel e m m'"
      using rel by (metis in_set_conv_nth list_all2_conv_all_nth)
    have "m_id m = mid \<Longrightarrow> m_progress_percentage m \<le> 100"
      using Cons.prems(2) m(1) by (auto simp: progress_below_def list_all_iff)
    then show "if m_id m' = mid then m_progress_percentage m' \<le> 100 else True"
      using m(2) by (auto simp: step_rel_def)
  qed
  have next3: "progress_below 50 mid w' \<or> list_all (\<lambda>e. \<not> started_event e) es"
  proof (cases "completed_event e")
    case True
    then show ?thesis using Cons.prems(1) by simp
  next
    case False
    show ?thesis
    proof (cases "list_all (\<lambda>e. \<not> started_event e) (e # es)")
      case True
      then show ?thesis by simp
    next
      case nl: False
      then have b: "progress_below 50 mid w" using Cons.prems(3) by blast
      have "progress_below 50 mid w'"
        unfolding progress_below_def list_all_iff
      proof
        fix m' assume "m' \<in> set (mappings w')"
        then obtain m where m: "m \<in> set (mappings w)" "step_rel e m m'"
          using rel by (metis in_set_conv_nth list_all2_conv_all_nth)
        have "m_id m = mid \<Longrightarrow> m_progress_percentage m \<le> 50"
          using b m(1) by (auto simp: progress_below_def list_all_iff)
        then show "if m_id m' = mid then m_progress_percentage m' \<le> 50 else True"
          using m(2) False by (auto simp: step_rel_def)
      qed
      then show ?thesis by simp
    qed
  qed
  have io: "in_pipeline_order es" using Cons.prems(1) by simp
  have "progress_never_decreases P now mid es w'"
    by (rule Cons.IH[OF io below100 next3])
  then show ?case using keep by (simp add: w'_def)
qed

lemma progress_after_setup:
  assumes "in_pipeline_order evs"
      and "progress_below 50 mid w"
  shows "progress_never_decreases P now mid evs w"
proof -
  have "progress_below 100 mid w"
    using assms(2) by (auto simp: progress_below_def list_all_iff split: if_splits)
  then show ?thesis using assms by (intro progress_order_general) auto
qed

lemma completed_then_started:
  "map m_progress_percentage (mappings (snd (handleFirecrawlWebhook test_platform 1000
       (event_of_type ''batch_scrape.completed'') discovered_world))) = [100]
   \<and> map m_progress_percentage (mappings (snd (handleFirecrawlWebhook test_platform 1001
       (event_of_type ''batch_scrape.started'')
       (snd (handleFirecrawlWebhook test_platform 1000
          (event_of_type ''batch_scrape.completed'') discovered_world))))) = [50]"
  by (simp add: handleFirecrawlWebhook_def handleJobCompleted_def handleJobStarted_def
      event_of_type_def discovered_world_def falsy_str_def update_mapping_def Let_def
      test_platform_def)

text \<open>
  Claim C4 as stated fails: the handlers write their constant whatever is stored. On a
  mapping at 40, a completed event writes 100 and a started event delivered after it
  writes 50.
\<close>

theorem progress_decreases_out_of_order:
  "map m_progress_percentage (mappings discovered_world) = [40]
   \<and> map m_progress_percentage (mappings (snd (handleFirecrawlWebhook test_platform 1000
       (event_of_type ''batch_scrape.completed'') discovered_world))) = [100]
   \<and> map m_progress_percentage (mappings (snd (handleFirecrawlWebhook test_platform 1001
       (event_of_type ''batch_scrape.started'')
       (snd (handleFirecrawlWebhook test_platform 1000
          (event_of_type ''batch_scrape.completed'') discovered_world))))) = [50]"
  using completed_then_started by (simp add: discovered_world_def)

lemma update_mapping_ids [simp]:
  "map m_id (mappings (update_mapping P i s g w)) = map m_id (mappings w)"
  if "\<And>m. m_id (g m) = m_id m"
  using that by (simp add: update_mapping_def comp_def)

lemma upsert_mapping_present:
  assumes "upsert_mapping P D now brandId domain w = (Some m, w1)"
  shows "\<exists>r \<in> set (mappings w1). m_id r = m_id m"
proof (cases "find (\<lambda>m. m_brand_id m = brandId \<and> m_domain m = domain) (mappings w)")
  case None
  then show ?thesis using assms by (auto simp: upsert_mapping_def Let_def)
next
  case (Some m0)
  then have in0: "m0 \<in> set (mappings w)" and ma: "m_brand_id m0 = brandId \<and> m_domain m0 = domain"
    by (auto simp: find_Some_iff)
  define written :: "mapping_row \<Rightarrow> mapping_row" where "written = (\<lambda>m. m\<lparr>m_status := ''processing'', m_progress_percentage := 30,
                           m_current_step := ''Worker processing - Discovering URLs...'',
                           m_started_at := Some (toISOString P now),
                           m_updated_at := Some (toISOString P now)\<rparr>)"
  have m: "m = written m0" and w1: "mappings w1 = map (\<lambda>m'. if m_brand_id m' = brandId \<and> m_domain m' = domain
                                      then written m' else m') (mappings w)"
    using assms Some by (auto simp: upsert_mapping_def Let_def written_def)
  have "written m0 \<in> set (mappings w1)"
    unfolding w1 using in0 ma by (auto simp: image_iff intro!: bexI[of _ m0])
  then show ?thesis using m by blast
qed

lemma setup_mapping_present:
  assumes "discovery_setup P F D now domain w = (Inr (extractJobId, brand, Some m), w1)"
  shows "\<exists>r \<in> set (mappings w1). m_id r = m_id m"
proof -
  from assms obtain w0 where "upsert_mapping P D now (b_id brand) domain w0 = (Some m, w1)"
    by (auto simp: discovery_setup_def Let_def
        split: option.splits if_splits sum.splits prod.splits)
  then show ?thesis by (rule upsert_mapping_present)
qed

lemma storeDiscoveredUrls_ids:
  "map m_id (mappings (storeDiscoveredUrls P D links config w)) = map m_id (mappings w)"
  by (simp add: storeDiscoveredUrls_def Let_def)

lemma startAsyncBrandPipeline_ids:
  "map m_id (mappings (snd (startAsyncBrandPipeline P F D config w))) = map m_id (mappings w)"
  by (simp add: startAsyncBrandPipeline_def Let_def storeDiscoveredUrls_ids
      split: sum.splits option.splits list.splits prod.splits)

lemma setup_failure_response:
  "discovery_setup P F D now domain w = (Inl response, w1) \<Longrightarrow> \<not> dr_success response"
  by (auto simp: discovery_setup_def Let_def failure_def caught_def
        split: option.splits if_splits sum.splits prod.splits)

lemma setup_result:
  "(\<exists>x. fst (discovery_setup P F D now domain w) = Inr x)
     \<longleftrightarrow> \<not> (falsy_str (startAsyncBrandExtraction F domain)
             \<or> ((find_existing_brand domain w = None \<or> brand_update_error D)
                 \<and> (brand_insert_error D \<noteq> None \<or> brand_insert_empty D))
             \<or> mapping_upsert_error D)"
  by (auto simp: discovery_setup_def Let_def falsy_str_def
        split: option.splits if_splits sum.splits prod.splits)

text \<open>
  Claim C7, as amended. The response has \<open>success = false\<close> exactly when a step before
  the launch fails: no extraction job id is returned, or the brand has to be inserted
  and the insert reports an error (the only case that goes through the \<open>catch\<close>
  block) or returns no row, or the upsert of the progress row reports an error; all but
  the insert's error are early returns without an exception. The launch cannot turn \<open>success\<close> false: when the steps before
  it succeeded, the progress row has an id and the launch returns an error, the response
  is the successful one with the brand and the mapping. The mapping row is then in the
  database; it has status \<open>failed\<close> and that error message when the message is not
  empty and the update is applied, and it is left as the launch left it when the message
  is empty or the update fails.
\<close>

theorem launch_failure_keeps_success:
  "(\<not> dr_success (fst (processUnifiedBrandDiscovery P F D base_url now domain w))
      \<longleftrightarrow> falsy_str (startAsyncBrandExtraction F domain)
          \<or> ((find_existing_brand domain w = None \<or> brand_update_error D)
              \<and> (brand_insert_error D \<noteq> None \<or> brand_insert_empty D))
          \<or> mapping_upsert_error D)
   \<and> (discovery_setup P F D now domain w = (Inr (extractJobId, brand, Some m), w1)
        \<and> m_id m \<noteq> []
        \<and> startAsyncBrandPipeline P F D
             \<lparr>cfg_brandId = b_id brand, cfg_domain = domain, cfg_mappingId = m_id m,
              cfg_webhookUrl = base_url @ ''/webhook/firecrawl''\<rparr> w1 = (asyncResult, w2)
        \<and> ar_error asyncResult = Some err
      \<longrightarrow> fst (processUnifiedBrandDiscovery P F D base_url now domain w)
            = \<lparr>dr_success = True, dr_brand = Some brand, dr_mapping = Some m,
               dr_extractJobId = Some extractJobId, dr_error = None, dr_details = None\<rparr>
          \<and> (\<exists>r \<in> set (mappings (snd (processUnifiedBrandDiscovery P F D base_url now domain w))).
                m_id r = m_id m)
          \<and> (err \<noteq> [] \<and> \<not> db_update_error P ''playground_url_mappings'' ''failed''
              \<longrightarrow> list_all (\<lambda>r. if m_id r = m_id m
                                then m_status r = ''failed'' \<and> m_error_message r = Some err
                                else True)
                    (mappings (snd (processUnifiedBrandDiscovery P F D base_url now domain w))))
          \<and> (err = [] \<or> db_update_error P ''playground_url_mappings'' ''failed''
              \<longrightarrow> snd (processUnifiedBrandDiscovery P F D base_url now domain w) = w2))"
proof (intro conjI impI)
  have "dr_success (fst (processUnifiedBrandDiscovery P F D base_url now domain w))
      \<longleftrightarrow> (\<exists>x. fst (discovery_setup P F D now domain w) = Inr x)"
  proof (cases "discovery_setup P F D now domain w")
    case (Pair r w1)
    show ?thesis
    proof (cases r)
      case (Inl response)
      then show ?thesis using Pair setup_failure_response[of P F D now domain w response w1]
        by (simp add: processUnifiedBrandDiscovery_def)
    next
      case (Inr x)
      then show ?thesis using Pair
        by (simp add: processUnifiedBrandDiscovery_def Let_def split: prod.splits)
    qed
  qed
  then show "(\<not> dr_success (fst (processUnifiedBrandDiscovery P F D base_url now domain w)))
      \<longleftrightarrow> (falsy_str (startAsyncBrandExtraction F domain)
          \<or> ((find_existing_brand domain w = None \<or> brand_update_error D)
              \<and> (brand_insert_error D \<noteq> None \<or> brand_insert_empty D))
          \<or> mapping_upsert_error D)"
    unfolding setup_result by simp
next
  assume a: "discovery_setup P F D now domain w = (Inr (extractJobId, brand, Some m), w1)
        \<and> m_id m \<noteq> []
        \<and> startAsyncBrandPipeline P F D
             \<lparr>cfg_brandId = b_id brand, cfg_domain = domain, cfg_mappingId = m_id m,
              cfg_webhookUrl = base_url @ ''/webhook/firecrawl''\<rparr> w1 = (asyncResult, w2)
        \<and> ar_error asyncResult = Some err"
  define w3 where "w3 = (if err = [] then w2
             else update_mapping P (m_id m) ''failed'' (\<lambda>r. r\<lparr>m_error_message := Some err\<rparr>) w2)"
  have res: "processUnifiedBrandDiscovery P F D base_url now domain w
      = (\<lparr>dr_success = True, dr_brand = Some brand, dr_mapping = Some m,
               dr_extractJobId = Some extractJobId, dr_error = None, dr_details = None\<rparr>, w3)"
    using a by (simp add: processUnifiedBrandDiscovery_def Let_def w3_def)
  show "fst (processUnifiedBrandDiscovery P F D base_url now domain w)
            = \<lparr>dr_success = True, dr_brand = Some brand, dr_mapping = Some m,
               dr_extractJobId = Some extractJobId, dr_error = None, dr_details = None\<rparr>"
    by (simp add: res)
  have p1: "\<exists>r \<in> set (mappings w1). m_id r = m_id m"
    using a setup_mapping_present by blast
  have w2: "w2 = snd (startAsyncBrandPipeline P F D
             \<lparr>cfg_brandId = b_id brand, cfg_domain = domain, cfg_mappingId = m_id m,
              cfg_webhookUrl = base_url @ ''/webhook/firecrawl''\<rparr> w1)"
    using a by simp
  have "map m_id (mappings w2) = map m_id (mappings w1)"
    unfolding w2 by (rule startAsyncBrandPipeline_ids)
  then have "map m_id (mappings w3) = map m_id (mappings w1)" by (simp add: w3_def)
  then have "set (map m_id (mappings w3)) = set (map m_id (mappings w1))" by simp
  moreover have "m_id m \<in> set (map m_id (mappings w1))"
  proof -
    obtain r where r: "r \<in> set (mappings w1)" "m_id r = m_id m" using p1 by blast
    have "m_id r \<in> m_id ` set (mappings w1)" using r(1) by (rule imageI)
    then show ?thesis using r(2) by simp
  qed
  ultimately have "m_id m \<in> set (map m_id (mappings w3))" by simp
  then have "\<exists>r \<in> set (mappings w3). m_id r = m_id m" by auto
  then show "\<exists>r \<in> set (mappings (snd (processUnifiedBrandDiscovery P F D base_url now domain w))).
                m_id r = m_id m"
    unfolding res by simp
  show "list_all (\<lambda>r. if m_id r = m_id m
                           then m_status r = ''failed'' \<and> m_error_message r = Some err
                           else True)
              (mappings (snd (processUnifiedBrandDiscovery P F D base_url now domain w)))"
    if "err \<noteq> [] \<and> \<not> db_update_error P ''playground_url_mappings'' ''failed''"
    unfolding res using that by (auto simp: w3_def update_mapping_def list_all_iff)
  show "snd (processUnifiedBrandDiscovery P F D base_url now domain w) = w2"
    if "err = [] \<or> db_update_error P ''playground_url_mappings'' ''failed''"
    unfolding res using that by (auto simp: w3_def update_mapping_def)
qed

lemma upsert_mapping_progress:
  assumes "upsert_mapping P D now brandId domain w = (Some m, w1)"
      and "distinct (map m_id (mappings w))"
      and "new_mapping_id D \<notin> set (map m_id (mappings w))"
  shows "progress_in [30] (m_id m) w1"
proof (cases "find (\<lambda>m. m_brand_id m = brandId \<and> m_domain m = domain) (mappings w)")
  case None
  have fresh: "\<And>r. r \<in> set (mappings w) \<Longrightarrow> m_id r \<noteq> new_mapping_id D"
    using assms(3) by (metis imageI set_map)
  show ?thesis using assms(1) None fresh
    by (auto simp: upsert_mapping_def Let_def progress_in_def list_all_iff)
next
  case (Some m0)
  then have in0: "m0 \<in> set (mappings w)" and ma: "m_brand_id m0 = brandId \<and> m_domain m0 = domain"
    by (auto simp: find_Some_iff)
  define written :: "mapping_row \<Rightarrow> mapping_row" where "written = (\<lambda>m. m\<lparr>m_status := ''processing'', m_progress_percentage := 30,
                           m_current_step := ''Worker processing - Discovering URLs...'',
                           m_started_at := Some (toISOString P now),
                           m_updated_at := Some (toISOString P now)\<rparr>)"
  have m: "m = written m0" and w1: "mappings w1 = map (\<lambda>m'. if m_brand_id m' = brandId \<and> m_domain m' = domain
                                      then written m' else m') (mappings w)"
    using assms(1) Some by (auto simp: upsert_mapping_def Let_def written_def)
  have inj: "\<And>r. r \<in> set (mappings w) \<Longrightarrow> m_id r = m_id m0 \<Longrightarrow> r = m0"
    using assms(2) in0 by (meson distinct_map inj_onD)
  have idw: "\<And>r. m_id (written r) = m_id r" by (simp add: written_def)
  show ?thesis
    unfolding progress_in_def list_all_iff w1 m
  proof
    fix r' assume "r' \<in> set (map (\<lambda>m'. if m_brand_id m' = brandId \<and> m_domain m' = domain
                                      then written m' else m') (mappings w))"
    then obtain r where r: "r \<in> set (mappings w)"
        "r' = (if m_brand_id r = brandId \<and> m_domain r = domain then written r else r)"
      by auto
    show "if m_id r' = m_id (written m0) then m_progress_percentage r' \<in> set [30] else True"
    proof (cases "m_id r' = m_id (written m0)")
      case False
      then show ?thesis by simp
    next
      case True
      then have "m_id r = m_id m0" using r(2) idw by (auto split: if_splits)
      then have "r = m0" using inj r(1) by blast
      then have "r' = written m0" using r(2) ma by simp
      then show ?thesis by (simp add: written_def)
    qed
  qed
qed

lemma setup_progress:
  assumes "discovery_setup P F D now domain w = (Inr (extractJobId, brand, Some m), w1)"
      and "distinct (map m_id (mappings w))"
      and "new_mapping_id D \<notin> set (map m_id (mappings w))"
  shows "progress_in [30] (m_id m) w1"
proof -
  from assms(1) obtain w0 where u: "upsert_mapping P D now (b_id brand) domain w0 = (Some m, w1)"
      and "mappings w0 = mappings w"
    by (auto simp: discovery_setup_def Let_def
        split: option.splits if_splits sum.splits prod.splits)
  then show ?thesis using upsert_mapping_progress[OF u] assms(2,3) by simp
qed

lemma update_mapping_progress_in:
  assumes "progress_in vs mid w" and "\<And>m. m_id (g m) = m_id m"
      and "\<And>m. m_progress_percentage (g m) = m_progress_percentage m \<or> m_progress_percentage (g m) \<in> set vs"
  shows "progress_in vs mid (update_mapping P i s g w)"
proof (cases "db_update_error P ''playground_url_mappings'' s")
  case True
  then show ?thesis using assms(1) by (simp add: update_mapping_def)
next
  case False
  show ?thesis
    unfolding progress_in_def list_all_iff
  proof
    fix r' assume "r' \<in> set (mappings (update_mapping P i s g w))"
    then obtain r where r: "r \<in> set (mappings w)"
        "r' = (if m_id r = i then (g r)\<lparr>m_status := s\<rparr> else r)"
      using False by (auto simp: update_mapping_def)
    have "m_id r = mid \<Longrightarrow> m_progress_percentage r \<in> set vs"
      using assms(1) r(1) by (auto simp: progress_in_def list_all_iff)
    then show "if m_id r' = mid then m_progress_percentage r' \<in> set vs else True"
      using r(2) assms(2)[of r] assms(3)[of r] by (auto split: if_splits)
  qed
qed

lemma progress_in_mono: "progress_in vs mid w \<Longrightarrow> set vs \<subseteq> set vs' \<Longrightarrow> progress_in vs' mid w"
  by (auto simp: progress_in_def list_all_iff split: if_splits)

lemma progress_in_mappings: "mappings w' = mappings w \<Longrightarrow> progress_in vs mid w' = progress_in vs mid w"
  by (simp add: progress_in_def)

lemma storeDiscoveredUrls_progress:
  assumes "progress_in [30, 40] mid w"
  shows "progress_in [30, 40] mid (storeDiscoveredUrls P D links config w)"
  unfolding storeDiscoveredUrls_def Let_def
  by (rule update_mapping_progress_in) (use assms in \<open>auto simp: progress_in_def\<close>)

lemma startAsyncBrandPipeline_progress:
  assumes "progress_in [30, 40] mid w"
  shows "progress_in [30, 40] mid (snd (startAsyncBrandPipeline P F D config w))"
  using assms storeDiscoveredUrls_progress[OF assms]
  by (auto simp: startAsyncBrandPipeline_def Let_def
      split: sum.splits option.splits list.splits prod.splits)

lemma orchestrator_progress:
  assumes "map_option m_id (dr_mapping (fst (processUnifiedBrandDiscovery P F D base_url now domain w)))
             = Some mid"
      and "distinct (map m_id (mappings w))"
      and "new_mapping_id D \<notin> set (map m_id (mappings w))"
  shows "progress_in [30, 40] mid (snd (processUnifiedBrandDiscovery P F D base_url now domain w))"
proof (cases "discovery_setup P F D now domain w")
  case (Pair r w1)
  show ?thesis
  proof (cases r)
    case (Inl response)
    then have "dr_mapping response = None" using Pair
      by (auto simp: discovery_setup_def Let_def failure_def caught_def
        split: option.splits if_splits sum.splits prod.splits)
    then show ?thesis using assms(1) Pair Inl by (simp add: processUnifiedBrandDiscovery_def)
  next
    case (Inr x)
    obtain extractJobId brand mapping where x: "x = (extractJobId, brand, mapping)"
      by (cases x) auto
    have "mapping \<noteq> None" using assms(1) Pair Inr x
      by (auto simp: processUnifiedBrandDiscovery_def Let_def split: prod.splits)
    then obtain m where m: "mapping = Some m" by auto
    have mid: "m_id m = mid" using assms(1) Pair Inr x m
      by (auto simp: processUnifiedBrandDiscovery_def Let_def split: prod.splits)
    have p1: "progress_in [30, 40] mid w1"
      using setup_progress[OF Pair[unfolded Inr x m] assms(2,3)] mid
      by (auto intro: progress_in_mono)
    define cfg where "cfg = \<lparr>cfg_brandId = b_id brand, cfg_domain = domain,
                                  cfg_mappingId = m_id m, cfg_webhookUrl = base_url @ ''/webhook/firecrawl''\<rparr>"
    have p2: "progress_in [30, 40] mid (snd (startAsyncBrandPipeline P F D cfg w1))"
      by (rule startAsyncBrandPipeline_progress[OF p1])
    have p3: "\<And>err. progress_in [30, 40] mid (update_mapping P (m_id m) ''failed''
                                       (\<lambda>r. r\<lparr>m_error_message := Some err\<rparr>)
                                       (snd (startAsyncBrandPipeline P F D cfg w1)))"
      by (rule update_mapping_progress_in[OF p2]) auto
    show ?thesis
      using Pair Inr x m p1 p2 p3
      by (auto simp: processUnifiedBrandDiscovery_def Let_def cfg_def
          split: prod.splits option.splits)
  qed
qed

text \<open>
  Claim C4, as amended. A discovery run is a call of the orchestrator followed by webhook
  events. With unique mapping ids (the database's primary key), the orchestrator leaves
  the progress of its mapping at 30 or 40, and when the events are delivered in pipeline
  order (no started event after a completed event) every event keeps or raises the
  progress of that mapping.
\<close>

theorem progress_monotone_in_pipeline_order:
  assumes "map_option m_id (dr_mapping (fst (processUnifiedBrandDiscovery P F D base_url now domain w)))
             = Some mid"
      and "distinct (map m_id (mappings w))"
      and "new_mapping_id D \<notin> set (map m_id (mappings w))"
      and "in_pipeline_order evs"
  shows "progress_in [30, 40] mid (snd (processUnifiedBrandDiscovery P F D base_url now domain w))
         \<and> progress_never_decreases P now' mid evs
             (snd (processUnifiedBrandDiscovery P F D base_url now domain w))"
proof -
  have a: "progress_in [30, 40] mid (snd (processUnifiedBrandDiscovery P F D base_url now domain w))"
    using assms(1,2,3) by (rule orchestrator_progress)
  then have "progress_below 50 mid (snd (processUnifiedBrandDiscovery P F D base_url now domain w))"
    by (auto simp: progress_in_def progress_below_def list_all_iff split: if_splits)
  then have "progress_never_decreases P now' mid evs
             (snd (processUnifiedBrandDiscovery P F D base_url now domain w))"
    using assms(4) by (intro progress_after_setup) 
  with a show ?thesis by simp
qed

lemma dr_mapping_setup:
  "dr_mapping (fst (processUnifiedBrandDiscovery P F D base_url now domain w))
     = (case fst (discovery_setup P F D now domain w) of
          Inl response \<Rightarrow> dr_mapping response
        | Inr (extractJobId, brand, mapping) \<Rightarrow> mapping)"
  by (simp add: processUnifiedBrandDiscovery_def Let_def split: prod.splits sum.splits)

lemma setup_empty_world:
  "\<exists>brand m w1. discovery_setup test_platform F no_faults 1000 ''x.com'' empty_world
         = (Inr (''job1'', brand, Some m), w1) \<and> m_id m = ''m1''"
  if "fc_startExtract F = Inr (True, Some ''job1'')"
  using that
  by (simp add: discovery_setup_def startAsyncBrandExtraction_def find_existing_brand_def
      empty_world_def no_faults_def upsert_mapping_def Let_def)

lemma run_mapping_id:
  "map_option m_id (dr_mapping (fst (processUnifiedBrandDiscovery test_platform one_link_firecrawl
      no_faults ''https://worker.example'' 1000 ''x.com'' empty_world))) = Some ''m1''"
proof -
  obtain brand m w1 where "discovery_setup test_platform one_link_firecrawl no_faults 1000 ''x.com'' empty_world
         = (Inr (''job1'', brand, Some m), w1)" "m_id m = ''m1''"
    using setup_empty_world[of one_link_firecrawl] by (auto simp: one_link_firecrawl_def)
  then show ?thesis by (simp add: dr_mapping_setup)
qed

text \<open>
  The amended claim C4 at a run on an empty database: one link is mapped, then the
  started, page and completed events arrive in this order.
\<close>

theorem progress_monotone_in_pipeline_order_witness:
  "progress_in [30, 40] ''m1''
     (snd (processUnifiedBrandDiscovery test_platform one_link_firecrawl no_faults
             ''https://worker.example'' 1000 ''x.com'' empty_world))
   \<and> progress_never_decreases test_platform 2000 ''m1''
       [event_of_type ''batch_scrape.started'', event_of_type ''batch_scrape.page'',
        event_of_type ''batch_scrape.completed'']
       (snd (processUnifiedBrandDiscovery test_platform one_link_firecrawl no_faults
               ''https://worker.example'' 1000 ''x.com'' empty_world))"
proof -
  have d: "distinct (map m_id (mappings empty_world))"
    by (simp add: empty_world_def)
  have f: "new_mapping_id no_faults \<notin> set (map m_id (mappings empty_world))"
    by (simp add: empty_world_def)
  have o: "in_pipeline_order [event_of_type ''batch_scrape.started'', event_of_type ''batch_scrape.page'',
       event_of_type ''batch_scrape.completed'']"
    by (simp add: event_of_type_def started_event_def completed_event_def)
  show ?thesis
    by (rule progress_monotone_in_pipeline_order[OF run_mapping_id d f o])
qed

text \<open>
  The amended claim C7 at a run on an empty database where the map operation finds no
  link.
\<close>

theorem launch_failure_keeps_success_witness:
  "dr_success (fst (processUnifiedBrandDiscovery test_platform no_links_firecrawl no_faults
      ''https://worker.example'' 1000 ''x.com'' empty_world))
   \<and> list_all (\<lambda>r. if m_id r = ''m1''
                    then m_status r = ''failed''
                         \<and> m_error_message r = Some ''No URLs discovered during mapping''
                    else True)
       (mappings (snd (processUnifiedBrandDiscovery test_platform no_links_firecrawl no_faults
          ''https://worker.example'' 1000 ''x.com'' empty_world)))"
proof -
  obtain brand m w1 where s: "discovery_setup test_platform no_links_firecrawl no_faults 1000 ''x.com'' empty_world
         = (Inr (''job1'', brand, Some m), w1)" and i: "m_id m = ''m1''"
    using setup_empty_world[of no_links_firecrawl] by (auto simp: no_links_firecrawl_def)
  let ?cfg = "\<lparr>cfg_brandId = b_id brand, cfg_domain = ''x.com'', cfg_mappingId = m_id m,
              cfg_webhookUrl = ''https://worker.example'' @ ''/webhook/firecrawl''\<rparr>"
  have p: "startAsyncBrandPipeline test_platform no_links_firecrawl no_faults ?cfg w1
        = (\<lparr>ar_mapJobId = None, ar_batchJobId = None,
             ar_error = Some ''No URLs discovered during mapping''\<rparr>, w1)"
    by (simp add: startAsyncBrandPipeline_def no_links_firecrawl_def)
  have ne: "m_id m \<noteq> []" using i by simp
  have f: "\<not> db_update_error test_platform ''playground_url_mappings'' ''failed''"
      "\<not> falsy_str (startAsyncBrandExtraction no_links_firecrawl ''x.com'')"
      "brand_insert_error no_faults = None" "\<not> brand_insert_empty no_faults"
      "\<not> mapping_upsert_error no_faults"
    by (simp_all add: test_platform_def startAsyncBrandExtraction_def no_links_firecrawl_def
        falsy_str_def no_faults_def)
  from launch_failure_keeps_success[of test_platform no_links_firecrawl no_faults
      "''https://worker.example''" 1000 "''x.com''" empty_world "''job1''" brand m w1
      "\<lparr>ar_mapJobId = None, ar_batchJobId = None,
             ar_error = Some ''No URLs discovered during mapping''\<rparr>" w1
      "''No URLs discovered during mapping''"] s ne p i f
  show ?thesis by simp
qed

text \<open>
  Claim C7 as stated fails. When the upsert of the progress row reports an error, the
  response has \<open>success = false\<close> and no exception is thrown: the response is the one
  of the early \<open>return\<close>, without the \<open>details\<close> that the \<open>catch\<close> block adds. And
  when the launch fails with an \<open>Error\<close> whose message is empty, \<open>asyncResult.error\<close>
  is falsy: the mapping row is not marked \<open>failed\<close> and stays at \<open>processing\<close>.
\<close>

theorem failure_without_exception:
  "fst (processUnifiedBrandDiscovery test_platform one_link_firecrawl upsert_fails
          ''https://worker.example'' 1000 ''x.com'' empty_world)
     = \<lparr>dr_success = False, dr_brand = None, dr_mapping = None, dr_extractJobId = None,
        dr_error = Some ''Failed to create progress tracking'', dr_details = None\<rparr>
   \<and> dr_success (fst (processUnifiedBrandDiscovery test_platform map_throws_empty no_faults
          ''https://worker.example'' 1000 ''x.com'' empty_world))
   \<and> map m_status (mappings (snd (processUnifiedBrandDiscovery test_platform map_throws_empty
          no_faults ''https://worker.example'' 1000 ''x.com'' empty_world))) = [''processing'']"
  by (simp add: processUnifiedBrandDiscovery_def discovery_setup_def
      startAsyncBrandExtraction_def find_existing_brand_def empty_world_def no_faults_def
      upsert_fails_def one_link_firecrawl_def map_throws_empty_def upsert_mapping_def
      startAsyncBrandPipeline_def failure_def Let_def)

subsection \<open>Webhook signature verification\<close>









lemma takeWhile_all: "c \<notin> set s \<Longrightarrow> takeWhile (\<lambda>x. x \<noteq> c) s = s"
  by (induction s) auto

lemma dropWhile_all: "c \<notin> set s \<Longrightarrow> dropWhile (\<lambda>x. x \<noteq> c) s = []"
  by (induction s) auto







subsection \<open>Bucket cleanup\<close>

lemma split_on_parts_no_sep: "p \<in> set (split_on sep s) \<Longrightarrow> sep \<notin> set p"
proof (induction s arbitrary: p)
  case Nil
  then show ?case by simp
next
  case (Cons a s)
  show ?case
  proof (cases "a = sep")
    case True
    then show ?thesis using Cons by auto
  next
    case False
    obtain q qs where q: "split_on sep s = q # qs"
      using split_on_not_Nil[of sep s] by (cases "split_on sep s") auto
    then have "sep \<notin> set q" using Cons.IH by simp
    then show ?thesis using Cons False q by auto
  qed
qed

lemma split_on_append: "sep \<notin> set a \<Longrightarrow> split_on sep (a @ sep # r) = a # split_on sep r"
  by (induction a) auto

lemma folder_of_no_slash: "folder_of key = Some f \<Longrightarrow> CHR ''/'' \<notin> set f"
proof -
  assume a: "folder_of key = Some f"
  then have l: "length (split_on CHR ''/'' key) \<ge> 2" and f: "f = hd (tl (split_on CHR ''/'' key))"
    by (auto simp: folder_of_def Let_def split: if_splits)
  then obtain p q rest where "split_on CHR ''/'' key = p # q # rest"
    by (cases "split_on CHR ''/'' key"; cases "tl (split_on CHR ''/'' key)") auto
  then have "f \<in> set (split_on CHR ''/'' key)" using f by simp
  then show ?thesis by (rule split_on_parts_no_sep)
qed

lemma under_folder_of:
  assumes "under_folder d key" and "CHR ''/'' \<notin> set d"
  shows "folder_of key = Some d"
proof -
  from assms(1) obtain rest where k: "key = ''brands'' @ CHR ''/'' # (d @ CHR ''/'' # rest)"
    by (auto simp: under_folder_def prefix_def)
  have "split_on CHR ''/'' key = ''brands'' # split_on CHR ''/'' (d @ CHR ''/'' # rest)"
    unfolding k by (rule split_on_append) simp
  also have "split_on CHR ''/'' (d @ CHR ''/'' # rest) = d # split_on CHR ''/'' rest"
    using assms(2) by (rule split_on_append)
  finally show ?thesis by (simp add: folder_of_def)
qed

lemma under_folder_unique:
  "under_folder d key \<Longrightarrow> under_folder f key \<Longrightarrow> CHR ''/'' \<notin> set d \<Longrightarrow> CHR ''/'' \<notin> set f \<Longrightarrow> f = d"
  by (metis under_folder_of option.inject)

lemma under_folder_brands: "under_folder d key \<Longrightarrow> prefix ''brands/'' key"
  by (auto simp: under_folder_def prefix_def)

lemma add_brand_folder_set:
  "set (add_brand_folder obj acc)
     = set acc \<union> {f. folder_of (fst obj) = Some f}"
  by (auto simp: add_brand_folder_def folder_of_def Let_def)

lemma add_brand_folder_distinct: "distinct acc \<Longrightarrow> distinct (add_brand_folder obj acc)"
  by (auto simp: add_brand_folder_def Let_def)

lemma brand_folders_fold_set:
  "set (fold add_brand_folder objects acc)
     = set acc \<union> {f. \<exists>obj \<in> set objects. folder_of (fst obj) = Some f}"
  by (induction objects arbitrary: acc) (auto simp: add_brand_folder_set)

lemma brand_folders_fold_distinct:
  "distinct acc \<Longrightarrow> distinct (fold add_brand_folder objects acc)"
  by (induction objects arbitrary: acc) (auto simp: add_brand_folder_distinct)

lemma brand_folders_set:
  "set (brand_folders objects) = {f. \<exists>obj \<in> set objects. folder_of (fst obj) = Some f}"
  by (simp add: brand_folders_def brand_folders_fold_set)

lemma brand_folders_distinct: "distinct (brand_folders objects)"
  by (simp add: brand_folders_def brand_folders_fold_distinct)

lemma brand_folders_no_slash: "f \<in> set (brand_folders objects) \<Longrightarrow> CHR ''/'' \<notin> set f"
  by (auto simp: brand_folders_set dest: folder_of_no_slash)

subsection \<open>Groups of deletes\<close>

lemma delete_group_subseq: "subseq (delete_group P keys bucket) bucket"
proof -
  have "\<And>b. subseq (fold (\<lambda>key b. if delete_error P key then b else r2_delete b key) keys b) b"
  proof (induction keys)
    case Nil
    show ?case by simp
  next
    case (Cons k keys)
    have "subseq (r2_delete b k) b" by (simp add: r2_delete_def)
    then show ?case using Cons[of "r2_delete b k"] Cons[of b]
      by (auto intro: subseq_order.trans)
  qed
  then show ?thesis by (simp add: delete_group_def)
qed

lemma delete_group_keeps:
  "kv \<in> set bucket \<Longrightarrow> fst kv \<notin> set keys \<Longrightarrow> kv \<in> set (delete_group P keys bucket)"
proof -
  have "\<And>b. kv \<in> set b \<Longrightarrow> fst kv \<notin> set keys
        \<Longrightarrow> kv \<in> set (fold (\<lambda>key b. if delete_error P key then b else r2_delete b key) keys b)"
    by (induction keys) (auto simp: r2_delete_def)
  then show "kv \<in> set bucket \<Longrightarrow> fst kv \<notin> set keys \<Longrightarrow> kv \<in> set (delete_group P keys bucket)"
    by (simp add: delete_group_def)
qed

lemma delete_group_removes:
  assumes "k \<in> set keys" and "\<not> delete_error P k"
  shows "k \<notin> fst ` set (delete_group P keys bucket)"
proof -
  have gone: "\<And>ks b. k \<notin> fst ` set b
        \<Longrightarrow> k \<notin> fst ` set (fold (\<lambda>key b. if delete_error P key then b else r2_delete b key) ks b)"
  proof -
    fix ks b show "k \<notin> fst ` set b
        \<Longrightarrow> k \<notin> fst ` set (fold (\<lambda>key b. if delete_error P key then b else r2_delete b key) ks b)"
    proof (induction ks arbitrary: b)
      case Nil
      then show ?case by simp
    next
      case (Cons a ks)
      have "k \<notin> fst ` set (r2_delete b a)" using Cons.prems by (auto simp: r2_delete_def)
      then show ?case using Cons.IH[of "r2_delete b a"] Cons.IH[of b] Cons.prems by simp
    qed
  qed
  have "\<And>b. k \<in> set keys
        \<Longrightarrow> k \<notin> fst ` set (fold (\<lambda>key b. if delete_error P key then b else r2_delete b key) keys b)"
  proof (induction keys)
    case Nil
    then show ?case by simp
  next
    case (Cons a keys)
    show ?case
    proof (cases "a = k")
      case True
      have "k \<notin> fst ` set (r2_delete b k)" by (auto simp: r2_delete_def)
      then show ?thesis using True assms(2) gone by simp
    next
      case False
      then show ?thesis using Cons by auto
    qed
  qed
  then show ?thesis using assms(1) by (simp add: delete_group_def)
qed

lemma r2_objects_keys:
  "kv \<in> set (r2_objects P bucket pfx) \<Longrightarrow> prefix pfx (fst kv) \<and> kv \<in> set bucket"
  by (auto simp: r2_objects_def dest: in_set_takeD)

lemma r2_objects_complete:
  "length (filter (\<lambda>kv. prefix pfx (fst kv)) bucket) \<le> list_limit P
   \<Longrightarrow> set (r2_objects P bucket pfx) = set (filter (\<lambda>kv. prefix pfx (fst kv)) bucket)"
  by (simp add: r2_objects_def)

lemma r2_objects_all:
  assumes "list_all (\<lambda>kv. prefix pfx (fst kv)) bucket" and "length bucket \<le> list_limit P"
  shows "length (r2_objects P bucket pfx) = length bucket"
proof -
  have "filter (\<lambda>kv. prefix pfx (fst kv)) bucket = bucket"
    using assms(1) by (simp add: list_all_iff)
  then show ?thesis using assms(2) by (simp add: r2_objects_def)
qed

lemma cleanup_folder_subseq: "subseq (cs_bucket (cleanup_folder P K f st)) (cs_bucket st)"
  by (simp add: cleanup_folder_def r2_list_def delete_group_subseq split: option.splits)

lemma cleanup_folder_keeps:
  assumes "kv \<in> set (cs_bucket st)" and "f \<in> set K \<or> \<not> under_folder f (fst kv)"
  shows "kv \<in> set (cs_bucket (cleanup_folder P K f st))"
proof (cases "f \<in> set K")
  case True
  then show ?thesis using assms(1) by (simp add: cleanup_folder_def)
next
  case False
  then have nu: "\<not> under_folder f (fst kv)" using assms(2) by simp
  have "fst kv \<notin> set (map fst (r2_objects P (cs_bucket st) (''brands/'' @ f @ ''/'')))"
  proof
    assume "fst kv \<in> set (map fst (r2_objects P (cs_bucket st) (''brands/'' @ f @ ''/'')))"
    then obtain kv' where "kv' \<in> set (r2_objects P (cs_bucket st) (''brands/'' @ f @ ''/''))"
        "fst kv' = fst kv"
      by auto
    then have "under_folder f (fst kv)"
      using r2_objects_keys[of kv' P "cs_bucket st"] by (simp add: under_folder_def)
    then show False using nu by simp
  qed
  then have "kv \<in> set (delete_group P
      (map fst (r2_objects P (cs_bucket st) (''brands/'' @ f @ ''/''))) (cs_bucket st))"
    using assms(1) by (intro delete_group_keeps)
  then show ?thesis using assms(1)
    by (simp add: cleanup_folder_def r2_list_def split: option.splits)
qed

lemma subseq_subset: "subseq xs ys \<Longrightarrow> set xs \<subseteq> set ys"
  by (induction rule: list_emb.induct) auto

lemma subseq_absent: "subseq xs ys \<Longrightarrow> k \<notin> fst ` set ys \<Longrightarrow> k \<notin> fst ` set xs"
  using subseq_subset by fastforce

lemma filter_length_mono:
  "(\<And>x. P x \<Longrightarrow> Q x) \<Longrightarrow> length (filter P xs) \<le> length (filter Q xs)"
  by (induction xs) auto

lemma cleanup_folder_removes:
  assumes "f \<notin> set K" and "under_folder f k" and "\<not> delete_error P k"
      and "length (filter (\<lambda>kv. prefix ''brands/'' (fst kv)) (cs_bucket st)) \<le> list_limit P"
      and "list_error P (''brands/'' @ f @ ''/'') = None"
  shows "k \<notin> fst ` set (cs_bucket (cleanup_folder P K f st))"
proof (cases "k \<in> fst ` set (cs_bucket st)")
  case False
  show ?thesis by (rule subseq_absent[OF cleanup_folder_subseq False])
next
  case True
  then obtain v where kv: "(k, v) \<in> set (cs_bucket st)" by auto
  define pfx where "pfx = ''brands/'' @ f @ ''/''"
  have "length (filter (\<lambda>kv. prefix pfx (fst kv)) (cs_bucket st))
          \<le> length (filter (\<lambda>kv. prefix ''brands/'' (fst kv)) (cs_bucket st))"
    unfolding pfx_def
    by (rule filter_length_mono) (use under_folder_brands in \<open>simp add: under_folder_def\<close>)
  then have l: "set (r2_objects P (cs_bucket st) pfx)
      = set (filter (\<lambda>kv. prefix pfx (fst kv)) (cs_bucket st))"
    using assms(4) by (intro r2_objects_complete) simp
  have inl: "(k, v) \<in> set (r2_objects P (cs_bucket st) pfx)"
    unfolding l using kv assms(2) by (simp add: under_folder_def pfx_def)
  then have ne: "r2_objects P (cs_bucket st) pfx \<noteq> []" by auto
  have "k \<in> set (map fst (r2_objects P (cs_bucket st) pfx))" using inl by force
  then have "k \<notin> fst ` set (delete_group P (map fst (r2_objects P (cs_bucket st) pfx))
      (cs_bucket st))"
    using assms(3) by (rule delete_group_removes)
  then show ?thesis using assms(1,5) ne
    by (simp add: cleanup_folder_def r2_list_def pfx_def)
qed

lemma fold_cleanup_subseq:
  "subseq (cs_bucket (fold (cleanup_folder P K) fs st)) (cs_bucket st)"
proof (induction fs arbitrary: st)
  case Nil
  show ?case by simp
next
  case (Cons f fs)
  have "subseq (cs_bucket (fold (cleanup_folder P K) fs (cleanup_folder P K f st)))
          (cs_bucket (cleanup_folder P K f st))" by (rule Cons)
  then show ?case using cleanup_folder_subseq[of P K f st]
    by (auto intro: subseq_order.trans)
qed

lemma fold_cleanup_keeps:
  assumes "kv \<in> set (cs_bucket st)"
      and "\<forall>f \<in> set fs. f \<in> set K \<or> \<not> under_folder f (fst kv)"
  shows "kv \<in> set (cs_bucket (fold (cleanup_folder P K) fs st))"
  using assms
proof (induction fs arbitrary: st)
  case Nil
  then show ?case by simp
next
  case (Cons f fs)
  have "kv \<in> set (cs_bucket (cleanup_folder P K f st))"
    using Cons.prems by (intro cleanup_folder_keeps) auto
  then show ?case using Cons by simp
qed

lemma fold_cleanup_removes:
  assumes "f \<in> set fs" and "f \<notin> set K" and "under_folder f k" and "\<not> delete_error P k"
      and "length (filter (\<lambda>kv. prefix ''brands/'' (fst kv)) (cs_bucket st)) \<le> list_limit P"
      and "list_error P (''brands/'' @ f @ ''/'') = None"
  shows "k \<notin> fst ` set (cs_bucket (fold (cleanup_folder P K) fs st))"
  using assms(1,5)
proof (induction fs arbitrary: st)
  case Nil
  then show ?case by simp
next
  case (Cons f' fs)
  define st' where "st' = cleanup_folder P K f' st"
  have sub: "subseq (cs_bucket st') (cs_bucket st)"
    unfolding st'_def by (rule cleanup_folder_subseq)
  have "length (filter (\<lambda>kv. prefix ''brands/'' (fst kv)) (cs_bucket st'))
        \<le> length (filter (\<lambda>kv. prefix ''brands/'' (fst kv)) (cs_bucket st))"
    using sub by (intro list_emb_length[where P="(=)"] subseq_filter)
  then have len: "length (filter (\<lambda>kv. prefix ''brands/'' (fst kv)) (cs_bucket st'))
      \<le> list_limit P"
    using Cons.prems(2) by simp
  show ?case
  proof (cases "f = f'")
    case True
    have "k \<notin> fst ` set (cs_bucket st')"
      unfolding st'_def True[symmetric]
      using assms(2,3,4) Cons.prems(2) assms(6) by (rule cleanup_folder_removes)
    then have "k \<notin> fst ` set (cs_bucket (fold (cleanup_folder P K) fs st'))"
      by (rule subseq_absent[OF fold_cleanup_subseq])
    then show ?thesis by (simp add: st'_def)
  next
    case False
    then have "f \<in> set fs" using Cons.prems(1) by simp
    then show ?thesis using Cons.IH[OF _ len] by (simp add: st'_def)
  qed
qed

text \<open>
  A round of the loop starts at most one group, for its own folder, which is then
  outside the keep-list; the group is not empty and holds keys of that folder only.
\<close>

lemma cleanup_folder_groups:
  "\<exists>ds gs. cs_deletedFolders (cleanup_folder P K f st) = cs_deletedFolders st @ ds
         \<and> cs_groups (cleanup_folder P K f st) = cs_groups st @ gs
         \<and> subseq ds [f] \<and> list_all2 (\<lambda>d g. d \<notin> set K \<and> folder_group d g) ds gs"
proof (cases "f \<notin> set K \<and> list_error P (''brands/'' @ f @ ''/'') = None
              \<and> r2_objects P (cs_bucket st) (''brands/'' @ f @ ''/'') \<noteq> []")
  case True
  define g where "g = map fst (r2_objects P (cs_bucket st) (''brands/'' @ f @ ''/''))"
  have "folder_group f g"
    unfolding g_def
    using True r2_objects_keys[of _ P "cs_bucket st" "''brands/'' @ f @ ''/''"]
    by (auto simp: folder_group_def list_all_iff under_folder_def)
  then have "cs_deletedFolders (cleanup_folder P K f st) = cs_deletedFolders st @ [f]
         \<and> cs_groups (cleanup_folder P K f st) = cs_groups st @ [g]
         \<and> subseq [f] [f] \<and> list_all2 (\<lambda>d g. d \<notin> set K \<and> folder_group d g) [f] [g]"
    using True by (simp add: cleanup_folder_def r2_list_def g_def)
  then show ?thesis by blast
next
  case False
  then have "cs_deletedFolders (cleanup_folder P K f st) = cs_deletedFolders st @ []
         \<and> cs_groups (cleanup_folder P K f st) = cs_groups st @ []
         \<and> subseq [] [f] \<and> list_all2 (\<lambda>d g. d \<notin> set K \<and> folder_group d g) [] []"
    by (auto simp: cleanup_folder_def r2_list_def split: option.splits)
  then show ?thesis by blast
qed

lemma fold_cleanup_groups:
  "\<exists>ds gs. cs_deletedFolders (fold (cleanup_folder P K) fs st) = cs_deletedFolders st @ ds
         \<and> cs_groups (fold (cleanup_folder P K) fs st) = cs_groups st @ gs
         \<and> subseq ds fs \<and> list_all2 (\<lambda>d g. d \<notin> set K \<and> folder_group d g) ds gs"
proof (induction fs arbitrary: st)
  case Nil
  show ?case by simp
next
  case (Cons f fs)
  define st' where "st' = cleanup_folder P K f st"
  obtain d1 g1 where 1: "cs_deletedFolders st' = cs_deletedFolders st @ d1"
      "cs_groups st' = cs_groups st @ g1"
      "subseq d1 [f]" "list_all2 (\<lambda>d g. d \<notin> set K \<and> folder_group d g) d1 g1"
    unfolding st'_def using cleanup_folder_groups[of P K f st] by blast
  obtain d2 g2 where 2:
      "cs_deletedFolders (fold (cleanup_folder P K) fs st') = cs_deletedFolders st' @ d2"
      "cs_groups (fold (cleanup_folder P K) fs st') = cs_groups st' @ g2"
      "subseq d2 fs" "list_all2 (\<lambda>d g. d \<notin> set K \<and> folder_group d g) d2 g2"
    using Cons[of st'] by blast
  have "subseq (d1 @ d2) ([f] @ fs)" using 1(3) 2(3) by (rule list_emb_append_mono)
  moreover have "list_all2 (\<lambda>d g. d \<notin> set K \<and> folder_group d g) (d1 @ d2) (g1 @ g2)"
    using 1(4) 2(4) by (rule list_all2_appendI)
  ultimately show ?case using 1 2
    by (intro exI[of _ "d1 @ d2"] exI[of _ "g1 @ g2"]) (simp add: st'_def)
qed

lemma subseq_distinct: "subseq xs ys \<Longrightarrow> distinct ys \<Longrightarrow> distinct xs"
proof (induction rule: list_emb.induct)
  case (list_emb_Nil ys)
  show ?case by simp
next
  case (list_emb_Cons xs ys y)
  then show ?case by simp
next
  case (list_emb_Cons2 x y xs ys)
  then have "x \<notin> set xs" using subseq_subset[of xs ys] by auto
  then show ?case using list_emb_Cons2 by simp
qed

text \<open>The two ways the handler returns without entering the loop.\<close>

lemma cleanup_listing_throws:
  "list_error P ''brands/'' = Some msg
   \<Longrightarrow> handleR2Cleanup P requested bucket =
      (\<lparr>cr_status = 500, cr_success = False, cr_message = None, cr_brandsKept = None,
        cr_deletedFolders = None, cr_errors = None, cr_summary = None,
        cr_error = Some ''Cleanup failed'', cr_details = Some msg\<rparr>, bucket, [])"
  by (simp add: handleR2Cleanup_def r2_list_def)

lemma cleanup_nothing_listed:
  "list_error P ''brands/'' = None \<Longrightarrow> r2_objects P bucket ''brands/'' = []
   \<Longrightarrow> handleR2Cleanup P requested bucket =
      (\<lparr>cr_status = 200, cr_success = True,
        cr_message = Some ''No objects found in bucket'', cr_brandsKept = None,
        cr_deletedFolders = Some [], cr_errors = Some [], cr_summary = None,
        cr_error = None, cr_details = None\<rparr>, bucket, [])"
  by (simp add: handleR2Cleanup_def r2_list_def)

lemma cleanup_loop:
  assumes "list_error P ''brands/'' = None" and "r2_objects P bucket ''brands/'' \<noteq> []"
  shows "\<exists>response.
           handleR2Cleanup P requested bucket =
             (response,
              cs_bucket (fold (cleanup_folder P (brands_to_keep requested))
                 (brand_folders (r2_objects P bucket ''brands/''))
                 \<lparr>cs_bucket = bucket, cs_deletedFolders = [], cs_errors = [], cs_groups = []\<rparr>),
              cs_groups (fold (cleanup_folder P (brands_to_keep requested))
                 (brand_folders (r2_objects P bucket ''brands/''))
                 \<lparr>cs_bucket = bucket, cs_deletedFolders = [], cs_errors = [], cs_groups = []\<rparr>))
           \<and> cr_deletedFolders response =
               Some (cs_deletedFolders (fold (cleanup_folder P (brands_to_keep requested))
                 (brand_folders (r2_objects P bucket ''brands/''))
                 \<lparr>cs_bucket = bucket, cs_deletedFolders = [], cs_errors = [],
                  cs_groups = []\<rparr>))"
  using assms by (simp add: handleR2Cleanup_def r2_list_def Let_def)

text \<open>
  When listing a folder throws, the round records the error and changes nothing else.
\<close>

lemma cleanup_folder_listing_throws:
  "f \<notin> set K \<Longrightarrow> list_error P (''brands/'' @ f @ ''/'') = Some msg
   \<Longrightarrow> cleanup_folder P K f st =
       st\<lparr>cs_errors := cs_errors st
             @ [''Failed to delete brand folder '' @ f @ '': '' @ exn_string (Error msg)]\<rparr>"
  by (simp add: cleanup_folder_def r2_list_def)

text \<open>
  Claim C8, as amended. Every object under \<open>brands/d/\<close> for a folder \<open>d\<close> of the
  keep-list stays in the bucket as it was; an object that does not stay is under
  \<open>brands/d/\<close> for a folder \<open>d\<close> outside the keep-list; and nothing is added or
  changed. Every object under \<open>brands/d/\<close> for a folder \<open>d\<close> outside the keep-list is
  gone when its delete does not fail, the listing of \<open>brands/\<close> is complete, and
  neither that listing nor the listing of the folder throws. The deletes are started as
  one group per deleted folder, each folder once and none of them in the keep-list; a
  group is not empty and holds keys of its folder only. When the first listing throws
  there is no list of deleted folders and no group. A folder is a path segment, without
  \<open>/\<close>.
\<close>

theorem cleanup_keeps_and_deletes:
  "(\<forall>kv d. kv \<in> set bucket \<and> d \<in> set (brands_to_keep requested) \<and> CHR ''/'' \<notin> set d
            \<and> under_folder d (fst kv)
       \<longrightarrow> kv \<in> set (fst (snd (handleR2Cleanup P requested bucket))))
   \<and> (\<forall>kv. kv \<in> set bucket \<and> kv \<notin> set (fst (snd (handleR2Cleanup P requested bucket)))
       \<longrightarrow> (\<exists>d. d \<notin> set (brands_to_keep requested) \<and> CHR ''/'' \<notin> set d
                \<and> under_folder d (fst kv)))
   \<and> subseq (fst (snd (handleR2Cleanup P requested bucket))) bucket
   \<and> (\<forall>k d. d \<notin> set (brands_to_keep requested) \<and> CHR ''/'' \<notin> set d \<and> under_folder d k
            \<and> \<not> delete_error P k
            \<and> length (filter (\<lambda>kv. prefix ''brands/'' (fst kv)) bucket) \<le> list_limit P
            \<and> list_error P ''brands/'' = None
            \<and> list_error P (''brands/'' @ d @ ''/'') = None
       \<longrightarrow> k \<notin> fst ` set (fst (snd (handleR2Cleanup P requested bucket))))
   \<and> (case cr_deletedFolders (fst (handleR2Cleanup P requested bucket)) of
        None \<Rightarrow> snd (snd (handleR2Cleanup P requested bucket)) = []
      | Some deletedFolders \<Rightarrow>
          distinct deletedFolders
          \<and> list_all2 (\<lambda>d g. d \<notin> set (brands_to_keep requested) \<and> folder_group d g)
              deletedFolders (snd (snd (handleR2Cleanup P requested bucket))))"
proof -
  define K where "K = brands_to_keep requested"
  define fs where "fs = brand_folders (r2_objects P bucket ''brands/'')"
  define st where "st = fold (cleanup_folder P K) fs
      \<lparr>cs_bucket = bucket, cs_deletedFolders = [], cs_errors = [], cs_groups = []\<rparr>"
  consider (c500) msg where "list_error P ''brands/'' = Some msg"
    | (cnone) "list_error P ''brands/'' = None" "r2_objects P bucket ''brands/'' = []"
    | (cloop) "list_error P ''brands/'' = None" "r2_objects P bucket ''brands/'' \<noteq> []"
    by (cases "list_error P ''brands/''") auto
  then show ?thesis
  proof cases
    case c500
    show ?thesis
      unfolding cleanup_listing_throws[OF c500] using c500 by auto
  next
    case cnone
    have none: "k \<notin> fst ` set bucket"
      if u: "under_folder d k"
        and l: "length (filter (\<lambda>kv. prefix ''brands/'' (fst kv)) bucket) \<le> list_limit P"
      for k d
    proof
      assume "k \<in> fst ` set bucket"
      then obtain v where "(k, v) \<in> set bucket" by auto
      then have "(k, v) \<in> set (filter (\<lambda>kv. prefix ''brands/'' (fst kv)) bucket)"
        using under_folder_brands[OF u] by simp
      then have "(k, v) \<in> set (r2_objects P bucket ''brands/'')"
        using r2_objects_complete[OF l] by simp
      then show False using cnone(2) by simp
    qed
    show ?thesis
      unfolding cleanup_nothing_listed[OF cnone] using none by auto
  next
    case cloop
    obtain response where r: "handleR2Cleanup P requested bucket
          = (response, cs_bucket st, cs_groups st)"
        and df: "cr_deletedFolders response = Some (cs_deletedFolders st)"
      using cleanup_loop[OF cloop, of requested] unfolding st_def fs_def K_def by blast
    have keep: "kv \<in> set (cs_bucket st)"
      if a: "kv \<in> set bucket" "\<forall>f \<in> set fs. f \<in> set K \<or> \<not> under_folder f (fst kv)" for kv
      unfolding st_def using a by (intro fold_cleanup_keeps) simp_all
    have keep1: "kv \<in> set (cs_bucket st)"
      if a: "kv \<in> set bucket" "d \<in> set K" "CHR ''/'' \<notin> set d" "under_folder d (fst kv)"
      for kv d
    proof (rule keep[OF a(1)], rule ballI)
      fix f assume "f \<in> set fs"
      then have "CHR ''/'' \<notin> set f" unfolding fs_def by (rule brand_folders_no_slash)
      then show "f \<in> set K \<or> \<not> under_folder f (fst kv)"
        using a(2,3,4) under_folder_unique[of d "fst kv" f] by auto
    qed
    have keep2: "\<exists>d. d \<notin> set K \<and> CHR ''/'' \<notin> set d \<and> under_folder d (fst kv)"
      if a: "kv \<in> set bucket" "kv \<notin> set (cs_bucket st)" for kv
    proof -
      have "\<not> (\<forall>f \<in> set fs. f \<in> set K \<or> \<not> under_folder f (fst kv))"
        using keep[OF a(1)] a(2) by blast
      then obtain f where f: "f \<in> set fs" "f \<notin> set K" "under_folder f (fst kv)" by blast
      have "CHR ''/'' \<notin> set f" using f(1) unfolding fs_def by (rule brand_folders_no_slash)
      then show ?thesis using f by blast
    qed
    have sub: "subseq (cs_bucket st) bucket"
      unfolding st_def
      using fold_cleanup_subseq[of P K fs
          "\<lparr>cs_bucket = bucket, cs_deletedFolders = [], cs_errors = [], cs_groups = []\<rparr>"]
      by simp
    have del: "k \<notin> fst ` set (cs_bucket st)"
      if a: "d \<notin> set K" "CHR ''/'' \<notin> set d" "under_folder d k" "\<not> delete_error P k"
        "length (filter (\<lambda>kv. prefix ''brands/'' (fst kv)) bucket) \<le> list_limit P"
        "list_error P (''brands/'' @ d @ ''/'') = None" for k d
    proof (cases "k \<in> fst ` set bucket")
      case False
      show ?thesis by (rule subseq_absent[OF sub False])
    next
      case True
      then obtain v where "(k, v) \<in> set bucket" by auto
      then have "(k, v) \<in> set (r2_objects P bucket ''brands/'')"
        using r2_objects_complete[OF a(5)] under_folder_brands[OF a(3)] by simp
      moreover have "folder_of k = Some d" using a(3,2) by (rule under_folder_of)
      ultimately have "d \<in> set fs"
        unfolding fs_def brand_folders_set by force
      then show ?thesis
        unfolding st_def using a by (intro fold_cleanup_removes[where f=d]) simp_all
    qed
    obtain ds gs where g: "cs_deletedFolders st = ds" "cs_groups st = gs" "subseq ds fs"
        "list_all2 (\<lambda>d g. d \<notin> set K \<and> folder_group d g) ds gs"
      using fold_cleanup_groups[of P K fs
          "\<lparr>cs_bucket = bucket, cs_deletedFolders = [], cs_errors = [], cs_groups = []\<rparr>"]
      unfolding st_def by auto
    have "distinct ds"
      using g(3) brand_folders_distinct unfolding fs_def by (rule subseq_distinct)
    then show ?thesis
      unfolding r K_def[symmetric] using keep1 keep2 sub del g(1,2,4) df
      by (simp only: fst_conv snd_conv option.case) blast
  qed
qed

lemma single_folder_groups:
  assumes "brand_folders (r2_objects P bucket ''brands/'') = [f]"
      and "f \<notin> set (brands_to_keep requested)"
      and "list_error P ''brands/'' = None" and "list_error P (''brands/'' @ f @ ''/'') = None"
      and "r2_objects P bucket (''brands/'' @ f @ ''/'') = objs" and "objs \<noteq> []"
  shows "snd (snd (handleR2Cleanup P requested bucket)) = [map fst objs]"
proof -
  have "r2_objects P bucket ''brands/'' \<noteq> []"
    using assms(1) by (auto simp: brand_folders_def)
  then show ?thesis using assms
    by (simp add: handleR2Cleanup_def Let_def cleanup_folder_def r2_list_def)
qed

lemma one_folder:
  assumes "list_all (\<lambda>kv. under_folder ''x.com'' (fst kv)) objs" and "objs \<noteq> []"
  shows "brand_folders objs = [''x.com'']"
proof -
  have step: "add_brand_folder (k, v) acc
      = (if ''x.com'' \<in> set acc then acc else acc @ [''x.com''])"
    if "under_folder ''x.com'' k" for k v acc
  proof -
    have "folder_of k = Some ''x.com''" using that by (rule under_folder_of) simp
    then show ?thesis
      by (auto simp: add_brand_folder_def folder_of_def Let_def split: if_splits)
  qed
  have gen: "fold add_brand_folder xs acc
          = (if xs = [] \<or> ''x.com'' \<in> set acc then acc else acc @ [''x.com''])"
    if "list_all (\<lambda>kv. under_folder ''x.com'' (fst kv)) xs" for xs acc
    using that
  proof (induction xs arbitrary: acc)
    case Nil
    show ?case by simp
  next
    case (Cons kv xs)
    obtain k v where kv: "kv = (k, v)" by (cases kv)
    show ?case using Cons step[of k v acc] by (auto simp: kv)
  qed
  from gen[OF assms(1), of "[]"] assms(2) show ?thesis
    by (simp add: brand_folders_def)
qed

lemma pages_under_folder:
  "list_all (\<lambda>kv. under_folder ''x.com'' (fst kv)) (pages_bucket n)"
  "list_all (\<lambda>kv. prefix ''brands/'' (fst kv)) (pages_bucket n)"
  "list_all (\<lambda>kv. prefix (''brands/'' @ ''x.com'' @ ''/'') (fst kv)) (pages_bucket n)"
  by (simp_all add: pages_bucket_def list_all_iff under_folder_def)

text \<open>
  Claim C8 as stated fails: the handler does not delete in batches of 100. With 101
  objects in one folder it starts one group of 101 deletes.
\<close>

theorem cleanup_deletes_in_one_group:
  "map length (snd (snd (handleR2Cleanup test_platform (Some []) (pages_bucket 101)))) = [101]"
proof -
  define all where "all = r2_objects test_platform (pages_bucket 101) ''brands/''"
  define objs where
    "objs = r2_objects test_platform (pages_bucket 101) (''brands/'' @ ''x.com'' @ ''/'')"
  have len: "length (pages_bucket 101) = 101" "length (pages_bucket 101) \<le> list_limit test_platform"
    by (simp_all add: pages_bucket_def test_platform_def)
  have la: "length all = 101"
    unfolding all_def using r2_objects_all[OF pages_under_folder(2) len(2)] len(1) by simp
  have lo: "length objs = 101"
    unfolding objs_def using r2_objects_all[OF pages_under_folder(3) len(2)] len(1) by simp
  have ua: "list_all (\<lambda>kv. under_folder ''x.com'' (fst kv)) all"
    unfolding all_def list_all_iff
    using r2_objects_keys[of _ test_platform "pages_bucket 101" "''brands/''"]
      pages_under_folder(1)[of 101]
    by (auto simp: list_all_iff)
  have ne: "all \<noteq> []" "objs \<noteq> []" using la lo by auto
  have f: "brand_folders (r2_objects test_platform (pages_bucket 101) ''brands/'') = [''x.com'']"
    using one_folder[OF ua ne(1)] by (simp add: all_def)
  have k: "''x.com'' \<notin> set (brands_to_keep (Some []))" by (simp add: brands_to_keep_def)
  have e: "list_error test_platform ''brands/'' = None"
      "list_error test_platform (''brands/'' @ ''x.com'' @ ''/'') = None"
    by (simp_all add: test_platform_def)
  have "snd (snd (handleR2Cleanup test_platform (Some []) (pages_bucket 101))) = [map fst objs]"
    using f k e objs_def[symmetric] ne(2) by (rule single_folder_groups)
  then show ?thesis using lo by simp
qed

text \<open>
  The amended claim C8 at a bucket with one object, once with its folder in the keep-list
  and once without.
\<close>

theorem cleanup_keeps_and_deletes_witness:
  "(''brands/x.com/content/pages/p0.md'', \<lparr>o_body = [], o_size = 0, o_customMetadata = []\<rparr>)
      \<in> set (fst (snd (handleR2Cleanup test_platform (Some [''x.com'']) (pages_bucket 1))))
   \<and> ''brands/x.com/content/pages/p0.md''
      \<notin> fst ` set (fst (snd (handleR2Cleanup test_platform (Some [''y.com'']) (pages_bucket 1))))"
proof -
  define kv :: "string \<times> r2_object" where
    "kv = (''brands/x.com/content/pages/p0.md'', \<lparr>o_body = [], o_size = 0, o_customMetadata = []\<rparr>)"
  have sn: "show_nat 0 = ''0''" by (simp add: show_nat.simps digit_chars_def)
  have b: "pages_bucket 1 = [kv]" by (simp add: pages_bucket_def sn kv_def)
  have u: "under_folder ''x.com'' (fst kv)" by (simp add: under_folder_def kv_def)
  have a1: "kv \<in> set (pages_bucket 1) \<and> ''x.com'' \<in> set (brands_to_keep (Some [''x.com'']))
      \<and> CHR ''/'' \<notin> set ''x.com'' \<and> under_folder ''x.com'' (fst kv)"
    using u unfolding b by (simp add: brands_to_keep_def)
  have a2: "''x.com'' \<notin> set (brands_to_keep (Some [''y.com''])) \<and> CHR ''/'' \<notin> set ''x.com''
      \<and> under_folder ''x.com'' (fst kv)
      \<and> \<not> delete_error test_platform (fst kv)
      \<and> length (filter (\<lambda>kv. prefix ''brands/'' (fst kv)) (pages_bucket 1)) \<le> list_limit test_platform
      \<and> list_error test_platform ''brands/'' = None
      \<and> list_error test_platform (''brands/'' @ ''x.com'' @ ''/'') = None"
    using u unfolding b by (simp add: brands_to_keep_def test_platform_def)
  from cleanup_keeps_and_deletes[of "pages_bucket 1" "Some [''x.com'']" test_platform] a1
  have 1: "kv \<in> set (fst (snd (handleR2Cleanup test_platform (Some [''x.com'']) (pages_bucket 1))))"
    by blast
  from cleanup_keeps_and_deletes[of "pages_bucket 1" "Some [''y.com'']" test_platform] a2
  have 2: "fst kv
      \<notin> fst ` set (fst (snd (handleR2Cleanup test_platform (Some [''y.com'']) (pages_bucket 1))))"
    by blast
  from 1 2 show ?thesis by (simp add: kv_def)
qed

text \<open>
  \<open>deleteBrandContent\<close>, which the cleanup handler does not call, is the function that
  deletes in batches of at most 100.
\<close>

lemma delete_loop_batches:
  "list_all (\<lambda>g. length g \<le> 100) groups
   \<Longrightarrow> list_all (\<lambda>g. length g \<le> 100) (snd (delete_loop P keys i (bucket, groups)))"
proof (induction "length keys - i" arbitrary: i bucket groups rule: less_induct)
  case less
  show ?case
  proof (cases "i < length keys")
    case False
    then show ?thesis using less.prems by (simp add: delete_loop.simps)
  next
    case True
    have d: "length keys - (i + 100) < length keys - i" using True by simp
    have g: "list_all (\<lambda>g. length g \<le> 100) (groups @ [take 100 (drop i keys)])"
      using less.prems by simp
    show ?thesis
      using less.hyps[OF d g, of "delete_group P (take 100 (drop i keys)) bucket"] True
      by (simp add: delete_loop.simps[of P keys i] Let_def)
  qed
qed

lemma deleteBrandContent_batches:
  "deleteBrandContent P bucket domain pfx = Inr (bucket1, groups)
   \<Longrightarrow> list_all (\<lambda>g. length g \<le> 100) groups"
proof -
  assume a: "deleteBrandContent P bucket domain pfx = Inr (bucket1, groups)"
  then obtain objects where o: "listBrandContent P bucket domain pfx = Inr objects"
    by (cases "listBrandContent P bucket domain pfx") (simp_all add: deleteBrandContent_def)
  show ?thesis
  proof (cases "objects = []")
    case True
    then show ?thesis using a o by (simp add: deleteBrandContent_def)
  next
    case False
    then have "groups = snd (delete_loop P (map fst objects) 0 (bucket, []))"
      using a o by (simp add: deleteBrandContent_def)
    then show ?thesis using delete_loop_batches[of "[]" P "map fst objects" 0 bucket] by simp
  qed
qed

end
